(* ===== verification/Prelude.thy ===== *)
theory Prelude
  imports Main "HOL-Library.Word"
begin

text \<open>
  What the components of the transport share: the machine integers of the source as words, the
  results of a Rust call (a value, a returned error or a panic), \<open>std::task::Poll\<close>, range checked
  slices, the big-endian bytes of a \<open>u64\<close>, and the generic lemmas on them.  The collection
  \<open>outcome_simps\<close> holds the rewrite rules for the results, \<open>slice_simps\<close> those for the slices.
\<close>

unbundle bit_operations_syntax

named_theorems outcome_simps
named_theorems slice_simps

section \<open>Machine integers\<close>

type_synonym u8 = "8 word"
type_synonym u64 = "64 word"

section \<open>Results, panics and polls\<close>

text \<open>
  \<open>Result<T, E>\<close> of the standard library, with one more constructor: a call that panics returns
  neither \<open>Ok\<close> nor \<open>Err\<close>, and the panic's text is kept.
\<close>

datatype ('a, 'e) outcome = Ok 'a | Err 'e | Panic string

text \<open>The \<open>?\<close> operator: go on with the value, or return the error (or panic) at once.\<close>

fun bind_outcome :: "('a, 'e) outcome \<Rightarrow> ('a \<Rightarrow> ('b, 'e) outcome) \<Rightarrow> ('b, 'e) outcome" where
  "bind_outcome (Ok x) f = f x"
| "bind_outcome (Err e) f = Err e"
| "bind_outcome (Panic s) f = Panic s"

text \<open>\<open>Result::map_err\<close> and \<open>Result::map\<close>.\<close>

fun map_err :: "('e \<Rightarrow> 'f) \<Rightarrow> ('a, 'e) outcome \<Rightarrow> ('a, 'f) outcome" where
  "map_err f (Ok x) = Ok x"
| "map_err f (Err e) = Err (f e)"
| "map_err f (Panic s) = Panic s"

fun map_ok :: "('a \<Rightarrow> 'b) \<Rightarrow> ('a, 'e) outcome \<Rightarrow> ('b, 'e) outcome" where
  "map_ok f (Ok x) = Ok (f x)"
| "map_ok f (Err e) = Err e"
| "map_ok f (Panic s) = Panic s"

fun panics :: "('a, 'e) outcome \<Rightarrow> bool" where
  "panics (Panic s) = True"
| "panics (Ok x) = False"
| "panics (Err e) = False"

text \<open>A result of a function that cannot panic, from a sum (\<open>Inl\<close> the error).\<close>

fun of_sum :: "'e + 'a \<Rightarrow> ('a, 'e) outcome" where
  "of_sum (Inl e) = Err e"
| "of_sum (Inr x) = Ok x"

text \<open>\<open>std::task::Poll\<close>.\<close>

datatype 'a poll = Ready 'a | Pending

lemma bind_outcome_eq_Ok [outcome_simps]:
  "bind_outcome r f = Ok y \<longleftrightarrow> (\<exists>x. r = Ok x \<and> f x = Ok y)"
  by (cases r) auto

lemma panics_bind [outcome_simps]:
  "panics (bind_outcome r f) \<longleftrightarrow> panics r \<or> (\<exists>x. r = Ok x \<and> panics (f x))"
  by (cases r) auto

lemma bind_outcome_Ok_map [simp]: "bind_outcome r (\<lambda>x. Ok (f x)) = map_ok f r"
  by (cases r) auto

lemma map_ok_eq_Ok [outcome_simps]: "map_ok f r = Ok y \<longleftrightarrow> (\<exists>x. r = Ok x \<and> y = f x)"
  by (cases r) auto

lemma panics_map_err [simp]: "panics (map_err f r) = panics r"
  by (cases r) auto

lemma map_err_eq_Ok [outcome_simps]: "map_err f r = Ok x \<longleftrightarrow> r = Ok x"
  by (cases r) auto

lemma panics_map_ok [simp]: "panics (map_ok f r) = panics r"
  by (cases r) auto

lemma panics_of_sum [simp]: "\<not> panics (of_sum r)"
  by (cases r) auto

lemma of_sum_eq_Ok [outcome_simps]: "of_sum r = Ok x \<longleftrightarrow> r = Inr x"
  by (cases r) auto

section \<open>Slices and indexing\<close>

text \<open>\<open>&xs[a..b]\<close>, \<open>&xs[a..]\<close> and \<open>xs[i]\<close>: out of range they panic.\<close>

definition slice_range :: "nat \<Rightarrow> nat \<Rightarrow> 'a list \<Rightarrow> ('a list, 'e) outcome" where
  "slice_range a b xs =
     (if a \<le> b \<and> b \<le> length xs then Ok (take (b - a) (drop a xs))
      else Panic ''slice index out of range'')"

definition slice_from :: "nat \<Rightarrow> 'a list \<Rightarrow> ('a list, 'e) outcome" where
  "slice_from a xs =
     (if a \<le> length xs then Ok (drop a xs) else Panic ''slice index out of range'')"

definition index_at :: "nat \<Rightarrow> 'a list \<Rightarrow> ('a, 'e) outcome" where
  "index_at i xs = (if i < length xs then Ok (xs ! i) else Panic ''index out of bounds'')"

text \<open>
  \<open>xs[a..a + src.len()].copy_from_slice(src)\<close>: the part of \<open>xs\<close> from \<open>a\<close> on is overwritten by
  \<open>src\<close>, out of range it panics.
\<close>

definition copy_from_slice :: "'a list \<Rightarrow> nat \<Rightarrow> 'a list \<Rightarrow> ('a list, 'e) outcome" where
  "copy_from_slice xs a src =
     (if a + length src \<le> length xs
      then Ok (take a xs @ src @ drop (a + length src) xs)
      else Panic ''slice index out of range'')"

lemma slice_range_Ok [slice_simps]:
  "a \<le> b \<Longrightarrow> b \<le> length xs \<Longrightarrow> slice_range a b xs = Ok (take (b - a) (drop a xs))"
  by (simp add: slice_range_def)

lemma slice_from_Ok [slice_simps]: "a \<le> length xs \<Longrightarrow> slice_from a xs = Ok (drop a xs)"
  by (simp add: slice_from_def)

lemma index_at_Ok [slice_simps]: "i < length xs \<Longrightarrow> index_at i xs = Ok (xs ! i)"
  by (simp add: index_at_def)

lemma copy_from_slice_Ok [slice_simps]:
  "a + length src \<le> length xs \<Longrightarrow>
   copy_from_slice xs a src = Ok (take a xs @ src @ drop (a + length src) xs)"
  by (simp add: copy_from_slice_def)

section \<open>Big-endian bytes of a u64\<close>

text \<open>\<open>u64::to_be_bytes\<close> and \<open>u64::from_be_bytes\<close> (on the eight bytes of an array).\<close>

definition u64_to_be_bytes :: "u64 \<Rightarrow> u8 list" where
  "u64_to_be_bytes n = map (\<lambda>i. ucast (drop_bit (8 * i) n)) [7, 6, 5, 4, 3, 2, 1, 0]"

definition u64_from_be_bytes :: "u8 list \<Rightarrow> u64" where
  "u64_from_be_bytes bs = foldl (\<lambda>acc b. push_bit 8 acc OR ucast b) 0 bs"

lemma length_u64_to_be_bytes [simp]: "length (u64_to_be_bytes n) = 8"
  by (simp add: u64_to_be_bytes_def)

lemma be_byte_step:
  "push_bit 8 (drop_bit (k + 8) n) OR ucast (ucast (drop_bit k n) :: u8) = drop_bit k (n :: u64)"
  by (rule bit_word_eqI) (auto simp: bit_simps not_less dest: bit_imp_le_length)

lemma be_byte_top: "ucast (ucast (drop_bit 56 n) :: u8) = drop_bit 56 (n :: u64)"
  by (rule bit_word_eqI) (auto simp: bit_simps not_less dest: bit_imp_le_length)

lemma u64_be_bytes_roundtrip [simp]: "u64_from_be_bytes (u64_to_be_bytes n) = n"
  using be_byte_step [of 48 n] be_byte_step [of 40 n] be_byte_step [of 32 n]
    be_byte_step [of 24 n] be_byte_step [of 16 n] be_byte_step [of 8 n] be_byte_step [of 0 n]
  by (simp add: u64_from_be_bytes_def u64_to_be_bytes_def be_byte_top)

end
