(* ===== verification/Identifiers.thy ===== *)
theory Identifiers
  imports Prelude
begin

text \<open>
  The random identifiers of \<open>message.rs\<close>: \<open>ConnectionId\<close> and \<open>SubstreamId\<close> are arrays of 32
  bytes.  An array is a byte list here and \<open>cid_ok\<close>, \<open>sid_ok\<close> say that it has 32 of them; every
  operation that makes an identifier is shown to give one of that length.  The random generator
  \<open>OsRng\<close> is an argument: \<open>fill n\<close> are the \<open>n\<close> bytes its next \<open>fill_bytes\<close> writes.
\<close>

definition CONNECTION_ID_LENGTH :: nat where [simp]: "CONNECTION_ID_LENGTH = 32"
definition SUBSTREAM_ID_LENGTH :: nat where [simp]: "SUBSTREAM_ID_LENGTH = 32"
definition NONCE_BYTES_LEN :: nat where [simp]: "NONCE_BYTES_LEN = 8"

definition MIN_CONNECTION_MESSAGE_LEN :: nat where
  [simp]: "MIN_CONNECTION_MESSAGE_LEN = CONNECTION_ID_LENGTH + NONCE_BYTES_LEN"

datatype ConnectionId = ConnectionId (cid_bytes: "u8 list")
datatype SubstreamId = SubstreamId (sid_bytes: "u8 list")

definition cid_ok :: "ConnectionId \<Rightarrow> bool" where
  "cid_ok c \<longleftrightarrow> length (cid_bytes c) = CONNECTION_ID_LENGTH"

definition sid_ok :: "SubstreamId \<Rightarrow> bool" where
  "sid_ok s \<longleftrightarrow> length (sid_bytes s) = SUBSTREAM_ID_LENGTH"

definition ConnectionId_generate :: "(nat \<Rightarrow> u8 list) \<Rightarrow> ConnectionId" where
  "ConnectionId_generate fill = ConnectionId (fill 32)"

definition SubstreamId_generate :: "(nat \<Rightarrow> u8 list) \<Rightarrow> SubstreamId" where
  "SubstreamId_generate fill = SubstreamId (fill 32)"

text \<open>
  \<open>from_bytes\<close> copies the first 32 bytes of its argument into a zeroed array; a shorter argument
  makes the slice panic.
\<close>

definition ConnectionId_from_bytes :: "u8 list \<Rightarrow> (ConnectionId, 'e) outcome" where
  "ConnectionId_from_bytes bytes =
     bind_outcome (slice_range 0 CONNECTION_ID_LENGTH bytes) (\<lambda>src.
     bind_outcome (copy_from_slice (replicate 32 0) 0 src) (\<lambda>arr.
     Ok (ConnectionId arr)))"

definition SubstreamId_from_bytes :: "u8 list \<Rightarrow> (SubstreamId, 'e) outcome" where
  "SubstreamId_from_bytes bytes =
     bind_outcome (slice_range 0 SUBSTREAM_ID_LENGTH bytes) (\<lambda>src.
     bind_outcome (copy_from_slice (replicate 32 0) 0 src) (\<lambda>arr.
     Ok (SubstreamId arr)))"

lemma ConnectionId_from_bytes_Ok [slice_simps]:
  "CONNECTION_ID_LENGTH \<le> length bs \<Longrightarrow>
   ConnectionId_from_bytes bs = Ok (ConnectionId (take CONNECTION_ID_LENGTH bs))"
  by (simp add: ConnectionId_from_bytes_def slice_range_def copy_from_slice_def)

lemma SubstreamId_from_bytes_Ok [slice_simps]:
  "SUBSTREAM_ID_LENGTH \<le> length bs \<Longrightarrow>
   SubstreamId_from_bytes bs = Ok (SubstreamId (take SUBSTREAM_ID_LENGTH bs))"
  by (simp add: SubstreamId_from_bytes_def slice_range_def copy_from_slice_def)

lemma cid_ok_generate: "(\<And>n. length (fill n) = n) \<Longrightarrow> cid_ok (ConnectionId_generate fill)"
  by (simp add: cid_ok_def ConnectionId_generate_def)

lemma sid_ok_generate: "(\<And>n. length (fill n) = n) \<Longrightarrow> sid_ok (SubstreamId_generate fill)"
  by (simp add: sid_ok_def SubstreamId_generate_def)

end
