(* ===== verification/Channels.thy ===== *)
theory Channels
  imports Prelude
begin

text \<open>
  The two kinds of channel the components talk through, as \<open>tokio::sync\<close> documents them.  An
  unbounded channel is a first-in first-out buffer; \<open>send\<close> fails exactly when the receiver is gone,
  \<open>poll_recv\<close> gives the oldest message, or \<open>None\<close> when the buffer is empty and every sender is gone,
  or else is pending.  A oneshot channel carries at most one value.  The locale \<open>fifo\<close> is the
  contract of the first kind the clients rely on.
\<close>

datatype send_error = ChannelClosed

section \<open>Unbounded channels\<close>

record 'a chan =
  buffer :: "'a list"
  rx_open :: bool
  tx_open :: bool

definition unbounded_channel :: "'a chan" where
  "unbounded_channel = \<lparr>buffer = [], rx_open = True, tx_open = True\<rparr>"

definition chan_send :: "'a chan \<Rightarrow> 'a \<Rightarrow> (unit, send_error) outcome \<times> 'a chan" where
  "chan_send c x =
     (if rx_open c then (Ok (), c\<lparr>buffer := buffer c @ [x]\<rparr>) else (Err ChannelClosed, c))"

definition chan_poll_recv :: "'a chan \<Rightarrow> 'a option poll \<times> 'a chan" where
  "chan_poll_recv c =
     (case buffer c of
        x # xs \<Rightarrow> (Ready (Some x), c\<lparr>buffer := xs\<rparr>)
      | [] \<Rightarrow> (if tx_open c then Pending else Ready None, c))"

text \<open>Dropping the receiver: the buffered messages go with it.\<close>

definition chan_drop_rx :: "'a chan \<Rightarrow> 'a chan" where
  "chan_drop_rx c = c\<lparr>buffer := [], rx_open := False\<rparr>"

definition chan_drop_tx :: "'a chan \<Rightarrow> 'a chan" where
  "chan_drop_tx c = c\<lparr>tx_open := False\<rparr>"

text \<open>
  The contract: what is sent on an open channel is received, once, in the order of the sends.
  \<open>send_list\<close> and \<open>recv_list\<close> are the sender's and the receiver's loops of the clients.
\<close>

fun send_list :: "('c \<Rightarrow> 'a \<Rightarrow> (unit, 'e) outcome \<times> 'c) \<Rightarrow> 'c \<Rightarrow> 'a list \<Rightarrow> 'c" where
  "send_list snd_op c [] = c"
| "send_list snd_op c (x # xs) = send_list snd_op (snd (snd_op c x)) xs"

fun recv_list :: "('c \<Rightarrow> 'a option poll \<times> 'c) \<Rightarrow> nat \<Rightarrow> 'c \<Rightarrow> 'a list" where
  "recv_list rcv 0 c = []"
| "recv_list rcv (Suc n) c =
     (case rcv c of (Ready (Some x), c') \<Rightarrow> x # recv_list rcv n c' | _ \<Rightarrow> [])"

locale fifo =
  fixes send_op :: "'c \<Rightarrow> 'a \<Rightarrow> (unit, 'e) outcome \<times> 'c"
    and recv_op :: "'c \<Rightarrow> 'a option poll \<times> 'c"
    and contents :: "'c \<Rightarrow> 'a list"
    and is_open :: "'c \<Rightarrow> bool"
  assumes send_ok: "is_open c \<Longrightarrow> fst (send_op c x) = Ok ()"
    and contents_send: "is_open c \<Longrightarrow> contents (snd (send_op c x)) = contents c @ [x]"
    and open_send: "is_open (snd (send_op c x)) = is_open c"
    and send_closed: "\<not> is_open c \<Longrightarrow> \<exists>e. send_op c x = (Err e, c)"
    and recv_some: "contents c = x # xs \<Longrightarrow>
          fst (recv_op c) = Ready (Some x) \<and> contents (snd (recv_op c)) = xs"
    and recv_none: "contents c = [] \<Longrightarrow> fst (recv_op c) \<noteq> Ready (Some x)"
begin

lemma contents_send_list: "is_open c \<Longrightarrow> contents (send_list send_op c xs) = contents c @ xs"
  by (induction xs arbitrary: c) (simp_all add: contents_send open_send)

lemma recv_list_contents: "recv_list recv_op n c = take n (contents c)"
proof (induction n arbitrary: c)
  case (Suc n)
  show ?case
  proof (cases "contents c")
    case Nil
    then have "\<forall>x. fst (recv_op c) \<noteq> Ready (Some x)" by (simp add: recv_none)
    then show ?thesis using Nil by (auto split: prod.splits poll.splits option.splits)
  next
    case (Cons x xs)
    then obtain c' where "recv_op c = (Ready (Some x), c')" and "contents c' = xs"
      using recv_some [of c x xs] by (cases "recv_op c") auto
    then show ?thesis using Suc Cons by simp
  qed
qed simp

text \<open>First in, first out: the receiver's loop gives back the sender's list.\<close>

lemma sent_is_received:
  "is_open c \<Longrightarrow> contents c = [] \<Longrightarrow> recv_list recv_op (length xs) (send_list send_op c xs) = xs"
  by (simp add: recv_list_contents contents_send_list)

end

interpretation ub: fifo chan_send chan_poll_recv buffer rx_open
  by unfold_locales
    (auto simp: chan_send_def chan_poll_recv_def split: list.splits if_splits)

lemma chan_send_open [simp]:
  "rx_open c \<Longrightarrow> chan_send c x = (Ok (), c\<lparr>buffer := buffer c @ [x]\<rparr>)"
  by (simp add: chan_send_def)

lemma chan_send_closed [simp]: "\<not> rx_open c \<Longrightarrow> chan_send c x = (Err ChannelClosed, c)"
  by (simp add: chan_send_def)

lemma chan_send_flags [simp]:
  "rx_open (snd (chan_send c x)) = rx_open c" "tx_open (snd (chan_send c x)) = tx_open c"
  by (simp_all add: chan_send_def)

lemma chan_poll_recv_Some:
  "chan_poll_recv c = (Ready (Some x), c') \<longleftrightarrow>
   (\<exists>xs. buffer c = x # xs \<and> c' = c\<lparr>buffer := xs\<rparr>)"
  by (auto simp: chan_poll_recv_def split: list.splits if_splits)

section \<open>Oneshot channels\<close>

text \<open>
  The life of a oneshot channel: nothing sent yet, a value sent and not yet received, the value
  received, the sender dropped without sending, the receiver dropped.  The sender is consumed by
  \<open>send\<close>, so it sends at most once.
\<close>

datatype 'a oneshot = Waiting | Sent 'a | Received | TxDropped | RxDropped

text \<open>\<open>Sender::send\<close> gives the value back as the error when the receiver is gone.\<close>

fun oneshot_send :: "'a oneshot \<Rightarrow> 'a \<Rightarrow> (unit, 'a) outcome \<times> 'a oneshot" where
  "oneshot_send Waiting x = (Ok (), Sent x)"
| "oneshot_send s x = (Err x, s)"

text \<open>\<open>Receiver::try_recv\<close>: an error when nothing was sent or the channel is closed.\<close>

datatype try_recv_error = TryEmpty | TryClosed

fun oneshot_try_recv :: "'a oneshot \<Rightarrow> ('a, try_recv_error) outcome \<times> 'a oneshot" where
  "oneshot_try_recv (Sent x) = (Ok x, Received)"
| "oneshot_try_recv Waiting = (Err TryEmpty, Waiting)"
| "oneshot_try_recv s = (Err TryClosed, s)"

text \<open>
  The receiver as a future: pending while the sender lives and has not sent, an error when the
  sender is gone; a receiver that has given its result is not to be polled again.
\<close>

fun oneshot_poll :: "'a oneshot \<Rightarrow> ('a, unit) outcome poll \<times> 'a oneshot" where
  "oneshot_poll (Sent x) = (Ready (Ok x), Received)"
| "oneshot_poll Waiting = (Pending, Waiting)"
| "oneshot_poll TxDropped = (Ready (Err ()), Received)"
| "oneshot_poll Received = (Ready (Panic ''called after complete''), Received)"
| "oneshot_poll RxDropped = (Ready (Panic ''called after complete''), RxDropped)"

fun oneshot_drop_rx :: "'a oneshot \<Rightarrow> 'a oneshot" where
  "oneshot_drop_rx Waiting = RxDropped"
| "oneshot_drop_rx (Sent x) = RxDropped"
| "oneshot_drop_rx s = s"

fun oneshot_drop_tx :: "'a oneshot \<Rightarrow> 'a oneshot" where
  "oneshot_drop_tx Waiting = TxDropped"
| "oneshot_drop_tx s = s"

end
