(* ===== verification/Errors.thy ===== *)
theory Errors
  imports Identifiers Channels
begin

text \<open>
  The crate's error type (\<open>error.rs\<close>), with the source's constructors in the source's order.  The
  payloads that are error values of other crates (multiaddr, tungstenite, multihash, the Nym
  address) have the type \<open>'x\<close>, an argument of the model.  A \<open>String\<close> payload made by
  \<open>e.to_string()\<close> keeps the value \<open>e\<close> it was printed from.  \<open>RecvError\<close> and \<open>Elapsed\<close> of tokio carry
  no data.
\<close>

datatype 'x error =
    Unimplemented
  | FailedToFormatMultiaddr 'x
  | InvalidProtocolForMultiaddr
  | WebsocketStreamError 'x
  | WebsocketStreamReadNone
  | NymMessageError 'x
  | UnexpectedNymMessage
  | UnexpectedSelfAddressResponse
  | UnknownNymMessage
  | InvalidMessageBytes
  | NoConnectionForResponse
  | ConnectionAlreadyEstablished
  | NoneRecipientInConnectionRequest
  | ConnectionIDExists
  | NoConnectionForTransportMessage
  | ConnectionMessageBytesTooShort
  | ConnectionMessageBytesNoRecipient
  | ConnectionMessageBytesNoPeerId
  | InvalidPeerIdBytes 'x
  | InvalidRecipientBytes 'x
  | InvalidRecipientPrefixByte
  | TransportMessageBytesTooShort
  | InvalidNonce
  | InvalidSubstreamMessageBytes
  | InvalidSubstreamMessageType
  | SubstreamIdExists SubstreamId
  | SubstreamIdDoesNotExist SubstreamId
  | OneshotRecvError
  | SubstreamSendError
  | RecvError
  | OutboundSendError send_error
  | InboundSendError send_error
  | ConnectionSendError
  | SendErrorTransportEvent
  | DialTimeout

end
