(* ===== verification/Ordered_Set.thy ===== *)
theory Ordered_Set
  imports Prelude
begin

text \<open>
  \<open>std::collections::BTreeSet\<close> as the queue uses it: the elements in increasing order of the
  element type's \<open>Ord::cmp\<close>.  The operations take the comparison as an argument; the locale
  \<open>cmp_order\<close> holds the laws the standard library asks of an \<open>Ord\<close> implementation, and what the set
  then promises.
\<close>

datatype ordering = Less | Equal | Greater

text \<open>\<open>Ord::cmp\<close> on machine integers.\<close>

definition word_cmp :: "'w::len word \<Rightarrow> 'w word \<Rightarrow> ordering" where
  "word_cmp a b = (if a < b then Less else if a = b then Equal else Greater)"

text \<open>
  \<open>insert\<close> leaves the set as it is, and answers \<open>false\<close>, when an equal element is there; \<open>first\<close> and
  \<open>pop_first\<close> give the least element.
\<close>

fun btree_insert :: "('a \<Rightarrow> 'a \<Rightarrow> ordering) \<Rightarrow> 'a \<Rightarrow> 'a list \<Rightarrow> bool \<times> 'a list" where
  "btree_insert cmp x [] = (True, [x])"
| "btree_insert cmp x (y # ys) =
     (case cmp x y of
        Less \<Rightarrow> (True, x # y # ys)
      | Equal \<Rightarrow> (False, y # ys)
      | Greater \<Rightarrow> (let (b, zs) = btree_insert cmp x ys in (b, y # zs)))"

fun btree_first :: "'a list \<Rightarrow> 'a option" where
  "btree_first [] = None"
| "btree_first (x # xs) = Some x"

fun btree_pop_first :: "'a list \<Rightarrow> 'a option \<times> 'a list" where
  "btree_pop_first [] = (None, [])"
| "btree_pop_first (x # xs) = (Some x, xs)"

locale cmp_order =
  fixes cmp :: "'a \<Rightarrow> 'a \<Rightarrow> ordering"
  assumes cmp_refl: "cmp x x = Equal"
    and cmp_flip: "cmp x y = Greater \<longleftrightarrow> cmp y x = Less"
    and cmp_less_trans: "cmp x y = Less \<Longrightarrow> cmp y z = Less \<Longrightarrow> cmp x z = Less"
    and cmp_equal_cong: "cmp x y = Equal \<Longrightarrow> cmp x z = cmp y z"
begin

abbreviation ordered :: "'a list \<Rightarrow> bool" where
  "ordered xs \<equiv> sorted_wrt (\<lambda>a b. cmp a b = Less) xs"

lemma set_btree_insert:
  "set (snd (btree_insert cmp x xs)) = (if fst (btree_insert cmp x xs) then insert x (set xs) else set xs)"
  by (induction xs) (auto split: ordering.splits prod.splits)

lemma ordered_btree_insert: "ordered xs \<Longrightarrow> ordered (snd (btree_insert cmp x xs))"
proof (induction xs)
  case (Cons y ys)
  have "set (snd (btree_insert cmp x ys)) \<subseteq> insert x (set ys)"
    by (auto simp: set_btree_insert)
  then show ?case
    using Cons cmp_less_trans
    by (auto split: ordering.splits prod.splits simp: cmp_flip [of x y])
qed simp

text \<open>An insertion is refused exactly when an equal element is already there.\<close>

lemma btree_insert_refused:
  "ordered xs \<Longrightarrow> fst (btree_insert cmp x xs) \<longleftrightarrow> (\<forall>y\<in>set xs. cmp x y \<noteq> Equal)"
proof (induction xs)
  case (Cons y ys)
  show ?case
  proof (cases "cmp x y")
    case Less
    then have "\<forall>z\<in>set ys. cmp x z = Less" using Cons.prems cmp_less_trans by auto
    with Less show ?thesis by auto
  next
    case Greater
    with Cons show ?thesis by (auto split: prod.splits)
  qed simp
qed simp

lemma btree_insert_refused_same:
  "\<not> fst (btree_insert cmp x xs) \<Longrightarrow> snd (btree_insert cmp x xs) = xs"
  by (induction xs) (auto split: ordering.splits prod.splits)

lemma btree_first_least:
  "ordered xs \<Longrightarrow> btree_first xs = Some x \<Longrightarrow> y \<in> set xs \<Longrightarrow> y = x \<or> cmp x y = Less"
  by (cases xs) auto

end

end
