(* ===== verification/Messages.thy ===== *)
theory Messages
  imports Errors Ordered_Set
begin

text \<open>
  The wire format of \<open>message.rs\<close>: the messages exchanged over the mixnet, their encoders
  (\<open>to_bytes\<close>) and their decoders (\<open>try_from_bytes\<close>, \<open>parse_message_data\<close>).  The byte forms of a Nym
  \<open>Recipient\<close> and of a libp2p \<open>PeerId\<close> are functions of other crates: they are the fields of the
  record \<open>codecs\<close>, an argument of the definitions that use them, and \<open>codecs_ok\<close> states what those
  crates document.  The locale \<open>codec\<close> is the contract of an encoder and its decoder; it is
  interpreted on the formats of this file.
\<close>

section \<open>Message types\<close>

datatype SubstreamMessageType = OpenRequest | OpenResponse | Close | Data "u8 list"

record SubstreamMessage =
  sm_substream_id :: SubstreamId
  sm_message_type :: SubstreamMessageType

record TransportMessage =
  tm_nonce :: u64
  tm_message :: SubstreamMessage
  tm_id :: ConnectionId

record ('p, 'r) ConnectionMessage =
  cm_peer_id :: 'p
  cm_id :: ConnectionId
  cm_recipient :: "'r option"

datatype ('p, 'r) Message =
    ConnectionRequest "('p, 'r) ConnectionMessage"
  | ConnectionResponse "('p, 'r) ConnectionMessage"
  | TransportMsg TransportMessage

datatype ('p, 'r) InboundMessage = InboundMessage "('p, 'r) Message"

record ('p, 'r) OutboundMessage =
  om_message :: "('p, 'r) Message"
  om_recipient :: 'r

text \<open>The functions of \<open>nym_sphinx\<close> and \<open>libp2p\<close> the format uses.\<close>

record ('p, 'r, 'x) codecs =
  Recipient_LEN :: nat
  Recipient_to_bytes :: "'r \<Rightarrow> u8 list"
  Recipient_try_from_bytes :: "u8 list \<Rightarrow> 'x + 'r"
  PeerId_to_bytes :: "'p \<Rightarrow> u8 list"
  PeerId_from_bytes :: "u8 list \<Rightarrow> 'x + 'p"

definition codecs_ok :: "('p, 'r, 'x) codecs \<Rightarrow> bool" where
  "codecs_ok E \<longleftrightarrow>
     (\<forall>r. length (Recipient_to_bytes E r) = Recipient_LEN E) \<and>
     (\<forall>r. Recipient_try_from_bytes E (Recipient_to_bytes E r) = Inr r) \<and>
     (\<forall>p. PeerId_to_bytes E p \<noteq> []) \<and>
     (\<forall>p. PeerId_from_bytes E (PeerId_to_bytes E p) = Inr p)"

section \<open>Substream messages\<close>

fun SubstreamMessageType_to_u8 :: "SubstreamMessageType \<Rightarrow> u8" where
  "SubstreamMessageType_to_u8 OpenRequest = 0"
| "SubstreamMessageType_to_u8 OpenResponse = 1"
| "SubstreamMessageType_to_u8 Close = 2"
| "SubstreamMessageType_to_u8 (Data _) = 3"

definition new_with_data :: "SubstreamId \<Rightarrow> u8 list \<Rightarrow> SubstreamMessage" where
  "new_with_data sid message = \<lparr>sm_substream_id = sid, sm_message_type = Data message\<rparr>"

definition new_close :: "SubstreamId \<Rightarrow> SubstreamMessage" where
  "new_close sid = \<lparr>sm_substream_id = sid, sm_message_type = Close\<rparr>"

definition SubstreamMessage_to_bytes :: "SubstreamMessage \<Rightarrow> u8 list" where
  "SubstreamMessage_to_bytes m =
     sid_bytes (sm_substream_id m) @ [SubstreamMessageType_to_u8 (sm_message_type m)] @
     (case sm_message_type m of Data message \<Rightarrow> message | _ \<Rightarrow> [])"

definition SubstreamMessage_try_from_bytes ::
    "u8 list \<Rightarrow> (SubstreamMessage, 'x error) outcome" where
  "SubstreamMessage_try_from_bytes bytes =
     (if length bytes < SUBSTREAM_ID_LENGTH + 1 then Err InvalidSubstreamMessageBytes
      else
        bind_outcome (bind_outcome (slice_range 0 SUBSTREAM_ID_LENGTH bytes) SubstreamId_from_bytes)
          (\<lambda>sid.
        bind_outcome (index_at SUBSTREAM_ID_LENGTH bytes) (\<lambda>tag.
        bind_outcome
          (if tag = 0 then Ok OpenRequest
           else if tag = 1 then Ok OpenResponse
           else if tag = 2 then Ok Close
           else if tag = 3 then
             (if length bytes < SUBSTREAM_ID_LENGTH + 2 then Err InvalidSubstreamMessageBytes
              else map_ok Data (slice_from (SUBSTREAM_ID_LENGTH + 1) bytes))
           else Err InvalidSubstreamMessageType) (\<lambda>ty.
        Ok \<lparr>sm_substream_id = sid, sm_message_type = ty\<rparr>))))"

section \<open>Transport messages\<close>

definition TransportMessage_to_bytes :: "TransportMessage \<Rightarrow> u8 list" where
  "TransportMessage_to_bytes m =
     u64_to_be_bytes (tm_nonce m) @ cid_bytes (tm_id m) @ SubstreamMessage_to_bytes (tm_message m)"

definition TransportMessage_try_from_bytes ::
    "u8 list \<Rightarrow> (TransportMessage, 'x error) outcome" where
  "TransportMessage_try_from_bytes bytes =
     (if length bytes < MIN_CONNECTION_MESSAGE_LEN + 1 then Err TransportMessageBytesTooShort
      else
        bind_outcome (slice_range 0 NONCE_BYTES_LEN bytes) (\<lambda>nb.
        bind_outcome (if length nb = 8 then Ok (u64_from_be_bytes nb) else Err InvalidNonce)
          (\<lambda>nonce.
        bind_outcome (bind_outcome (slice_range NONCE_BYTES_LEN MIN_CONNECTION_MESSAGE_LEN bytes)
                        ConnectionId_from_bytes) (\<lambda>cid.
        bind_outcome (bind_outcome (slice_from MIN_CONNECTION_MESSAGE_LEN bytes)
                        SubstreamMessage_try_from_bytes) (\<lambda>message.
        Ok \<lparr>tm_nonce = nonce, tm_message = message, tm_id = cid\<rparr>)))))"

text \<open>
  Transport messages are compared by their nonces alone: \<open>cmp\<close> is the one of the nonces, and \<open>==\<close> is
  equality of the nonces.
\<close>

definition TransportMessage_cmp :: "TransportMessage \<Rightarrow> TransportMessage \<Rightarrow> ordering" where
  "TransportMessage_cmp a b = word_cmp (tm_nonce a) (tm_nonce b)"

definition TransportMessage_partial_cmp ::
    "TransportMessage \<Rightarrow> TransportMessage \<Rightarrow> ordering option" where
  "TransportMessage_partial_cmp a b = Some (TransportMessage_cmp a b)"

definition TransportMessage_eq :: "TransportMessage \<Rightarrow> TransportMessage \<Rightarrow> bool" where
  "TransportMessage_eq a b \<longleftrightarrow> tm_nonce a = tm_nonce b"

interpretation tm_order: cmp_order TransportMessage_cmp
  by unfold_locales
    (auto simp: TransportMessage_cmp_def word_cmp_def split: if_splits)

section \<open>Connection messages\<close>

definition ConnectionMessage_to_bytes ::
    "('p, 'r, 'x) codecs \<Rightarrow> ('p, 'r) ConnectionMessage \<Rightarrow> u8 list" where
  "ConnectionMessage_to_bytes E m =
     cid_bytes (cm_id m) @
     (case cm_recipient m of
        Some recipient \<Rightarrow> [1] @ Recipient_to_bytes E recipient
      | None \<Rightarrow> [0]) @
     PeerId_to_bytes E (cm_peer_id m)"

definition ConnectionMessage_try_from_bytes ::
    "('p, 'r, 'x) codecs \<Rightarrow> u8 list \<Rightarrow> (('p, 'r) ConnectionMessage, 'x error) outcome" where
  "ConnectionMessage_try_from_bytes E bytes =
     (if length bytes < CONNECTION_ID_LENGTH + 1 then Err ConnectionMessageBytesTooShort
      else
        bind_outcome (bind_outcome (slice_range 0 CONNECTION_ID_LENGTH bytes)
                        ConnectionId_from_bytes) (\<lambda>cid.
        bind_outcome (index_at CONNECTION_ID_LENGTH bytes) (\<lambda>prefix_byte.
        bind_outcome
          (if prefix_byte = 0 then Ok None
           else if prefix_byte = 1 then
             (if length bytes < CONNECTION_ID_LENGTH + 1 + Recipient_LEN E
              then Err ConnectionMessageBytesNoRecipient
              else
                bind_outcome (slice_range (CONNECTION_ID_LENGTH + 1)
                                (CONNECTION_ID_LENGTH + 1 + Recipient_LEN E) bytes) (\<lambda>src.
                bind_outcome (copy_from_slice (replicate (Recipient_LEN E) 0) 0 src)
                  (\<lambda>recipient_bytes.
                map_ok Some (map_err InvalidRecipientBytes
                  (of_sum (Recipient_try_from_bytes E recipient_bytes))))))
           else Err InvalidRecipientPrefixByte) (\<lambda>recipient.
        bind_outcome
          (case recipient of
             Some _ \<Rightarrow>
               (if length bytes < CONNECTION_ID_LENGTH + Recipient_LEN E + 2
                then Err ConnectionMessageBytesNoPeerId
                else bind_outcome (slice_from (CONNECTION_ID_LENGTH + 1 + Recipient_LEN E) bytes)
                       (\<lambda>b. map_err InvalidPeerIdBytes (of_sum (PeerId_from_bytes E b))))
           | None \<Rightarrow>
               (if length bytes < CONNECTION_ID_LENGTH + 2
                then Err ConnectionMessageBytesNoPeerId
                else bind_outcome (slice_from (CONNECTION_ID_LENGTH + 1) bytes)
                       (\<lambda>b. map_err InvalidPeerIdBytes (of_sum (PeerId_from_bytes E b)))))
          (\<lambda>peer_id.
        Ok \<lparr>cm_peer_id = peer_id, cm_id = cid, cm_recipient = recipient\<rparr>)))))"

section \<open>Messages\<close>

fun Message_to_bytes :: "('p, 'r, 'x) codecs \<Rightarrow> ('p, 'r) Message \<Rightarrow> u8 list" where
  "Message_to_bytes E (ConnectionRequest msg) = [0] @ ConnectionMessage_to_bytes E msg"
| "Message_to_bytes E (ConnectionResponse msg) = [1] @ ConnectionMessage_to_bytes E msg"
| "Message_to_bytes E (TransportMsg msg) = [2] @ TransportMessage_to_bytes msg"

definition Message_try_from_bytes ::
    "('p, 'r, 'x) codecs \<Rightarrow> u8 list \<Rightarrow> (('p, 'r) Message, 'x error) outcome" where
  "Message_try_from_bytes E bytes =
     (if length bytes < 2 then Err InvalidMessageBytes
      else
        bind_outcome (index_at 0 bytes) (\<lambda>tag.
        if tag = 0 then
          bind_outcome (slice_from 1 bytes) (\<lambda>b.
            map_ok ConnectionRequest (ConnectionMessage_try_from_bytes E b))
        else if tag = 1 then
          bind_outcome (slice_from 1 bytes) (\<lambda>b.
            map_ok ConnectionResponse (ConnectionMessage_try_from_bytes E b))
        else if tag = 2 then
          bind_outcome (slice_from 1 bytes) (\<lambda>b.
            map_ok TransportMsg (TransportMessage_try_from_bytes b))
        else Err InvalidMessageBytes))"

definition parse_message_data ::
    "('p, 'r, 'x) codecs \<Rightarrow> u8 list \<Rightarrow> (('p, 'r) InboundMessage, 'x error) outcome" where
  "parse_message_data E data =
     (if length data < 2 then Err InvalidMessageBytes
      else map_ok InboundMessage (Message_try_from_bytes E data))"

section \<open>Decoding by the shape of the input\<close>

text \<open>
  Each decoder, on an input cut at the borders of its fields: the range checks are gone and the
  error of every branch is plain to see.
\<close>

lemma split_at_byte:
  assumes "n < length bs"
  obtains i t rest where "bs = i @ t # rest" and "length i = n"
  using that [of "take n bs" "bs ! n" "drop (Suc n) bs"] assms
  by (simp add: id_take_nth_drop [symmetric])

lemma SubstreamMessage_dec_short:
  "length bs \<le> 32 \<Longrightarrow> SubstreamMessage_try_from_bytes bs = Err InvalidSubstreamMessageBytes"
  by (simp add: SubstreamMessage_try_from_bytes_def)

lemma SubstreamMessage_dec_shape:
  "length i = 32 \<Longrightarrow>
   SubstreamMessage_try_from_bytes (i @ t # rest) =
     (if t = 0 then Ok \<lparr>sm_substream_id = SubstreamId i, sm_message_type = OpenRequest\<rparr>
      else if t = 1 then Ok \<lparr>sm_substream_id = SubstreamId i, sm_message_type = OpenResponse\<rparr>
      else if t = 2 then Ok \<lparr>sm_substream_id = SubstreamId i, sm_message_type = Close\<rparr>
      else if t = 3 then
        (if rest = [] then Err InvalidSubstreamMessageBytes
         else Ok \<lparr>sm_substream_id = SubstreamId i, sm_message_type = Data rest\<rparr>)
      else Err InvalidSubstreamMessageType)"
  by (auto simp: SubstreamMessage_try_from_bytes_def slice_simps nth_append)

lemma TransportMessage_dec_short:
  "length bs \<le> 40 \<Longrightarrow> TransportMessage_try_from_bytes bs = Err TransportMessageBytesTooShort"
  by (simp add: TransportMessage_try_from_bytes_def)

lemma TransportMessage_dec_shape:
  "length nb = 8 \<Longrightarrow> length i = 32 \<Longrightarrow> rest \<noteq> [] \<Longrightarrow>
   TransportMessage_try_from_bytes (nb @ i @ rest) =
     map_ok (\<lambda>m. \<lparr>tm_nonce = u64_from_be_bytes nb, tm_message = m, tm_id = ConnectionId i\<rparr>)
       (SubstreamMessage_try_from_bytes rest)"
  by (cases rest) (simp_all add: TransportMessage_try_from_bytes_def slice_simps)

lemma ConnectionMessage_dec_short:
  "length bs \<le> 32 \<Longrightarrow> ConnectionMessage_try_from_bytes E bs = Err ConnectionMessageBytesTooShort"
  by (simp add: ConnectionMessage_try_from_bytes_def)

lemma ConnectionMessage_dec_shape:
  "length i = 32 \<Longrightarrow>
   ConnectionMessage_try_from_bytes E (i @ t # rest) =
     (if t = 0 then
        (if rest = [] then Err ConnectionMessageBytesNoPeerId
         else map_ok (\<lambda>p. \<lparr>cm_peer_id = p, cm_id = ConnectionId i, cm_recipient = None\<rparr>)
                (map_err InvalidPeerIdBytes (of_sum (PeerId_from_bytes E rest))))
      else if t = 1 then
        (if length rest < Recipient_LEN E then Err ConnectionMessageBytesNoRecipient
         else case Recipient_try_from_bytes E (take (Recipient_LEN E) rest) of
           Inl e \<Rightarrow> Err (InvalidRecipientBytes e)
         | Inr r \<Rightarrow>
             (if length rest = Recipient_LEN E then Err ConnectionMessageBytesNoPeerId
              else map_ok (\<lambda>p. \<lparr>cm_peer_id = p, cm_id = ConnectionId i, cm_recipient = Some r\<rparr>)
                     (map_err InvalidPeerIdBytes
                       (of_sum (PeerId_from_bytes E (drop (Recipient_LEN E) rest))))))
      else Err InvalidRecipientPrefixByte)"
  by (auto simp: ConnectionMessage_try_from_bytes_def slice_simps nth_append
      split: sum.splits)

section \<open>The contract of a wire format\<close>

text \<open>
  \<open>valid\<close> are the values the format carries: the decoder gives back every valid value from its
  bytes, gives only valid values, and never panics, whatever the bytes are.
\<close>

locale codec =
  fixes enc :: "'a \<Rightarrow> u8 list"
    and dec :: "u8 list \<Rightarrow> ('a, 'e) outcome"
    and valid :: "'a \<Rightarrow> bool"
  assumes dec_enc: "valid m \<Longrightarrow> dec (enc m) = Ok m"
    and dec_valid: "dec bs = Ok m \<Longrightarrow> valid m"
    and dec_safe: "\<not> panics (dec bs)"
begin

lemma enc_inj: "valid a \<Longrightarrow> valid b \<Longrightarrow> enc a = enc b \<Longrightarrow> a = b"
  by (metis dec_enc outcome.inject(1))

lemma valid_iff: "dec (enc m) = Ok m \<longleftrightarrow> valid m"
  using dec_enc dec_valid by blast

lemma dec_normal: "dec bs = Ok m \<Longrightarrow> dec (enc m) = Ok m"
  by (simp add: dec_valid dec_enc)

lemma dec_total: "(\<exists>m. dec bs = Ok m \<and> valid m) \<or> (\<exists>e. dec bs = Err e)"
  using dec_valid dec_safe [of bs] by (cases "dec bs") auto

end

text \<open>
  A substream message is valid when its identifier has 32 bytes and it is not a data message
  without data.
\<close>

definition SubstreamMessage_valid :: "SubstreamMessage \<Rightarrow> bool" where
  "SubstreamMessage_valid m \<longleftrightarrow> sid_ok (sm_substream_id m) \<and> sm_message_type m \<noteq> Data []"

definition TransportMessage_valid :: "TransportMessage \<Rightarrow> bool" where
  "TransportMessage_valid m \<longleftrightarrow> cid_ok (tm_id m) \<and> SubstreamMessage_valid (tm_message m)"

definition ConnectionMessage_valid :: "('p, 'r) ConnectionMessage \<Rightarrow> bool" where
  "ConnectionMessage_valid m \<longleftrightarrow> cid_ok (cm_id m)"

fun Message_valid :: "('p, 'r) Message \<Rightarrow> bool" where
  "Message_valid (ConnectionRequest m) = ConnectionMessage_valid m"
| "Message_valid (ConnectionResponse m) = ConnectionMessage_valid m"
| "Message_valid (TransportMsg m) = TransportMessage_valid m"

lemma SubstreamMessage_dec_enc:
  assumes "sid_ok (sm_substream_id m)"
  shows "SubstreamMessage_try_from_bytes (SubstreamMessage_to_bytes m) =
    (if sm_message_type m = Data [] then Err InvalidSubstreamMessageBytes else Ok m)"
proof -
  obtain i ty where m: "m = \<lparr>sm_substream_id = SubstreamId i, sm_message_type = ty\<rparr>"
    by (cases m, cases "sm_substream_id m") auto
  with assms have "length i = 32" by (simp add: sid_ok_def)
  with m show ?thesis
    by (cases ty) (simp_all add: SubstreamMessage_to_bytes_def SubstreamMessage_dec_shape)
qed

lemma SubstreamMessage_dec_cases:
  obtains "length bs \<le> 32" | i t rest where "bs = i @ t # rest" "length i = 32"
  by (metis not_le_imp_less split_at_byte)

lemma SubstreamMessage_dec_valid:
  "SubstreamMessage_try_from_bytes bs = Ok m \<Longrightarrow> SubstreamMessage_valid m"
  by (cases rule: SubstreamMessage_dec_cases [of bs])
    (auto simp: SubstreamMessage_dec_short SubstreamMessage_dec_shape SubstreamMessage_valid_def
      sid_ok_def split: if_splits)

lemma SubstreamMessage_dec_safe: "\<not> panics (SubstreamMessage_try_from_bytes bs)"
  by (cases rule: SubstreamMessage_dec_cases [of bs])
    (simp_all add: SubstreamMessage_dec_short SubstreamMessage_dec_shape)

interpretation sm_codec: codec SubstreamMessage_to_bytes SubstreamMessage_try_from_bytes
  SubstreamMessage_valid
  by unfold_locales
    (auto simp: SubstreamMessage_dec_enc SubstreamMessage_dec_safe SubstreamMessage_valid_def
      dest: SubstreamMessage_dec_valid)

lemma TransportMessage_dec_cases:
  obtains "length bs \<le> 40"
    | nb i rest where "bs = nb @ i @ rest" "length nb = 8" "length i = 32" "rest \<noteq> []"
proof (cases "length bs \<le> 40")
  case False
  have "take 32 (drop 8 bs) @ drop 40 bs = drop 8 bs"
    using append_take_drop_id [of 32 "drop 8 bs"] by simp
  then have "bs = take 8 bs @ take 32 (drop 8 bs) @ drop 40 bs" by simp
  with False that(2) [of "take 8 bs" "take 32 (drop 8 bs)" "drop 40 bs"] show thesis by simp
qed (use that in simp)

lemma SubstreamMessage_to_bytes_nonempty [simp]: "SubstreamMessage_to_bytes m \<noteq> []"
  by (simp add: SubstreamMessage_to_bytes_def)

lemma TransportMessage_dec_enc:
  "TransportMessage_valid m \<Longrightarrow> TransportMessage_try_from_bytes (TransportMessage_to_bytes m) = Ok m"
  by (cases "tm_id m")
    (simp add: TransportMessage_to_bytes_def TransportMessage_dec_shape TransportMessage_valid_def
      cid_ok_def sm_codec.dec_enc)

lemma TransportMessage_dec_valid:
  "TransportMessage_try_from_bytes bs = Ok m \<Longrightarrow> TransportMessage_valid m"
  by (cases rule: TransportMessage_dec_cases [of bs])
    (auto simp: TransportMessage_dec_short TransportMessage_dec_shape TransportMessage_valid_def
      cid_ok_def outcome_simps dest: sm_codec.dec_valid)

lemma TransportMessage_dec_safe: "\<not> panics (TransportMessage_try_from_bytes bs)"
  by (cases rule: TransportMessage_dec_cases [of bs])
    (simp_all add: TransportMessage_dec_short TransportMessage_dec_shape sm_codec.dec_safe)

interpretation tm_codec: codec TransportMessage_to_bytes TransportMessage_try_from_bytes
  TransportMessage_valid
  by unfold_locales
    (auto simp: TransportMessage_dec_enc TransportMessage_dec_safe
      dest: TransportMessage_dec_valid)

lemma ConnectionMessage_dec_valid:
  "ConnectionMessage_try_from_bytes E bs = Ok m \<Longrightarrow> ConnectionMessage_valid m"
  by (cases rule: SubstreamMessage_dec_cases [of bs])
    (auto simp: ConnectionMessage_dec_short ConnectionMessage_dec_shape ConnectionMessage_valid_def
      cid_ok_def outcome_simps split: if_splits sum.splits)

lemma ConnectionMessage_dec_safe: "\<not> panics (ConnectionMessage_try_from_bytes E bs)"
  by (cases rule: SubstreamMessage_dec_cases [of bs])
    (simp_all add: ConnectionMessage_dec_short ConnectionMessage_dec_shape split: sum.splits)

lemma ConnectionMessage_dec_enc:
  assumes "codecs_ok E" and "ConnectionMessage_valid m"
  shows "ConnectionMessage_try_from_bytes E (ConnectionMessage_to_bytes E m) = Ok m"
  using assms
  by (cases "cm_id m"; cases "cm_recipient m")
    (simp_all add: ConnectionMessage_to_bytes_def ConnectionMessage_dec_shape codecs_ok_def
      ConnectionMessage_valid_def cid_ok_def)

lemma Message_dec_shape:
  "Message_try_from_bytes E (t # rest) =
     (if rest = [] then Err InvalidMessageBytes
      else if t = 0 then map_ok ConnectionRequest (ConnectionMessage_try_from_bytes E rest)
      else if t = 1 then map_ok ConnectionResponse (ConnectionMessage_try_from_bytes E rest)
      else if t = 2 then map_ok TransportMsg (TransportMessage_try_from_bytes rest)
      else Err InvalidMessageBytes)"
  by (cases rest) (simp_all add: Message_try_from_bytes_def slice_simps)

lemma Message_dec_Nil: "Message_try_from_bytes E [] = Err InvalidMessageBytes"
  by (simp add: Message_try_from_bytes_def)

lemma Message_dec_valid: "Message_try_from_bytes E bs = Ok m \<Longrightarrow> Message_valid m"
  by (cases bs)
    (auto simp: Message_dec_Nil Message_dec_shape outcome_simps split: if_splits
      dest: ConnectionMessage_dec_valid TransportMessage_dec_valid)

lemma Message_dec_safe: "\<not> panics (Message_try_from_bytes E bs)"
  by (cases bs)
    (simp_all add: Message_dec_Nil Message_dec_shape ConnectionMessage_dec_safe
      TransportMessage_dec_safe)

lemma to_bytes_nonempty [simp]:
  "ConnectionMessage_to_bytes E c \<noteq> []" "TransportMessage_to_bytes m \<noteq> []"
  by (simp_all add: ConnectionMessage_to_bytes_def TransportMessage_to_bytes_def split: option.splits)

lemma Message_dec_enc:
  "codecs_ok E \<Longrightarrow> Message_valid m \<Longrightarrow> Message_try_from_bytes E (Message_to_bytes E m) = Ok m"
  by (cases m) (simp_all add: Message_dec_shape ConnectionMessage_dec_enc TransportMessage_dec_enc)

lemma Message_codec:
  "codecs_ok E \<Longrightarrow> codec (Message_to_bytes E) (Message_try_from_bytes E) Message_valid"
  by unfold_locales (auto simp: Message_dec_enc Message_dec_safe dest: Message_dec_valid)

lemma parse_message_data_eq:
  "parse_message_data E bs = map_ok InboundMessage (Message_try_from_bytes E bs)"
  by (simp add: parse_message_data_def Message_try_from_bytes_def)

section \<open>Properties\<close>

text \<open>
  Instances of the two address formats for the closed examples: a recipient is one byte, a peer
  identifier a non-empty byte string.
\<close>

definition demo_codecs :: "(u8, u8, unit) codecs" where
  "demo_codecs =
     \<lparr>Recipient_LEN = 1, Recipient_to_bytes = (\<lambda>r. [r]),
      Recipient_try_from_bytes = (\<lambda>b. if length b = 1 then Inr (hd b) else Inl ()),
      PeerId_to_bytes = (\<lambda>p. [p]),
      PeerId_from_bytes = (\<lambda>b. if length b = 1 then Inr (hd b) else Inl ())\<rparr>"

lemma demo_codecs_ok: "codecs_ok demo_codecs"
  by (simp add: codecs_ok_def demo_codecs_def)

definition demo_cid :: ConnectionId where "demo_cid = ConnectionId (replicate 32 7)"
definition demo_sid :: SubstreamId where "demo_sid = SubstreamId (replicate 32 9)"

definition demo_data_message :: "u64 \<Rightarrow> u8 list \<Rightarrow> TransportMessage" where
  "demo_data_message n d = \<lparr>tm_nonce = n, tm_message = new_with_data demo_sid d, tm_id = demo_cid\<rparr>"

text \<open>
  (C15) Round trip of the wire format: a message whose identifiers are arrays of 32 bytes and that is
  not an empty data message is read back by \<open>parse_message_data\<close> from the bytes \<open>to_bytes\<close> wrote,
  whatever its kind, given the documented round trips of the recipient and the peer identifier.
\<close>

theorem message_roundtrip:
  assumes "codecs_ok E" and "Message_valid m"
  shows "parse_message_data E (Message_to_bytes E m) = Ok (InboundMessage m)"
  by (simp add: parse_message_data_eq Message_dec_enc assms)

theorem message_roundtrip_witness:
  "parse_message_data demo_codecs
     (Message_to_bytes demo_codecs
       (ConnectionRequest \<lparr>cm_peer_id = 5, cm_id = demo_cid, cm_recipient = Some 3\<rparr>)) =
   Ok (InboundMessage
        (ConnectionRequest \<lparr>cm_peer_id = 5, cm_id = demo_cid, cm_recipient = Some 3\<rparr>))"
  by (rule message_roundtrip [OF demo_codecs_ok])
    (simp add: ConnectionMessage_valid_def cid_ok_def demo_cid_def)

text \<open>
  (C22) \<open>parse_message_data\<close> is total on untrusted input: whatever bytes come from the mixnet, none of
  its slices and indexings is out of range, so it does not panic; it returns an error or a message
  whose identifiers have 32 bytes and whose data, if it is a data message, is not empty.
\<close>

theorem parse_message_data_total:
  "(\<exists>m. parse_message_data E bs = Ok (InboundMessage m) \<and> Message_valid m) \<or>
   (\<exists>e. parse_message_data E bs = Err e)"
  using Message_dec_safe [of E bs] Message_dec_valid [of E bs]
  by (cases "Message_try_from_bytes E bs") (auto simp: parse_message_data_eq)

text \<open>
  The encoding is injective: two valid messages with the same bytes are the same message, so
  a message of one kind is never taken for one of another kind.
\<close>

lemma message_bytes_injective:
  assumes "codecs_ok E" and "Message_valid a" and "Message_valid b"
    and "Message_to_bytes E a = Message_to_bytes E b"
  shows "a = b"
  using codec.enc_inj [OF Message_codec [OF assms(1)]] assms(2-4) by blast

text \<open>
  Exactly the empty data messages do not survive the wire: a transport message with well-formed
  identifiers is decoded to itself unless its payload is \<open>Data\<close> of no bytes, and then the decoder
  answers \<open>InvalidSubstreamMessageBytes\<close>.
\<close>

lemma transport_message_dec_enc_iff:
  assumes "cid_ok (tm_id m)" and "sid_ok (sm_substream_id (tm_message m))"
  shows "TransportMessage_try_from_bytes (TransportMessage_to_bytes m) =
    (if sm_message_type (tm_message m) = Data [] then Err InvalidSubstreamMessageBytes else Ok m)"
  using assms
  by (cases "tm_id m")
    (simp add: TransportMessage_to_bytes_def TransportMessage_dec_shape SubstreamMessage_dec_enc
      cid_ok_def)

text \<open>
  What a successful decode of a substream message has read: its canonical bytes, followed, for
  an open or close message only, by bytes that are ignored.
\<close>

lemma substream_message_dec_prefix:
  assumes "SubstreamMessage_try_from_bytes bs = Ok m"
  shows "\<exists>rest. bs = SubstreamMessage_to_bytes m @ rest \<and>
    (\<forall>d. sm_message_type m = Data d \<longrightarrow> rest = [])"
  using assms
  by (cases rule: SubstreamMessage_dec_cases [of bs])
    (auto simp: SubstreamMessage_dec_short SubstreamMessage_dec_shape SubstreamMessage_to_bytes_def
      split: if_splits)

end
