(* ===== verification/Network.thy ===== *)
theory Network
  imports Messages
begin

text \<open>
  What the parts of one node share: the tokio channels whose two ends are held by different
  structs, and the \<open>AtomicU64\<close> of a connection that its substreams also hold.  A struct holds the
  address of such a cell, the record \<open>net\<close> holds the cells.  The mixnet's outbound channel is the
  same for a transport, all its connections and all their substreams (clones of one sender), so it
  is one field.  \<open>fresh\<close> is the next unused address, \<open>woken\<close> the log of the wakers called.
\<close>

type_synonym addr = nat

record ('p, 'r) net =
  outbound :: "('p, 'r) OutboundMessage chan"
  conn_chans :: "addr \<rightharpoonup> SubstreamMessage chan"
  data_chans :: "addr \<rightharpoonup> u8 list chan"
  close_shots :: "addr \<rightharpoonup> unit oneshot"
  nonces :: "addr \<rightharpoonup> u64"
  fresh :: addr
  woken :: "nat list"

text \<open>No cell but the open outbound channel.\<close>

definition net_new :: "('p, 'r) net" where
  "net_new =
     \<lparr>outbound = unbounded_channel, conn_chans = Map.empty, data_chans = Map.empty,
      close_shots = Map.empty, nonces = Map.empty, fresh = 0, woken = []\<rparr>"

section \<open>Operations on the shared cells\<close>

text \<open>
  \<open>UnboundedSender::send\<close> and \<open>UnboundedReceiver::poll_recv\<close> on a cell of a family of channels, and
  \<open>send\<close>, \<open>try_recv\<close> on a cell of oneshot channels.  An address without a cell behaves as a closed
  channel.
\<close>

definition cell_send ::
    "(addr \<rightharpoonup> 'a chan) \<Rightarrow> addr \<Rightarrow> 'a \<Rightarrow> (unit, send_error) outcome \<times> (addr \<rightharpoonup> 'a chan)" where
  "cell_send m a x =
     (case m a of
        None \<Rightarrow> (Err ChannelClosed, m)
      | Some c \<Rightarrow> (let (r, c') = chan_send c x in (r, m(a \<mapsto> c'))))"

definition cell_poll_recv ::
    "(addr \<rightharpoonup> 'a chan) \<Rightarrow> addr \<Rightarrow> 'a option poll \<times> (addr \<rightharpoonup> 'a chan)" where
  "cell_poll_recv m a =
     (case m a of
        None \<Rightarrow> (Ready None, m)
      | Some c \<Rightarrow> (let (r, c') = chan_poll_recv c in (r, m(a \<mapsto> c'))))"

definition send_outbound ::
    "('p, 'r, 'z) net_scheme \<Rightarrow> ('p, 'r) OutboundMessage \<Rightarrow>
     (unit, send_error) outcome \<times> ('p, 'r, 'z) net_scheme" where
  "send_outbound w msg = (let (r, c) = chan_send (outbound w) msg in (r, w\<lparr>outbound := c\<rparr>))"

definition send_conn ::
    "('p, 'r, 'z) net_scheme \<Rightarrow> addr \<Rightarrow> SubstreamMessage \<Rightarrow>
     (unit, send_error) outcome \<times> ('p, 'r, 'z) net_scheme" where
  "send_conn w a x = (let (r, m) = cell_send (conn_chans w) a x in (r, w\<lparr>conn_chans := m\<rparr>))"

definition poll_recv_conn ::
    "('p, 'r, 'z) net_scheme \<Rightarrow> addr \<Rightarrow>
     SubstreamMessage option poll \<times> ('p, 'r, 'z) net_scheme" where
  "poll_recv_conn w a = (let (r, m) = cell_poll_recv (conn_chans w) a in (r, w\<lparr>conn_chans := m\<rparr>))"

definition send_data ::
    "('p, 'r, 'z) net_scheme \<Rightarrow> addr \<Rightarrow> u8 list \<Rightarrow>
     (unit, send_error) outcome \<times> ('p, 'r, 'z) net_scheme" where
  "send_data w a x = (let (r, m) = cell_send (data_chans w) a x in (r, w\<lparr>data_chans := m\<rparr>))"

definition poll_recv_data ::
    "('p, 'r, 'z) net_scheme \<Rightarrow> addr \<Rightarrow> u8 list option poll \<times> ('p, 'r, 'z) net_scheme" where
  "poll_recv_data w a = (let (r, m) = cell_poll_recv (data_chans w) a in (r, w\<lparr>data_chans := m\<rparr>))"

definition send_close_signal ::
    "('p, 'r, 'z) net_scheme \<Rightarrow> addr \<Rightarrow> (unit, unit) outcome \<times> ('p, 'r, 'z) net_scheme" where
  "send_close_signal w a =
     (case close_shots w a of
        None \<Rightarrow> (Err (), w)
      | Some s \<Rightarrow> (let (r, s') = oneshot_send s () in (r, w\<lparr>close_shots := (close_shots w)(a \<mapsto> s')\<rparr>)))"

definition try_recv_close ::
    "('p, 'r, 'z) net_scheme \<Rightarrow> addr \<Rightarrow>
     (unit, try_recv_error) outcome \<times> ('p, 'r, 'z) net_scheme" where
  "try_recv_close w a =
     (case close_shots w a of
        None \<Rightarrow> (Err TryClosed, w)
      | Some s \<Rightarrow> (let (r, s') = oneshot_try_recv s in (r, w\<lparr>close_shots := (close_shots w)(a \<mapsto> s')\<rparr>)))"

text \<open>\<open>AtomicU64::fetch_add(1)\<close>: the old value; the new one wraps around.\<close>

definition fetch_add_nonce ::
    "('p, 'r, 'z) net_scheme \<Rightarrow> addr \<Rightarrow> u64 \<times> ('p, 'r, 'z) net_scheme" where
  "fetch_add_nonce w a =
     (let n = (case nonces w a of Some n \<Rightarrow> n | None \<Rightarrow> 0)
      in (n, w\<lparr>nonces := (nonces w)(a \<mapsto> n + 1)\<rparr>))"

text \<open>\<open>unbounded_channel()\<close>, \<open>oneshot::channel()\<close> and \<open>Arc::new(AtomicU64::new(n))\<close>: a new cell.\<close>

definition new_conn_chan ::
    "('p, 'r, 'z) net_scheme \<Rightarrow> addr \<times> ('p, 'r, 'z) net_scheme" where
  "new_conn_chan w =
     (fresh w, w\<lparr>conn_chans := (conn_chans w)(fresh w \<mapsto> unbounded_channel), fresh := Suc (fresh w)\<rparr>)"

definition new_data_chan ::
    "('p, 'r, 'z) net_scheme \<Rightarrow> addr \<times> ('p, 'r, 'z) net_scheme" where
  "new_data_chan w =
     (fresh w, w\<lparr>data_chans := (data_chans w)(fresh w \<mapsto> unbounded_channel), fresh := Suc (fresh w)\<rparr>)"

definition new_close_shot ::
    "('p, 'r, 'z) net_scheme \<Rightarrow> addr \<times> ('p, 'r, 'z) net_scheme" where
  "new_close_shot w =
     (fresh w, w\<lparr>close_shots := (close_shots w)(fresh w \<mapsto> Waiting), fresh := Suc (fresh w)\<rparr>)"

definition new_nonce ::
    "('p, 'r, 'z) net_scheme \<Rightarrow> u64 \<Rightarrow> addr \<times> ('p, 'r, 'z) net_scheme" where
  "new_nonce w n =
     (fresh w, w\<lparr>nonces := (nonces w)(fresh w \<mapsto> n), fresh := Suc (fresh w)\<rparr>)"

text \<open>\<open>if let Some(waker) = self.waker.take() { waker.wake() }\<close>.\<close>

definition wake_taken :: "nat option \<Rightarrow> ('p, 'r, 'z) net_scheme \<Rightarrow> ('p, 'r, 'z) net_scheme" where
  "wake_taken wk w = (case wk of None \<Rightarrow> w | Some t \<Rightarrow> w\<lparr>woken := woken w @ [t]\<rparr>)"

text \<open>The outbound transport messages of a connection, in the order they were sent.\<close>

fun transport_of :: "ConnectionId \<Rightarrow> ('p, 'r) OutboundMessage list \<Rightarrow> TransportMessage list" where
  "transport_of cid [] = []"
| "transport_of cid (o' # os) =
     (case om_message o' of
        TransportMsg t \<Rightarrow> if tm_id t = cid then t # transport_of cid os else transport_of cid os
      | _ \<Rightarrow> transport_of cid os)"

lemma transport_of_append [simp]:
  "transport_of cid (xs @ ys) = transport_of cid xs @ transport_of cid ys"
  by (induction xs) (auto split: Message.splits)

section \<open>What an operation on the cells leaves alone\<close>

lemma send_outbound_open [simp]:
  "rx_open (outbound w) \<Longrightarrow>
   send_outbound w m = (Ok (), w\<lparr>outbound := (outbound w)\<lparr>buffer := buffer (outbound w) @ [m]\<rparr>\<rparr>)"
  by (simp add: send_outbound_def)

lemma send_outbound_closed [simp]:
  "\<not> rx_open (outbound w) \<Longrightarrow> send_outbound w m = (Err ChannelClosed, w)"
  by (simp add: send_outbound_def)

lemma try_recv_close_frame [simp]:
  "outbound (snd (try_recv_close w a)) = outbound w"
  "conn_chans (snd (try_recv_close w a)) = conn_chans w"
  "data_chans (snd (try_recv_close w a)) = data_chans w"
  "nonces (snd (try_recv_close w a)) = nonces w"
  "fresh (snd (try_recv_close w a)) = fresh w"
  "woken (snd (try_recv_close w a)) = woken w"
  by (simp_all add: try_recv_close_def split: option.splits prod.splits)

lemma poll_recv_data_frame [simp]:
  "outbound (snd (poll_recv_data w a)) = outbound w"
  "conn_chans (snd (poll_recv_data w a)) = conn_chans w"
  "close_shots (snd (poll_recv_data w a)) = close_shots w"
  "nonces (snd (poll_recv_data w a)) = nonces w"
  "fresh (snd (poll_recv_data w a)) = fresh w"
  by (simp_all add: poll_recv_data_def split: prod.splits)

end
