(* ===== verification/Substreams.thy ===== *)
theory Substreams
  imports Network
begin

text \<open>
  \<open>substream.rs\<close>: a substream of a connection as the application sees it, with its \<open>AsyncRead\<close> and
  \<open>AsyncWrite\<close> operations.  A substream holds the addresses of its inbound channel, of its close
  signal and of the connection's nonce; its outbound sender is the node's outbound channel.
\<close>

record 'r Substream =
  ss_remote_recipient :: 'r
  ss_connection_id :: ConnectionId
  ss_substream_id :: SubstreamId
  inbound_rx :: addr
  close_rx :: addr
  closed :: bool
  unread_data :: "u8 list"
  ss_message_nonce :: addr

text \<open>The \<open>std::io::Error\<close>s of this file, by the place that makes them (the kind is always \<open>Other\<close>).\<close>

datatype io_error =
    StreamClosed
  | PollWriteOutboundError send_error
  | PollCloseOutboundError send_error

definition Substream_new ::
    "'r \<Rightarrow> ConnectionId \<Rightarrow> SubstreamId \<Rightarrow> addr \<Rightarrow> addr \<Rightarrow> addr \<Rightarrow> 'r Substream" where
  "Substream_new recipient cid sid in_rx cl_rx nonce =
     \<lparr>ss_remote_recipient = recipient, ss_connection_id = cid, ss_substream_id = sid,
      inbound_rx = in_rx, close_rx = cl_rx, closed = False, unread_data = [],
      ss_message_nonce = nonce\<rparr>"

definition check_closed ::
    "'r Substream \<Rightarrow> ('p, 'r, 'z) net_scheme \<Rightarrow>
     (unit, io_error) outcome \<times> 'r Substream \<times> ('p, 'r, 'z) net_scheme" where
  "check_closed s w =
     (let (received_closed, w1) = try_recv_close w (close_rx s)
      in if closed s then (Err StreamClosed, s, w1)
         else (case received_closed of
                 Ok _ \<Rightarrow> (Err StreamClosed, s\<lparr>closed := True\<rparr>, w1)
               | _ \<Rightarrow> (Ok (), s, w1)))"

text \<open>
  The two copies of \<open>poll_read\<close>.  First the data left over from before: the count, the buffer and
  what is still left over.
\<close>

definition fill_from_unread ::
    "u8 list \<Rightarrow> u8 list \<Rightarrow> (nat \<times> u8 list \<times> u8 list, io_error) outcome" where
  "fill_from_unread unread buf =
     (if length unread > 0 then
        (let copy_len = min (length unread) (length buf)
         in bind_outcome (slice_range 0 copy_len unread) (\<lambda>src.
            bind_outcome (copy_from_slice buf 0 src) (\<lambda>buf'.
            bind_outcome (slice_from copy_len unread) (\<lambda>rest.
            Ok (copy_len, buf', rest)))))
      else Ok (0, buf, unread))"

text \<open>Then the data that has just arrived: the count returned, the buffer, what is left over.\<close>

definition fill_from_inbound ::
    "nat \<Rightarrow> u8 list \<Rightarrow> u8 list \<Rightarrow> u8 list \<Rightarrow> (nat \<times> u8 list \<times> u8 list, io_error) outcome" where
  "fill_from_inbound filled_len buf unread data =
     (if filled_len = length buf then Ok (filled_len, buf, unread @ data)
      else
        (let remaining_len = length buf - filled_len;
             data_len = length data;
             copied = min remaining_len data_len
         in bind_outcome
              (if remaining_len < data_len
               then map_ok (\<lambda>extra. unread @ extra) (slice_from remaining_len data)
               else Ok unread) (\<lambda>unread'.
            bind_outcome (slice_range 0 copied data) (\<lambda>src.
            bind_outcome (copy_from_slice buf filled_len src) (\<lambda>buf'.
            Ok (copied, buf', unread'))))))"

definition poll_read ::
    "u8 list \<Rightarrow> 'r Substream \<Rightarrow> ('p, 'r, 'z) net_scheme \<Rightarrow>
     (nat, io_error) outcome poll \<times> u8 list \<times> 'r Substream \<times> ('p, 'r, 'z) net_scheme" where
  "poll_read buf s w =
     (case check_closed s w of
        (Err e, s1, w1) \<Rightarrow> (Ready (Err e), buf, s1, w1)
      | (Panic p, s1, w1) \<Rightarrow> (Ready (Panic p), buf, s1, w1)
      | (Ok _, s1, w1) \<Rightarrow>
          (let (inbound_rx_data, w2) = poll_recv_data w1 (inbound_rx s1)
           in case fill_from_unread (unread_data s1) buf of
                Err e \<Rightarrow> (Ready (Err e), buf, s1, w2)
              | Panic p \<Rightarrow> (Ready (Panic p), buf, s1, w2)
              | Ok (filled_len, buf1, unread1) \<Rightarrow>
                  (case inbound_rx_data of
                     Ready (Some data) \<Rightarrow>
                       (case fill_from_inbound filled_len buf1 unread1 data of
                          Err e \<Rightarrow> (Ready (Err e), buf1, s1\<lparr>unread_data := unread1\<rparr>, w2)
                        | Panic p \<Rightarrow> (Ready (Panic p), buf1, s1\<lparr>unread_data := unread1\<rparr>, w2)
                        | Ok (n, buf2, unread2) \<Rightarrow>
                            (Ready (Ok n), buf2, s1\<lparr>unread_data := unread2\<rparr>, w2))
                   | _ \<Rightarrow>
                       (if filled_len > 0
                        then (Ready (Ok filled_len), buf1, s1\<lparr>unread_data := unread1\<rparr>, w2)
                        else (Pending, buf1, s1\<lparr>unread_data := unread1\<rparr>, w2)))))"

definition poll_write ::
    "u8 list \<Rightarrow> 'r Substream \<Rightarrow> ('p, 'r, 'z) net_scheme \<Rightarrow>
     (nat, io_error) outcome poll \<times> 'r Substream \<times> ('p, 'r, 'z) net_scheme" where
  "poll_write buf s w =
     (case check_closed s w of
        (Err e, s1, w1) \<Rightarrow> (Ready (Err e), s1, w1)
      | (Panic p, s1, w1) \<Rightarrow> (Ready (Panic p), s1, w1)
      | (Ok _, s1, w1) \<Rightarrow>
          (let (nonce, w2) = fetch_add_nonce w1 (ss_message_nonce s1);
               (r, w3) = send_outbound w2
                 \<lparr>om_message = TransportMsg
                    \<lparr>tm_nonce = nonce,
                     tm_message = new_with_data (ss_substream_id s1) buf,
                     tm_id = ss_connection_id s1\<rparr>,
                  om_recipient = ss_remote_recipient s1\<rparr>
           in case map_err PollWriteOutboundError r of
                Ok _ \<Rightarrow> (Ready (Ok (length buf)), s1, w3)
              | Err e \<Rightarrow> (Ready (Err e), s1, w3)
              | Panic p \<Rightarrow> (Ready (Panic p), s1, w3)))"

definition poll_flush ::
    "'r Substream \<Rightarrow> ('p, 'r, 'z) net_scheme \<Rightarrow>
     (unit, io_error) outcome poll \<times> 'r Substream \<times> ('p, 'r, 'z) net_scheme" where
  "poll_flush s w =
     (case check_closed s w of
        (Err e, s1, w1) \<Rightarrow> (Ready (Err e), s1, w1)
      | (Panic p, s1, w1) \<Rightarrow> (Ready (Panic p), s1, w1)
      | (Ok _, s1, w1) \<Rightarrow> (Ready (Ok ()), s1, w1))"

definition poll_close ::
    "'r Substream \<Rightarrow> ('p, 'r, 'z) net_scheme \<Rightarrow>
     (unit, io_error) outcome poll \<times> 'r Substream \<times> ('p, 'r, 'z) net_scheme" where
  "poll_close s w =
     (let (nonce, w1) = fetch_add_nonce w (ss_message_nonce s)
      in if closed s then (Ready (Err StreamClosed), s, w1)
         else
           (let s1 = s\<lparr>closed := True\<rparr>;
                (r, w2) = send_outbound w1
                  \<lparr>om_message = TransportMsg
                     \<lparr>tm_nonce = nonce, tm_message = new_close (ss_substream_id s1),
                      tm_id = ss_connection_id s1\<rparr>,
                   om_recipient = ss_remote_recipient s1\<rparr>
            in case map_err PollCloseOutboundError r of
                 Ok _ \<Rightarrow> (Ready (Ok ()), s1, w2)
               | Err e \<Rightarrow> (Ready (Err e), s1, w2)
               | Panic p \<Rightarrow> (Ready (Panic p), s1, w2)))"

text \<open>
  Dropping a substream drops its two receivers: later sends on its inbound channel, and a close
  signal not yet sent, find the receiver gone.
\<close>

definition Substream_drop ::
    "'r Substream \<Rightarrow> ('p, 'r, 'z) net_scheme \<Rightarrow> ('p, 'r, 'z) net_scheme" where
  "Substream_drop s w =
     w\<lparr>data_chans := (data_chans w)(inbound_rx s := map_option chan_drop_rx (data_chans w (inbound_rx s))),
       close_shots := (close_shots w)(close_rx s := map_option oneshot_drop_rx (close_shots w (close_rx s)))\<rparr>"

section \<open>Specification\<close>

text \<open>
  A substream is live while it has not been closed on this side and no close signal waits.  The
  chunk at the head of its inbound channel, and the bytes still to be read: those left over, then
  those in the channel.
\<close>

definition live :: "'r Substream \<Rightarrow> ('p, 'r, 'z) net_scheme \<Rightarrow> bool" where
  "live s w \<longleftrightarrow> \<not> closed s \<and> close_shots w (close_rx s) \<noteq> Some (Sent ())"

definition chunks :: "'r Substream \<Rightarrow> ('p, 'r, 'z) net_scheme \<Rightarrow> u8 list list" where
  "chunks s w = (case data_chans w (inbound_rx s) of None \<Rightarrow> [] | Some c \<Rightarrow> buffer c)"

definition stream_of :: "'r Substream \<Rightarrow> ('p, 'r, 'z) net_scheme \<Rightarrow> u8 list" where
  "stream_of s w = unread_data s @ concat (chunks s w)"

lemma chunks_unread [simp]: "chunks (s\<lparr>unread_data := u\<rparr>) w = chunks s w"
  by (simp add: chunks_def)

lemma check_closed_eq:
  "check_closed s w =
     (if live s w then (Ok (), s, snd (try_recv_close w (close_rx s)))
      else (Err StreamClosed, s\<lparr>closed := True\<rparr>, snd (try_recv_close w (close_rx s))))"
proof (cases "close_shots w (close_rx s)")
  case (Some c)
  then show ?thesis
    by (cases c) (auto simp: check_closed_def live_def try_recv_close_def)
qed (auto simp: check_closed_def live_def try_recv_close_def)

lemma chunks_try_recv_close [simp]: "chunks s (snd (try_recv_close w a)) = chunks s w"
  by (simp add: chunks_def)

lemma poll_recv_data_Some:
  "chunks s w = d # ds \<Longrightarrow>
   fst (poll_recv_data w (inbound_rx s)) = Ready (Some d) \<and>
   chunks s' (snd (poll_recv_data w (inbound_rx s))) = (if inbound_rx s' = inbound_rx s then ds else chunks s' w)"
  by (auto simp: chunks_def poll_recv_data_def cell_poll_recv_def chan_poll_recv_def
      split: option.splits list.splits)

lemma poll_recv_data_None:
  "chunks s w = [] \<Longrightarrow>
   fst (poll_recv_data w (inbound_rx s)) \<in> {Ready None, Pending} \<and>
   chunks s' (snd (poll_recv_data w (inbound_rx s))) = chunks s' w"
  by (auto simp: chunks_def poll_recv_data_def cell_poll_recv_def chan_poll_recv_def
      split: option.splits list.splits)

lemma fill_from_unread_eq:
  "fill_from_unread u buf =
     (let k = min (length u) (length buf) in Ok (k, take k u @ drop k buf, drop k u))"
  by (simp add: fill_from_unread_def slice_simps Let_def)

lemma fill_from_inbound_eq:
  "filled \<le> length buf \<Longrightarrow>
   fill_from_inbound filled buf u d =
     (if filled = length buf then Ok (filled, buf, u @ d)
      else let c = min (length buf - filled) (length d)
           in Ok (c, take filled buf @ take c d @ drop (filled + c) buf, u @ drop c d))"
  by (auto simp: fill_from_inbound_def slice_simps Let_def min_def)

text \<open>The whole of \<open>poll_read\<close> on a live substream, by what there is to read.\<close>

lemma poll_read_no_chunk:
  assumes "live s w" and "chunks s w = []"
  shows "\<exists>w'. poll_read buf s w =
    (let k = min (length (unread_data s)) (length buf)
     in (if k > 0 then Ready (Ok k) else Pending, take k (unread_data s) @ drop k buf,
         s\<lparr>unread_data := drop k (unread_data s)\<rparr>, w')) \<and> chunks s w' = [] \<and>
    outbound w' = outbound w \<and> nonces w' = nonces w"
proof -
  let ?w1 = "snd (try_recv_close w (close_rx s))"
  obtain r w2 where w2: "poll_recv_data ?w1 (inbound_rx s) = (r, w2)" by fastforce
  then have "r \<in> {Ready None, Pending}" "chunks s w2 = []"
    "outbound w2 = outbound w" "nonces w2 = nonces w"
    using poll_recv_data_None [of s ?w1 s] assms(2) poll_recv_data_frame [of ?w1 "inbound_rx s"]
    by auto
  then show ?thesis
    using assms(1) w2 by (auto simp: poll_read_def check_closed_eq fill_from_unread_eq Let_def)
qed

lemma poll_read_chunk:
  assumes "live s w" and "chunks s w = d # ds"
  shows "\<exists>w'. poll_read buf s w =
    (let u = unread_data s; j = min (length u) (length buf);
         c = min (length buf - j) (length d)
     in (Ready (Ok (if j = length buf then j else c)),
         take j u @ take c d @ drop (j + c) buf,
         s\<lparr>unread_data := drop j u @ drop c d\<rparr>, w')) \<and> chunks s w' = ds \<and>
    outbound w' = outbound w \<and> nonces w' = nonces w"
proof -
  let ?w1 = "snd (try_recv_close w (close_rx s))"
  obtain r w2 where w2: "poll_recv_data ?w1 (inbound_rx s) = (r, w2)" by fastforce
  then have r: "r = Ready (Some d)" "chunks s w2 = ds"
    "outbound w2 = outbound w" "nonces w2 = nonces w"
    using poll_recv_data_Some [of s ?w1 d ds s] assms(2) poll_recv_data_frame [of ?w1 "inbound_rx s"]
    by auto
  have "drop (j + c) buf = drop c (drop j buf)" for j c by (simp add: add.commute)
  then show ?thesis
    using assms(1) w2 r
    by (auto simp: poll_read_def check_closed_eq fill_from_unread_eq fill_from_inbound_eq Let_def
        min_def)
qed

lemma poll_read_eq:
  assumes "live s w"
  shows "\<exists>r buf' s' w'. poll_read buf s w = (r, buf', s', w') \<and>
    (let u = length (unread_data s);
         k = min (u + length (concat (take 1 (chunks s w)))) (length buf)
     in length buf' = length buf \<and> drop k buf' = drop k buf \<and>
        take k buf' @ stream_of s' w' = stream_of s w \<and>
        r = (if chunks s w = [] \<and> k = 0 then Pending
             else if chunks s w \<noteq> [] \<and> u < length buf then Ready (Ok (k - u))
             else Ready (Ok k))) \<and>
    closed s' = closed s \<and> outbound w' = outbound w \<and> nonces w' = nonces w"
proof (cases "chunks s w")
  case Nil
  then show ?thesis
    using poll_read_no_chunk [OF assms Nil, of buf]
    by (auto simp: Let_def stream_of_def min_def)
next
  case (Cons d ds)
  show ?thesis
  proof (cases "length (unread_data s) < length buf")
    case True
    then show ?thesis
      using poll_read_chunk [OF assms Cons, of buf] Cons
      by (auto simp: Let_def stream_of_def min_def)
  next
    case False
    then have "min (length (unread_data s)) (length buf) = length buf"
      and "min (length (unread_data s) + length d) (length buf) = length buf"
      by simp_all
    then show ?thesis
      using poll_read_chunk [OF assms Cons, of buf] Cons False
      by (auto simp: Let_def stream_of_def)
  qed
qed

section \<open>Properties\<close>

definition demo_substream :: "u8 Substream" where
  "demo_substream = Substream_new 3 demo_cid demo_sid 0 1 2"

definition demo_net :: "u8 list list \<Rightarrow> (u8, u8) net" where
  "demo_net ds = net_new
     \<lparr>data_chans := [0 \<mapsto> \<lparr>buffer = ds, rx_open = True, tx_open = True\<rparr>],
      close_shots := [1 \<mapsto> Waiting], nonces := [2 \<mapsto> 5]\<rparr>"

lemma demo_live: "live (demo_substream\<lparr>unread_data := u\<rparr>) (demo_net ds)"
  by (simp add: live_def demo_substream_def Substream_new_def demo_net_def)

lemma demo_chunks: "chunks (demo_substream\<lparr>unread_data := u\<rparr>) (demo_net ds) = ds"
  by (simp add: chunks_def demo_substream_def Substream_new_def demo_net_def)

text \<open>
  (C25) \<open>poll_read\<close> on a live substream, all branches: it never panics and never fails; with \<open>k\<close> the
  smaller of the buffer and what is at hand (the left-over bytes and the next chunk), the first \<open>k\<close>
  bytes of the buffer are the next \<open>k\<close> bytes of the stream, the rest of the buffer is untouched and
  the rest of the stream is kept.  It is pending exactly when nothing was copied and no chunk came.
  The count it returns is \<open>k\<close>, except when a chunk came and the left-over bytes did not fill the
  buffer: then the left-over bytes are not counted.
\<close>

theorem poll_read_behaviour:
  assumes "live s w"
  shows "\<exists>r buf' s' w'. poll_read buf s w = (r, buf', s', w') \<and>
    (let u = length (unread_data s);
         k = min (u + length (concat (take 1 (chunks s w)))) (length buf)
     in length buf' = length buf \<and> drop k buf' = drop k buf \<and>
        take k buf' @ stream_of s' w' = stream_of s w \<and>
        r = (if chunks s w = [] \<and> k = 0 then Pending
             else if chunks s w \<noteq> [] \<and> u < length buf then Ready (Ok (k - u))
             else Ready (Ok k)))"
  using poll_read_eq [OF assms, of buf] by blast

theorem poll_read_behaviour_witness:
  "\<exists>r buf' s' w'. poll_read [0, 0] (demo_substream\<lparr>unread_data := []\<rparr>) (demo_net [[7, 8, 9]]) =
      (r, buf', s', w') \<and>
    (let u = length (unread_data (demo_substream\<lparr>unread_data := []\<rparr>));
         k = min (u + length (concat (take 1 (chunks (demo_substream\<lparr>unread_data := []\<rparr>)
                    (demo_net [[7, 8, 9]]))))) (length [0, 0 :: u8])
     in length buf' = length [0, 0 :: u8] \<and> drop k buf' = drop k [0, 0] \<and>
        take k buf' @ stream_of s' w' =
          stream_of (demo_substream\<lparr>unread_data := []\<rparr>) (demo_net [[7, 8, 9]]) \<and>
        r = (if chunks (demo_substream\<lparr>unread_data := []\<rparr>) (demo_net [[7, 8, 9]]) = [] \<and> k = 0
             then Pending
             else if chunks (demo_substream\<lparr>unread_data := []\<rparr>) (demo_net [[7, 8, 9]]) \<noteq> [] \<and>
                     u < length [0, 0 :: u8] then Ready (Ok (k - u))
             else Ready (Ok k)))"
  by (rule poll_read_behaviour [OF demo_live])

text \<open>
  (C31) A reader that trusts the count sees the stream unbroken, when a read finds no left-over bytes,
  or no new chunk, or left-over bytes enough to fill the buffer: what it is given, followed by what
  is still to be read, is what was to be read before.
\<close>

theorem poll_read_keeps_stream:
  assumes "live s w"
    and "unread_data s = [] \<or> chunks s w = [] \<or> length buf \<le> length (unread_data s)"
  shows "case poll_read buf s w of
      (Ready (Ok n), buf', s', w') \<Rightarrow> take n buf' @ stream_of s' w' = stream_of s w
    | (Pending, buf', s', w') \<Rightarrow> stream_of s' w' = stream_of s w \<and> buf' = buf
    | _ \<Rightarrow> False"
  using poll_read_eq [OF assms(1), of buf] assms(2)
  by (auto simp: Let_def split: if_splits)

theorem poll_read_keeps_stream_witness:
  "case poll_read [0, 0] (demo_substream\<lparr>unread_data := []\<rparr>) (demo_net [[7, 8, 9], [4]]) of
      (Ready (Ok n), buf', s', w') \<Rightarrow> take n buf' @ stream_of s' w' =
         stream_of (demo_substream\<lparr>unread_data := []\<rparr>) (demo_net [[7, 8, 9], [4]])
    | (Pending, buf', s', w') \<Rightarrow> stream_of s' w' =
         stream_of (demo_substream\<lparr>unread_data := []\<rparr>) (demo_net [[7, 8, 9], [4]]) \<and> buf' = [0, 0]
    | _ \<Rightarrow> False"
  by (rule poll_read_keeps_stream [OF demo_live]) simp

text \<open>
  In the remaining case bytes are lost: when left-over bytes only partly fill the buffer and a
  non-empty chunk arrives, the count returned leaves out the left-over bytes, so a reader that
  trusts it never gets that many of the bytes of the stream.
\<close>

lemma poll_read_loses_bytes:
  assumes "live s w" and "chunks s w = d # ds" and "d \<noteq> []"
    and "unread_data s \<noteq> []" and "length (unread_data s) < length buf"
  shows "\<exists>n buf' s' w'. poll_read buf s w = (Ready (Ok n), buf', s', w') \<and>
    length (take n buf' @ stream_of s' w') + length (unread_data s) = length (stream_of s w)"
proof -
  obtain r buf' s' w' where e: "poll_read buf s w = (r, buf', s', w')"
    and k: "let u = length (unread_data s); k = min (u + length d) (length buf)
     in length buf' = length buf \<and> take k buf' @ stream_of s' w' = stream_of s w \<and>
        r = Ready (Ok (k - u))"
    using poll_read_eq [OF assms(1), of buf] assms by (auto simp: Let_def)
  then have "length (stream_of s w) =
      min (length (unread_data s) + length d) (length buf) + length (stream_of s' w')"
    by (metis (no_types, lifting) length_append length_take min.cobounded2 min.commute
        min.absorb_iff2)
  with e k assms(5) show ?thesis by (auto simp: Let_def)
qed

text \<open>
  (C30) A closed substream stays closed and silent: reading, writing and flushing answer with the
  error \<open>stream closed\<close>, keep the substream as it is, put nothing on the outbound channel and use up
  no nonce.
\<close>

theorem closed_is_final:
  assumes "closed s"
  shows "\<exists>w'. poll_read buf s w = (Ready (Err StreamClosed), buf, s, w') \<and>
    poll_write buf s w = (Ready (Err StreamClosed), s, w') \<and>
    poll_flush s w = (Ready (Err StreamClosed), s, w') \<and>
    outbound w' = outbound w \<and> nonces w' = nonces w"
  using assms
  by (intro exI [of _ "snd (try_recv_close w (close_rx s))"])
    (auto simp: poll_read_def poll_write_def poll_flush_def check_closed_eq live_def)

theorem closed_is_final_witness:
  "\<exists>w'. poll_read [0] (demo_substream\<lparr>closed := True\<rparr>) (demo_net [[1]]) =
      (Ready (Err StreamClosed), [0], demo_substream\<lparr>closed := True\<rparr>, w') \<and>
    poll_write [0] (demo_substream\<lparr>closed := True\<rparr>) (demo_net [[1]]) =
      (Ready (Err StreamClosed), demo_substream\<lparr>closed := True\<rparr>, w') \<and>
    poll_flush (demo_substream\<lparr>closed := True\<rparr>) (demo_net [[1]]) =
      (Ready (Err StreamClosed), demo_substream\<lparr>closed := True\<rparr>, w') \<and>
    outbound w' = outbound (demo_net [[1]]) \<and> nonces w' = nonces (demo_net [[1]])"
  by (rule closed_is_final) simp

text \<open>
  (C26) A write to a live substream puts exactly one data message on the outbound channel, with the
  connection's current nonce, which is increased by one, and accepts the whole buffer; when the
  channel is closed the write fails and the nonce is used up all the same.
\<close>

theorem poll_write_sends:
  assumes "live s w" and "nonces w (ss_message_nonce s) = Some n"
  shows "\<exists>w'. poll_write buf s w =
      (Ready (if rx_open (outbound w) then Ok (length buf)
              else Err (PollWriteOutboundError ChannelClosed)), s, w') \<and>
    nonces w' = (nonces w)(ss_message_nonce s \<mapsto> n + 1) \<and>
    buffer (outbound w') = buffer (outbound w) @
      (if rx_open (outbound w) then
        [\<lparr>om_message = TransportMsg \<lparr>tm_nonce = n, tm_message = new_with_data (ss_substream_id s) buf,
                                      tm_id = ss_connection_id s\<rparr>,
          om_recipient = ss_remote_recipient s\<rparr>] else [])"
  using assms try_recv_close_frame [of w "close_rx s"]
  by (cases "rx_open (outbound w)") (auto simp: poll_write_def check_closed_eq fetch_add_nonce_def)

theorem poll_write_sends_witness:
  "\<exists>w'. poll_write [1, 2] (demo_substream\<lparr>unread_data := []\<rparr>) (demo_net []) =
      (Ready (if rx_open (outbound (demo_net [])) then Ok (length [1, 2 :: u8])
              else Err (PollWriteOutboundError ChannelClosed)),
       demo_substream\<lparr>unread_data := []\<rparr>, w') \<and>
    nonces w' = (nonces (demo_net []))(ss_message_nonce (demo_substream\<lparr>unread_data := []\<rparr>) \<mapsto> 5 + 1) \<and>
    buffer (outbound w') = buffer (outbound (demo_net [])) @
      (if rx_open (outbound (demo_net [])) then
        [\<lparr>om_message = TransportMsg
            \<lparr>tm_nonce = 5,
             tm_message = new_with_data (ss_substream_id (demo_substream\<lparr>unread_data := []\<rparr>)) [1, 2],
             tm_id = ss_connection_id (demo_substream\<lparr>unread_data := []\<rparr>)\<rparr>,
          om_recipient = ss_remote_recipient (demo_substream\<lparr>unread_data := []\<rparr>)\<rparr>] else [])"
  by (rule poll_write_sends [OF demo_live])
    (simp add: demo_net_def demo_substream_def Substream_new_def)

text \<open>
  (C32) Closing: the first \<open>poll_close\<close> sends one close message with the connection's current nonce
  and marks the substream closed.  On a closed substream it sends nothing and answers with an
  error, but has already taken a nonce: no message of that nonce is ever sent.
\<close>

theorem poll_close_behaviour:
  assumes "nonces w (ss_message_nonce s) = Some n" and "rx_open (outbound w)"
  shows "\<exists>w'. poll_close s w =
      (Ready (if closed s then Err StreamClosed else Ok ()), s\<lparr>closed := True\<rparr>, w') \<and>
    nonces w' = (nonces w)(ss_message_nonce s \<mapsto> n + 1) \<and>
    buffer (outbound w') = buffer (outbound w) @
      (if closed s then [] else
        [\<lparr>om_message = TransportMsg \<lparr>tm_nonce = n, tm_message = new_close (ss_substream_id s),
                                      tm_id = ss_connection_id s\<rparr>,
          om_recipient = ss_remote_recipient s\<rparr>])"
  using assms by (auto simp: poll_close_def fetch_add_nonce_def)

theorem poll_close_behaviour_witness:
  "\<exists>w'. poll_close (demo_substream\<lparr>closed := True\<rparr>) (demo_net []) =
      (Ready (if closed (demo_substream\<lparr>closed := True\<rparr>) then Err StreamClosed else Ok ()),
       demo_substream\<lparr>closed := True, closed := True\<rparr>, w') \<and>
    nonces w' = (nonces (demo_net []))(ss_message_nonce (demo_substream\<lparr>closed := True\<rparr>) \<mapsto> 5 + 1) \<and>
    buffer (outbound w') = buffer (outbound (demo_net [])) @
      (if closed (demo_substream\<lparr>closed := True\<rparr>) then [] else
        [\<lparr>om_message = TransportMsg
            \<lparr>tm_nonce = 5, tm_message = new_close (ss_substream_id (demo_substream\<lparr>closed := True\<rparr>)),
             tm_id = ss_connection_id (demo_substream\<lparr>closed := True\<rparr>)\<rparr>,
          om_recipient = ss_remote_recipient (demo_substream\<lparr>closed := True\<rparr>)\<rparr>])"
  by (rule poll_close_behaviour)
    (simp_all add: demo_net_def net_new_def unbounded_channel_def demo_substream_def Substream_new_def)

end
