(* ===== verification/Connections.thy ===== *)
theory Connections
  imports Substreams
begin

text \<open>
  \<open>connection.rs\<close>: a connection multiplexes substreams over one pair of peers.  It holds, for every
  open substream, the address of the channel its data goes to and of its close signal.  The channels
  whose two ends the connection holds itself (\<open>inbound_open\<close>, \<open>close_chan\<close>) are fields of its record.
  The operations of \<open>StreamMuxer\<close> follow; \<open>conn_handle\<close> is the body of the loop of \<open>poll\<close>.
\<close>

record ('p, 'r) Connection =
  c_peer_id :: 'p
  c_remote_recipient :: 'r
  c_id :: ConnectionId
  c_inbound_rx :: addr
  pending_substreams :: "SubstreamId set"
  substream_inbound_txs :: "SubstreamId \<rightharpoonup> addr"
  substream_close_txs :: "SubstreamId \<rightharpoonup> addr"
  inbound_open :: "'r Substream chan"
  close_chan :: "SubstreamId chan"
  c_message_nonce :: addr
  c_waker :: "nat option"

definition Connection_new ::
    "'p \<Rightarrow> 'r \<Rightarrow> ConnectionId \<Rightarrow> addr \<Rightarrow> ('p, 'r, 'z) net_scheme \<Rightarrow>
     ('p, 'r) Connection \<times> ('p, 'r, 'z) net_scheme" where
  "Connection_new peer recipient cid in_rx w =
     (let (nonce, w1) = new_nonce w 1
      in (\<lparr>c_peer_id = peer, c_remote_recipient = recipient, c_id = cid, c_inbound_rx = in_rx,
           pending_substreams = {}, substream_inbound_txs = Map.empty,
           substream_close_txs = Map.empty, inbound_open = unbounded_channel,
           close_chan = unbounded_channel, c_message_nonce = nonce, c_waker = None\<rparr>, w1))"

definition new_substream ::
    "('p, 'r) Connection \<Rightarrow> SubstreamId \<Rightarrow> ('p, 'r, 'z) net_scheme \<Rightarrow>
     ('r Substream, 'x error) outcome \<times> ('p, 'r) Connection \<times> ('p, 'r, 'z) net_scheme" where
  "new_substream c sid w =
     (if substream_inbound_txs c sid \<noteq> None then (Err (SubstreamIdExists sid), c, w)
      else
        (let (inb, w1) = new_data_chan w;
             (cls, w2) = new_close_shot w1;
             c1 = c\<lparr>substream_inbound_txs := (substream_inbound_txs c)(sid \<mapsto> inb),
                    substream_close_txs := (substream_close_txs c)(sid \<mapsto> cls)\<rparr>;
             w3 = wake_taken (c_waker c1) w2;
             c2 = c1\<lparr>c_waker := None\<rparr>
         in (Ok (Substream_new (c_remote_recipient c2) (c_id c2) sid inb cls (c_message_nonce c2)),
             c2, w3)))"

definition send_substream_control ::
    "('p, 'r) Connection \<Rightarrow> SubstreamId \<Rightarrow> SubstreamMessageType \<Rightarrow> ('p, 'r, 'z) net_scheme \<Rightarrow>
     (unit, 'x error) outcome \<times> ('p, 'r, 'z) net_scheme" where
  "send_substream_control c sid ty w =
     (let (nonce, w1) = fetch_add_nonce w (c_message_nonce c);
          (r, w2) = send_outbound w1
            \<lparr>om_message = TransportMsg
               \<lparr>tm_nonce = nonce,
                tm_message = \<lparr>sm_substream_id = sid, sm_message_type = ty\<rparr>,
                tm_id = c_id c\<rparr>,
             om_recipient = c_remote_recipient c\<rparr>
      in (map_err OutboundSendError r, w2))"

definition new_outbound_substream ::
    "(nat \<Rightarrow> u8 list) \<Rightarrow> ('p, 'r) Connection \<Rightarrow> ('p, 'r, 'z) net_scheme \<Rightarrow>
     ('r Substream, 'x error) outcome \<times> ('p, 'r) Connection \<times> ('p, 'r, 'z) net_scheme" where
  "new_outbound_substream fill c w =
     (let sid = SubstreamId_generate fill
      in case send_substream_control c sid OpenRequest w of
           (Err e, w1) \<Rightarrow> (Err e, c, w1)
         | (Panic p, w1) \<Rightarrow> (Panic p, c, w1)
         | (Ok _, w1) \<Rightarrow>
             (case new_substream c sid w1 of
                (Ok s, c1, w2) \<Rightarrow>
                  (Ok s, c1\<lparr>pending_substreams := insert sid (pending_substreams c1)\<rparr>, w2)
              | (Err e, c1, w2) \<Rightarrow> (Err e, c1, w2)
              | (Panic p, c1, w2) \<Rightarrow> (Panic p, c1, w2)))"

text \<open>
  \<open>handle_close\<close>.  Removing the entry drops the sender of the substream's inbound channel; both
  \<open>unwrap\<close>s panic on a failure.
\<close>

definition handle_close ::
    "('p, 'r) Connection \<Rightarrow> SubstreamId \<Rightarrow> ('p, 'r, 'z) net_scheme \<Rightarrow>
     (unit, 'x error) outcome \<times> ('p, 'r) Connection \<times> ('p, 'r, 'z) net_scheme" where
  "handle_close c sid w =
     (case substream_inbound_txs c sid of
        None \<Rightarrow> (Err (SubstreamIdDoesNotExist sid), c, w)
      | Some inb \<Rightarrow>
          (let w1 = w\<lparr>data_chans := (data_chans w)(inb := map_option chan_drop_tx (data_chans w inb))\<rparr>;
               close_tx = substream_close_txs c sid;
               c1 = c\<lparr>substream_inbound_txs := (substream_inbound_txs c)(sid := None),
                      substream_close_txs := (substream_close_txs c)(sid := None)\<rparr>
           in case close_tx of
                None \<Rightarrow> (Panic ''called Option::unwrap() on a None value'', c1, w1)
              | Some cls \<Rightarrow>
                  (case send_close_signal w1 cls of
                     (Ok _, w2) \<Rightarrow>
                       (let (r, ch) = chan_send (close_chan c1) sid
                        in (map_err InboundSendError r, c1\<lparr>close_chan := ch\<rparr>, w2))
                   | (_, w2) \<Rightarrow> (Panic ''called Result::unwrap() on an Err value'', c1, w2))))"

definition conn_poll_inbound ::
    "('p, 'r) Connection \<Rightarrow>
     ('r Substream, 'x error) outcome poll \<times> ('p, 'r) Connection" where
  "conn_poll_inbound c =
     (case chan_poll_recv (inbound_open c) of
        (Ready (Some s), ch) \<Rightarrow> (Ready (Ok s), c\<lparr>inbound_open := ch\<rparr>)
      | (_, ch) \<Rightarrow> (Pending, c\<lparr>inbound_open := ch\<rparr>))"

definition conn_poll_outbound ::
    "(nat \<Rightarrow> u8 list) \<Rightarrow> ('p, 'r) Connection \<Rightarrow> ('p, 'r, 'z) net_scheme \<Rightarrow>
     ('r Substream, 'x error) outcome poll \<times> ('p, 'r) Connection \<times> ('p, 'r, 'z) net_scheme" where
  "conn_poll_outbound fill c w =
     (case new_outbound_substream fill c w of (r, c1, w1) \<Rightarrow> (Ready r, c1, w1))"

definition conn_poll_close ::
    "('p, 'r) Connection \<Rightarrow> (unit, 'x error) outcome poll \<times> ('p, 'r) Connection" where
  "conn_poll_close c =
     (case chan_poll_recv (close_chan c) of
        (Ready (Some _), ch) \<Rightarrow> (Ready (Ok ()), c\<lparr>close_chan := ch\<rparr>)
      | (_, ch) \<Rightarrow> (Pending, c\<lparr>close_chan := ch\<rparr>))"

definition conn_handle ::
    "('p, 'r) Connection \<Rightarrow> SubstreamMessage \<Rightarrow> ('p, 'r, 'z) net_scheme \<Rightarrow>
     (unit, 'x error) outcome \<times> ('p, 'r) Connection \<times> ('p, 'r, 'z) net_scheme" where
  "conn_handle c msg w =
     (case sm_message_type msg of
        OpenRequest \<Rightarrow>
          (case new_substream c (sm_substream_id msg) w of
             (Err e, c1, w1) \<Rightarrow> (Err e, c1, w1)
           | (Panic p, c1, w1) \<Rightarrow> (Panic p, c1, w1)
           | (Ok substream, c1, w1) \<Rightarrow>
               (case send_substream_control c1 (sm_substream_id msg) OpenResponse w1 of
                  (Ok _, w2) \<Rightarrow>
                    (case chan_send (inbound_open c1) substream of
                       (Ok _, ch) \<Rightarrow> (Ok (), c1\<lparr>inbound_open := ch\<rparr>, w2)
                     | (Err e, ch) \<Rightarrow> (Err (InboundSendError e), c1, Substream_drop substream w2)
                     | (Panic p, ch) \<Rightarrow> (Panic p, c1, w2))
                | (Err e, w2) \<Rightarrow> (Err e, c1, Substream_drop substream w2)
                | (Panic p, w2) \<Rightarrow> (Panic p, c1, w2)))
      | OpenResponse \<Rightarrow>
          (Ok (), c\<lparr>pending_substreams := pending_substreams c - {sm_substream_id msg}\<rparr>, w)
      | Close \<Rightarrow> handle_close c (sm_substream_id msg) w
      | Data data \<Rightarrow>
          (case substream_inbound_txs c (sm_substream_id msg) of
             None \<Rightarrow> (Panic ''must have a substream channel for substream'', c, w)
           | Some inb \<Rightarrow> (case send_data w inb data of (_, w1) \<Rightarrow> (Ok (), c, w1))))"

section \<open>Each operation in one equation\<close>

abbreviation nonce_of :: "('p, 'r, 'z) net_scheme \<Rightarrow> addr \<Rightarrow> u64" where
  "nonce_of w a \<equiv> (case nonces w a of Some n \<Rightarrow> n | None \<Rightarrow> 0)"

text \<open>The outbound message that carries a substream message of a connection.\<close>

definition conn_out :: "('p, 'r) Connection \<Rightarrow> u64 \<Rightarrow> SubstreamMessage \<Rightarrow> ('p, 'r) OutboundMessage" where
  "conn_out c n m =
     \<lparr>om_message = TransportMsg \<lparr>tm_nonce = n, tm_message = m, tm_id = c_id c\<rparr>,
      om_recipient = c_remote_recipient c\<rparr>"

lemma send_substream_control_eq:
  "send_substream_control c sid ty w =
     (let n = nonce_of w (c_message_nonce c);
          w1 = w\<lparr>nonces := (nonces w)(c_message_nonce c \<mapsto> n + 1)\<rparr>
      in if rx_open (outbound w)
         then (Ok (), w1\<lparr>outbound := (outbound w)\<lparr>buffer := buffer (outbound w) @
                 [conn_out c n \<lparr>sm_substream_id = sid, sm_message_type = ty\<rparr>]\<rparr>\<rparr>)
         else (Err (OutboundSendError ChannelClosed), w1))"
  by (simp add: send_substream_control_def fetch_add_nonce_def conn_out_def Let_def)

text \<open>The connection and the cells after \<open>new_substream\<close> has made a substream.\<close>

definition with_substream ::
    "SubstreamId \<Rightarrow> ('p, 'r, 'z) net_scheme \<Rightarrow> ('p, 'r) Connection \<Rightarrow> ('p, 'r) Connection" where
  "with_substream sid w c =
     c\<lparr>substream_inbound_txs := (substream_inbound_txs c)(sid \<mapsto> fresh w),
       substream_close_txs := (substream_close_txs c)(sid \<mapsto> Suc (fresh w)), c_waker := None\<rparr>"

definition with_cells ::
    "('p, 'r) Connection \<Rightarrow> ('p, 'r, 'z) net_scheme \<Rightarrow> ('p, 'r, 'z) net_scheme" where
  "with_cells c w =
     w\<lparr>data_chans := (data_chans w)(fresh w \<mapsto> unbounded_channel),
       close_shots := (close_shots w)(Suc (fresh w) \<mapsto> Waiting),
       fresh := Suc (Suc (fresh w)),
       woken := woken w @ (case c_waker c of None \<Rightarrow> [] | Some t \<Rightarrow> [t])\<rparr>"

definition substream_made ::
    "('p, 'r) Connection \<Rightarrow> SubstreamId \<Rightarrow> ('p, 'r, 'z) net_scheme \<Rightarrow> 'r Substream" where
  "substream_made c sid w =
     Substream_new (c_remote_recipient c) (c_id c) sid (fresh w) (Suc (fresh w)) (c_message_nonce c)"

lemma new_substream_eq:
  "substream_inbound_txs c sid = None \<Longrightarrow>
   new_substream c sid w = (Ok (substream_made c sid w), with_substream sid w c, with_cells c w)"
  by (auto simp: new_substream_def new_data_chan_def new_close_shot_def wake_taken_def Let_def
      with_substream_def with_cells_def substream_made_def split: option.splits)

lemma with_substream_frame [simp]:
  "c_id (with_substream sid w c) = c_id c"
  "c_inbound_rx (with_substream sid w c) = c_inbound_rx c"
  "c_message_nonce (with_substream sid w c) = c_message_nonce c"
  "c_remote_recipient (with_substream sid w c) = c_remote_recipient c"
  "inbound_open (with_substream sid w c) = inbound_open c"
  "close_chan (with_substream sid w c) = close_chan c"
  "pending_substreams (with_substream sid w c) = pending_substreams c"
  by (simp_all add: with_substream_def)

lemma with_cells_frame [simp]:
  "outbound (with_cells c w) = outbound w" "nonces (with_cells c w) = nonces w"
  "conn_chans (with_cells c w) = conn_chans w"
  by (simp_all add: with_cells_def)

lemma new_substream_exists:
  "substream_inbound_txs c sid = Some a \<Longrightarrow> new_substream c sid w = (Err (SubstreamIdExists sid), c, w)"
  by (simp add: new_substream_def)

lemma conn_handle_frame:
  assumes "conn_handle c msg w = (r, c', w')"
  shows "conn_chans w' = conn_chans w \<and> c_inbound_rx c' = c_inbound_rx c \<and> c_id c' = c_id c \<and>
    c_message_nonce c' = c_message_nonce c \<and> c_remote_recipient c' = c_remote_recipient c"
proof (cases "sm_message_type msg")
  case OpenRequest
  then show ?thesis
    using assms
    by (cases "substream_inbound_txs c (sm_substream_id msg)")
      (auto simp: conn_handle_def new_substream_eq new_substream_exists send_substream_control_eq
        Let_def Substream_drop_def chan_send_def split: if_splits)
next
  case Close
  then show ?thesis
    using assms
    by (auto simp: conn_handle_def handle_close_def send_close_signal_def Let_def
        split: option.splits prod.splits outcome.splits if_splits)
qed (use assms in \<open>auto simp: conn_handle_def send_data_def split: option.splits prod.splits\<close>)

section \<open>The poll loop\<close>

definition inbox :: "('p, 'r) Connection \<Rightarrow> ('p, 'r, 'z) net_scheme \<Rightarrow> SubstreamMessage list" where
  "inbox c w = (case conn_chans w (c_inbound_rx c) of None \<Rightarrow> [] | Some ch \<Rightarrow> buffer ch)"

lemma poll_recv_conn_Some:
  "poll_recv_conn w (c_inbound_rx c) = (Ready (Some m), w1) \<Longrightarrow>
   inbox c w = m # inbox c w1 \<and>
   (\<exists>ch. w1 = w\<lparr>conn_chans := (conn_chans w)(c_inbound_rx c \<mapsto> ch)\<rparr>)"
  by (auto simp: poll_recv_conn_def cell_poll_recv_def chan_poll_recv_def inbox_def
      split: option.splits list.splits if_splits)

lemma inbox_conn_handle:
  "conn_handle c msg w = (r, c', w') \<Longrightarrow> inbox c' w' = inbox c w"
  by (auto simp: inbox_def dest!: conn_handle_frame)

lemma conn_poll_shorter:
  "(Ready (Some m), w1) = poll_recv_conn w (c_inbound_rx c) \<Longrightarrow>
   (r, c2, w2) = conn_handle c m w1 \<Longrightarrow> length (inbox c2 w2) < length (inbox c w)"
  using poll_recv_conn_Some [of w c m w1] inbox_conn_handle [of c m w1 r c2 w2] by simp

text \<open>
  \<open>poll\<close>: handle the waiting messages one by one; an error or a panic ends the call, an empty channel
  stores the task's waker.  The loop ends because every round takes a message from the channel.
\<close>

function conn_poll ::
    "nat \<Rightarrow> ('p, 'r) Connection \<Rightarrow> ('p, 'r, 'z) net_scheme \<Rightarrow>
     (unit, 'x error) outcome poll \<times> ('p, 'r) Connection \<times> ('p, 'r, 'z) net_scheme" where
  "conn_poll cx c w =
     (case poll_recv_conn w (c_inbound_rx c) of
        (Ready (Some msg), w1) \<Rightarrow>
          (case conn_handle c msg w1 of
             (Ok _, c2, w2) \<Rightarrow> conn_poll cx c2 w2
           | (Err e, c2, w2) \<Rightarrow> (Ready (Err e), c2, w2)
           | (Panic p, c2, w2) \<Rightarrow> (Ready (Panic p), c2, w2))
      | (Ready None, w1) \<Rightarrow> (Pending, c\<lparr>c_waker := Some cx\<rparr>, w1)
      | (Pending, w1) \<Rightarrow> (Pending, c\<lparr>c_waker := Some cx\<rparr>, w1))"
  by pat_completeness auto
termination
  by (relation "measure (\<lambda>(cx, c, w). length (inbox c w))") (auto intro: conn_poll_shorter)

declare conn_poll.simps [simp del]

section \<open>Connections being set up\<close>

record 'r PendingConnection =
  pc_remote_recipient :: 'r
  pc_connection_tx :: addr

definition PendingConnection_new :: "'r \<Rightarrow> addr \<Rightarrow> 'r PendingConnection" where
  "PendingConnection_new recipient tx = \<lparr>pc_remote_recipient = recipient, pc_connection_tx = tx\<rparr>"

section \<open>Invariant\<close>

text \<open>A map to cells: every cell satisfies \<open>P\<close> and belongs to one key only.\<close>

definition cells_ok :: "('k \<rightharpoonup> addr) \<Rightarrow> (addr \<Rightarrow> bool) \<Rightarrow> bool" where
  "cells_ok m P \<longleftrightarrow>
     (\<forall>k a. m k = Some a \<longrightarrow> P a) \<and> (\<forall>j k a. m j = Some a \<longrightarrow> m k = Some a \<longrightarrow> j = k)"

lemma cells_ok_mono:
  "cells_ok m P \<Longrightarrow> (\<And>k a. m k = Some a \<Longrightarrow> P a \<Longrightarrow> Q a) \<Longrightarrow> cells_ok m Q"
  by (auto simp: cells_ok_def)

lemma cells_ok_insert:
  "cells_ok m P \<Longrightarrow> (\<And>b. P b \<Longrightarrow> b \<noteq> a) \<Longrightarrow> cells_ok (m(k \<mapsto> a)) (\<lambda>b. P b \<or> b = a)"
  by (fastforce simp: cells_ok_def)

lemma cells_ok_remove:
  "cells_ok m P \<Longrightarrow> m k = Some a \<Longrightarrow> cells_ok (m(k := None)) (\<lambda>b. P b \<and> b \<noteq> a)"
  by (fastforce simp: cells_ok_def)

lemma cells_ok_D: "cells_ok m P \<Longrightarrow> m k = Some a \<Longrightarrow> P a"
  by (auto simp: cells_ok_def)

text \<open>
  The two maps of a connection have the same keys; each entry is a cell of its own; no close signal
  has been sent on a signal the connection still holds; the channels to itself are open.
\<close>

definition data_cell :: "('p, 'r, 'z) net_scheme \<Rightarrow> addr \<Rightarrow> bool" where
  "data_cell w a \<longleftrightarrow> a < fresh w \<and> data_chans w a \<noteq> None"

definition unsent_cell :: "('p, 'r, 'z) net_scheme \<Rightarrow> addr \<Rightarrow> bool" where
  "unsent_cell w a \<longleftrightarrow> a < fresh w \<and> close_shots w a \<in> {Some Waiting, Some RxDropped}"

definition conn_inv :: "('p, 'r) Connection \<Rightarrow> ('p, 'r, 'z) net_scheme \<Rightarrow> bool" where
  "conn_inv c w \<longleftrightarrow>
     dom (substream_inbound_txs c) = dom (substream_close_txs c) \<and>
     cells_ok (substream_inbound_txs c) (data_cell w) \<and>
     cells_ok (substream_close_txs c) (unsent_cell w) \<and>
     rx_open (inbound_open c) \<and> rx_open (close_chan c)"

lemma conn_inv_keys: "conn_inv c w \<Longrightarrow> substream_inbound_txs c sid = Some a \<Longrightarrow>
    \<exists>b. substream_close_txs c sid = Some b \<and> close_shots w b \<in> {Some Waiting, Some RxDropped}"
  unfolding conn_inv_def by (metis cells_ok_D domD domI unsent_cell_def)

lemma conn_inv_cell: "conn_inv c w \<Longrightarrow> substream_inbound_txs c sid = Some a \<Longrightarrow>
    \<exists>ch. data_chans w a = Some ch"
  unfolding conn_inv_def by (metis cells_ok_D data_cell_def not_None_eq)

lemma conn_inv_new: "conn_inv (fst (Connection_new p r cid a w)) w'"
  by (simp add: conn_inv_def Connection_new_def unbounded_channel_def new_nonce_def cells_ok_def)

text \<open>Only the cells of the connection's own substreams matter.\<close>

lemma conn_inv_cong:
  assumes "conn_inv c w"
    and "substream_inbound_txs c' = substream_inbound_txs c"
    and "substream_close_txs c' = substream_close_txs c"
    and "rx_open (inbound_open c') = rx_open (inbound_open c)"
    and "rx_open (close_chan c') = rx_open (close_chan c)"
    and "\<And>a. data_cell w a \<Longrightarrow> data_cell w' a"
    and "\<And>a. unsent_cell w a \<Longrightarrow> unsent_cell w' a"
  shows "conn_inv c' w'"
proof -
  have "cells_ok (substream_inbound_txs c) (data_cell w')"
    by (rule cells_ok_mono [of _ "data_cell w"]) (use assms in \<open>auto simp: conn_inv_def\<close>)
  moreover have "cells_ok (substream_close_txs c) (unsent_cell w')"
    by (rule cells_ok_mono [of _ "unsent_cell w"]) (use assms in \<open>auto simp: conn_inv_def\<close>)
  ultimately show ?thesis using assms by (simp add: conn_inv_def)
qed

lemma conn_inv_frame [simp]:
  "conn_inv c (w\<lparr>nonces := n\<rparr>) = conn_inv c w"
  "conn_inv c (w\<lparr>outbound := ob\<rparr>) = conn_inv c w"
  "conn_inv c (w\<lparr>conn_chans := cc\<rparr>) = conn_inv c w"
  "conn_inv (c\<lparr>c_waker := wk\<rparr>) w = conn_inv c w"
  "conn_inv (c\<lparr>pending_substreams := ps\<rparr>) w = conn_inv c w"
  "rx_open ch = rx_open (inbound_open c) \<Longrightarrow> conn_inv (c\<lparr>inbound_open := ch\<rparr>) w = conn_inv c w"
  "rx_open ch' = rx_open (close_chan c) \<Longrightarrow> conn_inv (c\<lparr>close_chan := ch'\<rparr>) w = conn_inv c w"
  by (simp_all add: conn_inv_def data_cell_def [abs_def] unsent_cell_def [abs_def])

lemma conn_inv_with_substream:
  assumes "conn_inv c w"
  shows "conn_inv (with_substream sid w c) (with_cells c w)"
proof -
  have old: "cells_ok (substream_inbound_txs c) (data_cell w)"
    "cells_ok (substream_close_txs c) (unsent_cell w)"
    using assms by (simp_all add: conn_inv_def)
  have "cells_ok ((substream_inbound_txs c)(sid \<mapsto> fresh w)) (data_cell (with_cells c w))"
    by (rule cells_ok_mono [OF cells_ok_insert [OF old(1), of "fresh w"]])
      (auto simp: data_cell_def with_cells_def)
  moreover have "cells_ok ((substream_close_txs c)(sid \<mapsto> Suc (fresh w))) (unsent_cell (with_cells c w))"
    by (rule cells_ok_mono [OF cells_ok_insert [OF old(2), of "Suc (fresh w)"]])
      (auto simp: unsent_cell_def with_cells_def)
  ultimately show ?thesis
    using assms by (simp add: conn_inv_def with_substream_def)
qed

lemma conn_inv_Substream_drop: "conn_inv c w \<Longrightarrow> conn_inv c (Substream_drop s w)"
  by (erule conn_inv_cong)
    (auto simp: Substream_drop_def data_cell_def unsent_cell_def)

lemma conn_inv_send_data: "conn_inv c w \<Longrightarrow> conn_inv c (snd (send_data w a d))"
  by (erule conn_inv_cong)
    (auto simp: send_data_def cell_send_def data_cell_def unsent_cell_def
      split: option.splits prod.splits)

text \<open>\<open>handle_close\<close> on a substream the connection knows.\<close>

definition without_substream :: "SubstreamId \<Rightarrow> ('p, 'r) Connection \<Rightarrow> ('p, 'r) Connection" where
  "without_substream sid c =
     c\<lparr>substream_inbound_txs := (substream_inbound_txs c)(sid := None),
       substream_close_txs := (substream_close_txs c)(sid := None)\<rparr>"

lemma handle_close_Waiting:
  "rx_open (close_chan c) \<Longrightarrow> substream_inbound_txs c sid = Some a \<Longrightarrow>
   substream_close_txs c sid = Some b \<Longrightarrow> close_shots w b = Some Waiting \<Longrightarrow>
   handle_close c sid w =
     (Ok (), (without_substream sid c)\<lparr>close_chan := (close_chan c)\<lparr>buffer := buffer (close_chan c) @ [sid]\<rparr>\<rparr>,
      w\<lparr>data_chans := (data_chans w)(a := map_option chan_drop_tx (data_chans w a)),
        close_shots := (close_shots w)(b \<mapsto> Sent ())\<rparr>)"
  by (simp add: handle_close_def send_close_signal_def Let_def without_substream_def)

lemma handle_close_RxDropped:
  "substream_inbound_txs c sid = Some a \<Longrightarrow>
   substream_close_txs c sid = Some b \<Longrightarrow> close_shots w b = Some RxDropped \<Longrightarrow>
   fst (handle_close c sid w) = Panic ''called Result::unwrap() on an Err value''"
  by (simp add: handle_close_def send_close_signal_def Let_def)

lemma conn_inv_handle_close:
  assumes "conn_inv c w" and "handle_close c sid w = (r, c', w')" and "\<not> panics r"
  shows "conn_inv c' w'"
proof (cases "substream_inbound_txs c sid")
  case None
  with assms show ?thesis by (simp add: handle_close_def)
next
  case (Some a)
  obtain b where b: "substream_close_txs c sid = Some b"
      "close_shots w b \<in> {Some Waiting, Some RxDropped}"
    using conn_inv_keys [OF assms(1) Some] by blast
  have wt: "close_shots w b = Some Waiting"
    using b assms(2,3) handle_close_RxDropped [OF Some b(1)] by (metis fst_conv insertE panics.simps(1) singletonD)
  have rx: "rx_open (close_chan c)" using assms(1) by (simp add: conn_inv_def)
  have eq: "w' = w\<lparr>data_chans := (data_chans w)(a := map_option chan_drop_tx (data_chans w a)),
         close_shots := (close_shots w)(b \<mapsto> Sent ())\<rparr>"
      "c' = (without_substream sid c)\<lparr>close_chan := (close_chan c)\<lparr>buffer := buffer (close_chan c) @ [sid]\<rparr>\<rparr>"
    using assms(2) by (simp_all add: handle_close_Waiting [OF rx Some b(1) wt])
  have old: "cells_ok (substream_inbound_txs c) (data_cell w)"
    "cells_ok (substream_close_txs c) (unsent_cell w)"
    using assms(1) by (simp_all add: conn_inv_def)
  have "cells_ok ((substream_inbound_txs c)(sid := None)) (data_cell w')"
    by (rule cells_ok_mono [OF cells_ok_remove [OF old(1) Some]]) (auto simp: eq data_cell_def)
  moreover have "cells_ok ((substream_close_txs c)(sid := None)) (unsent_cell w')"
    by (rule cells_ok_mono [OF cells_ok_remove [OF old(2) b(1)]]) (auto simp: eq unsent_cell_def)
  ultimately show ?thesis
    using assms(1) by (simp add: conn_inv_def eq without_substream_def)
qed

lemma conn_handle_open_request:
  assumes "sm_message_type m = OpenRequest" and "substream_inbound_txs c (sm_substream_id m) = None"
    and "rx_open (inbound_open c)"
  shows "conn_handle c m w =
    (let sid = sm_substream_id m; c1 = with_substream sid w c; w1 = with_cells c w;
         s = substream_made c sid w; n = nonce_of w (c_message_nonce c);
         w2 = w1\<lparr>nonces := (nonces w1)(c_message_nonce c \<mapsto> n + 1)\<rparr>
     in if rx_open (outbound w)
        then (Ok (), c1\<lparr>inbound_open := (inbound_open c)\<lparr>buffer := buffer (inbound_open c) @ [s]\<rparr>\<rparr>,
              w2\<lparr>outbound := (outbound w)\<lparr>buffer := buffer (outbound w) @
                [conn_out c n \<lparr>sm_substream_id = sid, sm_message_type = OpenResponse\<rparr>]\<rparr>\<rparr>)
        else (Err (OutboundSendError ChannelClosed), c1, Substream_drop s w2))"
  using assms
  by (simp add: conn_handle_def new_substream_eq send_substream_control_eq Let_def conn_out_def)

lemma conn_inv_handle:
  assumes "conn_inv c w" and "conn_handle c m w = (r, c', w')" and "\<not> panics r"
  shows "conn_inv c' w'"
proof (cases "sm_message_type m")
  case OpenRequest
  show ?thesis
  proof (cases "substream_inbound_txs c (sm_substream_id m)")
    case None
    let ?c1 = "with_substream (sm_substream_id m) w c"
    have inv: "conn_inv ?c1 (with_cells c w)" using assms(1) by (rule conn_inv_with_substream)
    have "rx_open (inbound_open c)" using assms(1) by (simp add: conn_inv_def)
    then show ?thesis
      using assms(2) inv
      by (auto simp: conn_handle_open_request [OF OpenRequest None] Let_def
          intro!: conn_inv_Substream_drop split: if_splits)
  qed (use assms OpenRequest in \<open>simp add: conn_handle_def new_substream_exists\<close>)
next
  case OpenResponse
  then show ?thesis using assms by (auto simp: conn_handle_def)
next
  case Close
  then show ?thesis using assms conn_inv_handle_close by (auto simp: conn_handle_def)
next
  case (Data d)
  then show ?thesis
    using assms conn_inv_send_data [OF assms(1), of _ d]
    by (auto simp: conn_handle_def split: option.splits prod.splits) (metis snd_conv)
qed

text \<open>One round of \<open>poll\<close>: \<open>msg_taken\<close> is the net after the channel's first message was taken.\<close>

definition msg_taken :: "('p, 'r) Connection \<Rightarrow> ('p, 'r, 'z) net_scheme \<Rightarrow> ('p, 'r, 'z) net_scheme" where
  "msg_taken c w = snd (poll_recv_conn w (c_inbound_rx c))"

lemma msg_taken_frame [simp]:
  "outbound (msg_taken c w) = outbound w" "nonces (msg_taken c w) = nonces w"
  "data_chans (msg_taken c w) = data_chans w" "close_shots (msg_taken c w) = close_shots w"
  "fresh (msg_taken c w) = fresh w" "conn_inv c' (msg_taken c w) = conn_inv c' w"
  by (simp_all add: msg_taken_def poll_recv_conn_def split: prod.splits)

lemma inbox_Cons:
  "inbox c w = m # ms \<Longrightarrow>
   poll_recv_conn w (c_inbound_rx c) = (Ready (Some m), msg_taken c w) \<and> inbox c (msg_taken c w) = ms"
  by (auto simp: msg_taken_def poll_recv_conn_def cell_poll_recv_def chan_poll_recv_def inbox_def
      split: option.splits list.splits)

lemma inbox_Nil:
  "inbox c w = [] \<Longrightarrow> poll_recv_conn w (c_inbound_rx c) \<in> {(Ready None, w), (Pending, w)}"
  by (auto simp: poll_recv_conn_def cell_poll_recv_def chan_poll_recv_def inbox_def fun_upd_idem
      split: option.splits list.splits)

lemma conn_poll_Cons:
  "inbox c w = m # ms \<Longrightarrow>
   conn_poll cx c w =
     (case conn_handle c m (msg_taken c w) of
        (Ok _, c2, w2) \<Rightarrow> conn_poll cx c2 w2
      | (Err e, c2, w2) \<Rightarrow> (Ready (Err e), c2, w2)
      | (Panic p, c2, w2) \<Rightarrow> (Ready (Panic p), c2, w2))"
  using inbox_Cons [of c w m ms] by (simp add: conn_poll.simps [of cx c w])

lemma conn_poll_Nil: "inbox c w = [] \<Longrightarrow> conn_poll cx c w = (Pending, c\<lparr>c_waker := Some cx\<rparr>, w)"
  using inbox_Nil [of c w] by (auto simp: conn_poll.simps [of cx c w])

lemma conn_poll_inv:
  fixes r :: "(unit, 'x error) outcome poll"
  shows "conn_inv c w \<Longrightarrow> conn_poll cx c w = (r, c', w') \<Longrightarrow> (\<forall>p. r \<noteq> Ready (Panic p)) \<Longrightarrow> conn_inv c' w'"
proof (induction "inbox c w" arbitrary: c w)
  case Nil
  then show ?case by (auto simp: conn_poll_Nil)
next
  case (Cons m ms)
  have eq: "(case conn_handle c m (msg_taken c w) of
         (Ok _, c2, w2) \<Rightarrow> conn_poll cx c2 w2
       | (Err e, c2, w2) \<Rightarrow> (Ready (Err e), c2, w2)
       | (Panic p, c2, w2) \<Rightarrow> (Ready (Panic p), c2, w2)) = (r, c', w')"
    using Cons.prems(2) by (simp add: conn_poll_Cons [OF Cons.hyps(2) [symmetric]])
  obtain r2 :: "(unit, 'x error) outcome" and c2 w2
    where h: "conn_handle c m (msg_taken c w) = (r2, c2, w2)"
    using prod_cases3 by blast
  have ms: "ms = inbox c2 w2"
    using inbox_Cons [OF Cons.hyps(2) [symmetric]] inbox_conn_handle [OF h] by simp
  have inv: "conn_inv c2 w2" if "\<not> panics r2"
    using conn_inv_handle [OF _ h that] Cons.prems(1) by simp
  show ?case
  proof (cases r2)
    case (Ok u)
    then show ?thesis using Cons.hyps(1) [OF ms] Cons.prems(3) eq h inv by simp
  qed (use Cons.prems(3) eq h inv in auto)
qed

lemma new_outbound_substream_eq:
  "new_outbound_substream fill c w =
     (let sid = SubstreamId_generate fill; n = nonce_of w (c_message_nonce c);
          w1 = w\<lparr>nonces := (nonces w)(c_message_nonce c \<mapsto> n + 1)\<rparr>;
          w2 = w1\<lparr>outbound := (outbound w)\<lparr>buffer := buffer (outbound w) @
                 [conn_out c n \<lparr>sm_substream_id = sid, sm_message_type = OpenRequest\<rparr>]\<rparr>\<rparr>
      in if \<not> rx_open (outbound w) then (Err (OutboundSendError ChannelClosed), c, w1)
         else if substream_inbound_txs c sid \<noteq> None then (Err (SubstreamIdExists sid), c, w2)
         else (Ok (substream_made c sid w2),
               (with_substream sid w2 c)\<lparr>pending_substreams := insert sid (pending_substreams c)\<rparr>,
               with_cells c w2))"
  by (auto simp: new_outbound_substream_def send_substream_control_eq new_substream_eq
      new_substream_exists Let_def)

lemma conn_inv_new_outbound:
  assumes "conn_inv c w" and "new_outbound_substream fill c w = (r, c', w')"
  shows "conn_inv c' w'"
  using assms
  by (auto simp: new_outbound_substream_eq Let_def intro!: conn_inv_with_substream split: if_splits)

lemma conn_handle_data:
  "sm_message_type m = Data d \<Longrightarrow> substream_inbound_txs c (sm_substream_id m) = Some a \<Longrightarrow>
   data_chans w a = Some ch \<Longrightarrow>
   conn_handle c m w = (Ok (), c, w\<lparr>data_chans := (data_chans w)(a \<mapsto> snd (chan_send ch d))\<rparr>)"
  by (simp add: conn_handle_def send_data_def cell_send_def split: prod.splits)

section \<open>Properties\<close>

definition demo_connection :: "(u8, u8) Connection" where
  "demo_connection = fst (Connection_new 5 3 demo_cid 9 (net_new :: (u8, u8) net))"

definition demo_conn_net :: "SubstreamMessage list \<Rightarrow> (u8, u8) net" where
  "demo_conn_net ms = net_new
     \<lparr>conn_chans := [9 \<mapsto> \<lparr>buffer = ms, rx_open = True, tx_open = True\<rparr>],
      nonces := [0 \<mapsto> 1], fresh := 10\<rparr>"

text \<open>The connection with one open substream: its cells are 10 and 11.\<close>

definition demo_connection1 :: "(u8, u8) Connection" where
  "demo_connection1 = with_substream demo_sid (demo_conn_net []) demo_connection"

definition demo_conn_net1 :: "SubstreamMessage list \<Rightarrow> (u8, u8) net" where
  "demo_conn_net1 ms = with_cells demo_connection (demo_conn_net ms)"

lemmas demo_conn_defs = demo_connection_def demo_connection1_def demo_conn_net_def
  demo_conn_net1_def Connection_new_def new_nonce_def net_new_def unbounded_channel_def

lemma demo_connection_maps [simp]:
  "substream_inbound_txs demo_connection = Map.empty"
  "substream_close_txs demo_connection = Map.empty"
  by (simp_all add: demo_connection_def Connection_new_def new_nonce_def)

lemma demo_conn_inv: "conn_inv demo_connection w"
  by (simp add: demo_connection_def conn_inv_new)

lemma demo_conn_inv1: "conn_inv demo_connection1 (demo_conn_net1 ms)"
proof -
  have "with_substream demo_sid (demo_conn_net []) demo_connection =
      with_substream demo_sid (demo_conn_net ms) demo_connection"
    by (simp add: with_substream_def demo_conn_net_def)
  then show ?thesis
    unfolding demo_connection1_def demo_conn_net1_def
    by (simp add: conn_inv_with_substream demo_conn_inv)
qed

text \<open>
  (C24) The invariant of a connection (the two maps have the same keys, every entry has its own cell,
  no signal it holds has been sent, its own channels are open) holds of a new connection and is kept
  by each of the four operations of the muxer: by the whole of \<open>poll\<close>, whatever messages wait and
  whether it ends pending or with an error, by \<open>poll_inbound\<close>, by \<open>poll_outbound\<close> and by \<open>poll_close\<close>.
\<close>

theorem connection_invariant_kept:
  "conn_inv (fst (Connection_new peer recipient cid a w)) (snd (Connection_new peer recipient cid a w)) \<and>
   (conn_inv c w \<longrightarrow>
     (case (conn_poll cx c w :: (unit, 'x error) outcome poll \<times> _) of
        (r, c', w') \<Rightarrow> (\<exists>p. r = Ready (Panic p)) \<or> conn_inv c' w') \<and>
     (case (conn_poll_inbound c :: ('r Substream, 'x error) outcome poll \<times> _) of
        (r, c') \<Rightarrow> conn_inv c' w) \<and>
     (case (conn_poll_outbound fill c w :: ('r Substream, 'x error) outcome poll \<times> _) of
        (r, c', w') \<Rightarrow> conn_inv c' w') \<and>
     (case (conn_poll_close c :: (unit, 'x error) outcome poll \<times> _) of
        (r, c') \<Rightarrow> conn_inv c' w))"
proof (intro conjI impI)
  assume inv: "conn_inv c w"
  obtain r c1 w1 where p: "(conn_poll cx c w :: (unit, 'x error) outcome poll \<times> _) = (r, c1, w1)"
    using prod_cases3 by blast
  show "case (conn_poll cx c w :: (unit, 'x error) outcome poll \<times> _) of
      (r, c', w') \<Rightarrow> (\<exists>p. r = Ready (Panic p)) \<or> conn_inv c' w'"
    using conn_poll_inv [OF inv p] p by auto
  obtain s c2 w2 where o: "(new_outbound_substream fill c w :: ('r Substream, 'x error) outcome \<times> _) = (s, c2, w2)"
    using prod_cases3 by blast
  show "case (conn_poll_outbound fill c w :: ('r Substream, 'x error) outcome poll \<times> _) of
      (r, c', w') \<Rightarrow> conn_inv c' w'"
    using conn_inv_new_outbound [OF inv o] o by (simp add: conn_poll_outbound_def)
  show "case (conn_poll_inbound c :: ('r Substream, 'x error) outcome poll \<times> _) of (r, c') \<Rightarrow> conn_inv c' w"
      "case (conn_poll_close c :: (unit, 'x error) outcome poll \<times> _) of (r, c') \<Rightarrow> conn_inv c' w"
    using inv
    by (auto simp: conn_poll_inbound_def conn_poll_close_def chan_poll_recv_def conn_inv_def
        split: prod.splits poll.splits option.splits list.splits if_splits)
qed (rule conn_inv_new)

theorem connection_invariant_kept_witness:
  "(case (conn_poll 0 demo_connection1 (demo_conn_net1 [new_close demo_sid]) ::
        (unit, unit error) outcome poll \<times> _) of
      (r, c', w') \<Rightarrow> (\<exists>p. r = Ready (Panic p)) \<or> conn_inv c' w') \<and>
    (case (conn_poll_outbound (\<lambda>n. replicate n 1) demo_connection1 (demo_conn_net1 [new_close demo_sid]) ::
        (u8 Substream, unit error) outcome poll \<times> _) of
      (r, c', w') \<Rightarrow> conn_inv c' w')"
  using connection_invariant_kept [where 'x = unit, of _ _ _ _ "demo_conn_net1 [new_close demo_sid]" demo_connection1 0
      "\<lambda>n. replicate n 1"]
  by (simp add: demo_conn_inv1)

text \<open>
  (C33) Exactly two kinds of message make \<open>poll\<close> panic: data for a substream the connection does not
  have, and a close for one whose application side has been dropped.  Both come from the remote
  peer.
\<close>

theorem conn_handle_panics_iff:
  assumes "conn_inv c w"
  shows "panics (fst (conn_handle c m w)) \<longleftrightarrow>
    (\<exists>d. sm_message_type m = Data d) \<and> substream_inbound_txs c (sm_substream_id m) = None \<or>
    sm_message_type m = Close \<and>
      (\<exists>b. substream_close_txs c (sm_substream_id m) = Some b \<and> close_shots w b = Some RxDropped)"
proof (cases "sm_message_type m")
  case OpenRequest
  have rx: "rx_open (inbound_open c)" using assms by (simp add: conn_inv_def)
  show ?thesis
  proof (cases "substream_inbound_txs c (sm_substream_id m)")
    case None
    with OpenRequest show ?thesis
      by (simp add: conn_handle_open_request [OF OpenRequest None rx] Let_def)
  qed (use OpenRequest in \<open>simp add: conn_handle_def new_substream_exists\<close>)
next
  case Close
  show ?thesis
  proof (cases "substream_inbound_txs c (sm_substream_id m)")
    case None
    then have "substream_close_txs c (sm_substream_id m) = None"
      using assms by (auto simp: conn_inv_def)
    with None Close show ?thesis by (simp add: conn_handle_def handle_close_def)
  next
    case (Some a)
    obtain b where b: "substream_close_txs c (sm_substream_id m) = Some b"
        "close_shots w b \<in> {Some Waiting, Some RxDropped}"
      using conn_inv_keys [OF assms Some] by blast
    have "rx_open (close_chan c)" using assms by (simp add: conn_inv_def)
    with Close Some b show ?thesis
      by (auto simp: conn_handle_def handle_close_Waiting handle_close_RxDropped)
  qed
qed (auto simp: conn_handle_def split: option.splits prod.splits)

theorem conn_handle_panics_iff_witness:
  "panics (fst (conn_handle demo_connection (new_with_data demo_sid [1]) (demo_conn_net []) ::
      (unit, unit error) outcome \<times> (u8, u8) Connection \<times> (u8, u8) net)) \<and>
   \<not> panics (fst (conn_handle demo_connection (new_close demo_sid) (demo_conn_net []) ::
      (unit, unit error) outcome \<times> (u8, u8) Connection \<times> (u8, u8) net))"
  by (simp add: conn_handle_panics_iff [OF demo_conn_inv] new_with_data_def new_close_def)

text \<open>
  (C27) An accepted open request: the connection gets an entry with two new cells for the substream,
  answers with one open response under the next nonce, and queues the substream, live and empty,
  behind those that wait to be accepted; when none waits, \<open>poll_inbound\<close> hands exactly this substream
  to the application.
\<close>

theorem open_request_accepted:
  assumes "conn_inv c w" and "rx_open (outbound w)" and "sm_message_type m = OpenRequest"
    and "substream_inbound_txs c (sm_substream_id m) = None"
  shows "\<exists>c' w' s. conn_handle c m w = (Ok (), c', w') \<and>
    buffer (outbound w') = buffer (outbound w) @
      [conn_out c (nonce_of w (c_message_nonce c))
        \<lparr>sm_substream_id = sm_substream_id m, sm_message_type = OpenResponse\<rparr>] \<and>
    nonces w' = (nonces w)(c_message_nonce c \<mapsto> nonce_of w (c_message_nonce c) + 1) \<and>
    buffer (inbound_open c') = buffer (inbound_open c) @ [s] \<and>
    ss_substream_id s = sm_substream_id m \<and> ss_connection_id s = c_id c \<and>
    ss_remote_recipient s = c_remote_recipient c \<and>
    ss_message_nonce s = c_message_nonce c \<and> live s w' \<and> stream_of s w' = [] \<and>
    substream_inbound_txs c' = (substream_inbound_txs c)(sm_substream_id m \<mapsto> inbound_rx s) \<and>
    substream_close_txs c' = (substream_close_txs c)(sm_substream_id m \<mapsto> close_rx s) \<and>
    (buffer (inbound_open c) = [] \<longrightarrow>
      conn_poll_inbound c' = (Ready (Ok s), c'\<lparr>inbound_open := (inbound_open c')\<lparr>buffer := []\<rparr>\<rparr>))"
proof -
  have "rx_open (inbound_open c)" using assms(1) by (simp add: conn_inv_def)
  with assms show ?thesis
    by (simp add: conn_handle_open_request Let_def conn_poll_inbound_def chan_poll_recv_def
        substream_made_def Substream_new_def live_def stream_of_def chunks_def with_cells_def
        with_substream_def unbounded_channel_def)
qed

definition demo_open :: SubstreamMessage where
  "demo_open = \<lparr>sm_substream_id = demo_sid, sm_message_type = OpenRequest\<rparr>"

theorem open_request_accepted_witness:
  "\<exists>c' w' s. (conn_handle demo_connection demo_open (demo_conn_net []) ::
        (unit, unit error) outcome \<times> (u8, u8) Connection \<times> (u8, u8) net) = (Ok (), c', w') \<and>
    nonces w' = [0 \<mapsto> 2] \<and> live s w' \<and> ss_substream_id s = demo_sid \<and>
    (conn_poll_inbound c' :: (u8 Substream, unit error) outcome poll \<times> (u8, u8) Connection) =
      (Ready (Ok s), c'\<lparr>inbound_open := (inbound_open c')\<lparr>buffer := []\<rparr>\<rparr>)"
  using open_request_accepted [OF demo_conn_inv, of "demo_conn_net []" demo_open]
  by (fastforce simp: demo_open_def demo_conn_defs)

text \<open>The data of one substream, out of the messages of a connection.\<close>

fun payloads :: "SubstreamId \<Rightarrow> SubstreamMessage list \<Rightarrow> u8 list list" where
  "payloads sid [] = []"
| "payloads sid (m # ms) =
     (case sm_message_type m of
        Data d \<Rightarrow> if sm_substream_id m = sid then d # payloads sid ms else payloads sid ms
      | _ \<Rightarrow> payloads sid ms)"

definition queued :: "('p, 'r, 'z) net_scheme \<Rightarrow> addr \<Rightarrow> u8 list list" where
  "queued w a = (case data_chans w a of None \<Rightarrow> [] | Some ch \<Rightarrow> buffer ch)"

lemma chunks_queued: "chunks s w = queued w (inbound_rx s)"
  by (simp add: chunks_def queued_def)

definition readers_alive :: "('p, 'r) Connection \<Rightarrow> ('p, 'r, 'z) net_scheme \<Rightarrow> bool" where
  "readers_alive c w \<longleftrightarrow>
     (\<forall>sid a ch. substream_inbound_txs c sid = Some a \<longrightarrow> data_chans w a = Some ch \<longrightarrow> rx_open ch)"

lemma conn_poll_data:
  assumes "conn_inv c w" and "readers_alive c w"
    and "\<forall>m\<in>set (inbox c w). (\<exists>d. sm_message_type m = Data d) \<and>
      substream_inbound_txs c (sm_substream_id m) \<noteq> None"
  shows "\<exists>w'. (conn_poll cx c w :: (unit, 'x error) outcome poll \<times> _) =
      (Pending, c\<lparr>c_waker := Some cx\<rparr>, w') \<and>
    (\<forall>sid a. substream_inbound_txs c sid = Some a \<longrightarrow>
      queued w' a = queued w a @ payloads sid (inbox c w))"
  using assms
proof (induction "inbox c w" arbitrary: w)
  case Nil
  then show ?case by (intro exI [of _ w]) (simp add: conn_poll_Nil flip: Nil.hyps)
next
  case (Cons m ms)
  obtain d a ch where m: "sm_message_type m = Data d"
      "substream_inbound_txs c (sm_substream_id m) = Some a" "data_chans w a = Some ch"
    using Cons.prems Cons.hyps(2) conn_inv_cell [of c w] by (metis list.set_intros(1) not_None_eq)
  then have ch: "rx_open ch" using Cons.prems(2) by (auto simp: readers_alive_def)
  let ?w1 = "msg_taken c w"
  let ?w2 = "?w1\<lparr>data_chans := (data_chans w)(a \<mapsto> ch\<lparr>buffer := buffer ch @ [d]\<rparr>)\<rparr>"
  have h: "(conn_handle c m ?w1 :: (unit, 'x error) outcome \<times> _) = (Ok (), c, ?w2)"
    using m ch by (simp add: conn_handle_data [OF m(1,2)])
  have inbox: "ms = inbox c ?w2"
    using inbox_Cons [OF Cons.hyps(2) [symmetric]] by (simp add: inbox_def)
  have "conn_inv c ?w2"
    using conn_inv_handle [OF _ h] Cons.prems(1) by simp
  moreover have "readers_alive c ?w2"
    using Cons.prems(2) ch by (auto simp: readers_alive_def)
  moreover have "\<forall>m\<in>set (inbox c ?w2). (\<exists>d. sm_message_type m = Data d) \<and>
      substream_inbound_txs c (sm_substream_id m) \<noteq> None"
    using Cons.prems(3) Cons.hyps(2) inbox by (metis list.set_intros(2))
  ultimately obtain w' where w': "(conn_poll cx c ?w2 :: (unit, 'x error) outcome poll \<times> _) =
      (Pending, c\<lparr>c_waker := Some cx\<rparr>, w')"
      "\<forall>sid a. substream_inbound_txs c sid = Some a \<longrightarrow>
        queued w' a = queued ?w2 a @ payloads sid (inbox c ?w2)"
    using Cons.hyps(1) [OF inbox] by blast
  have only: "sid = sm_substream_id m" if "substream_inbound_txs c sid = Some a" for sid
    using Cons.prems(1) m(2) that by (auto simp: conn_inv_def cells_ok_def)
  have "queued w' b = queued w b @ payloads sid (m # ms)" if "substream_inbound_txs c sid = Some b" for sid b
  proof -
    have "queued w' b = queued ?w2 b @ payloads sid ms" using w'(2) that inbox by simp
    then show ?thesis
      using m only [of sid] that by (cases "b = a") (auto simp: queued_def)
  qed
  moreover have "(conn_poll cx c w :: (unit, 'x error) outcome poll \<times> _) =
      (Pending, c\<lparr>c_waker := Some cx\<rparr>, w')"
    using w'(1) h by (simp add: conn_poll_Cons [OF Cons.hyps(2) [symmetric]])
  ultimately show ?case using Cons.hyps(2) by (intro exI [of _ w']) simp
qed

text \<open>
  (C23) Demultiplexing: when the messages that wait are data for open substreams with a live reader,
  \<open>poll\<close> handles all of them and every substream gets its own data, all of it, in the order it
  came, and nothing else.
\<close>

theorem conn_poll_demultiplexes:
  assumes "conn_inv c w" and "readers_alive c w"
    and "\<forall>m\<in>set (inbox c w). (\<exists>d. sm_message_type m = Data d) \<and>
      substream_inbound_txs c (sm_substream_id m) \<noteq> None"
  shows "\<exists>w'. conn_poll cx c w = (Pending, c\<lparr>c_waker := Some cx\<rparr>, w') \<and>
    (\<forall>sid a. substream_inbound_txs c sid = Some a \<longrightarrow>
      queued w' a = queued w a @ payloads sid (inbox c w))"
  using conn_poll_data [OF assms] .

lemma demo_readers_alive: "readers_alive demo_connection1 (demo_conn_net1 ms)"
  by (auto simp: readers_alive_def demo_connection1_def with_substream_def demo_conn_net1_def
      with_cells_def unbounded_channel_def demo_conn_net_def net_new_def split: if_splits)

theorem conn_poll_demultiplexes_witness:
  "\<exists>w'. (conn_poll 4 demo_connection1 (demo_conn_net1 [new_with_data demo_sid [1], new_with_data demo_sid [2]]) ::
      (unit, unit error) outcome poll \<times> (u8, u8) Connection \<times> (u8, u8) net) =
      (Pending, demo_connection1\<lparr>c_waker := Some 4\<rparr>, w') \<and>
    (\<forall>sid a. substream_inbound_txs demo_connection1 sid = Some a \<longrightarrow>
      queued w' a = queued (demo_conn_net1 [new_with_data demo_sid [1], new_with_data demo_sid [2]]) a @
        payloads sid (inbox demo_connection1
          (demo_conn_net1 [new_with_data demo_sid [1], new_with_data demo_sid [2]])))"
  by (rule conn_poll_demultiplexes [OF demo_conn_inv1 demo_readers_alive])
    (simp add: inbox_def demo_connection1_def with_substream_def demo_conn_net1_def with_cells_def
      demo_conn_net_def net_new_def demo_connection_def Connection_new_def new_nonce_def
      new_with_data_def)



end
