(* ===== verification/Message_Queue.thy ===== *)
theory Message_Queue
  imports Messages
begin

text \<open>
  \<open>queue.rs\<close>: the per-connection queue that puts transport messages back into the order of their
  nonces.  The operations first, then the abstract view of the queue (which message of each nonce is
  held back) and the properties of a whole session of arrivals in any order.
\<close>

record MessageQueue =
  next_expected_nonce :: u64
  queue :: "TransportMessage list"

definition MessageQueue_new :: MessageQueue where
  "MessageQueue_new = \<lparr>next_expected_nonce = 0, queue = []\<rparr>"

text \<open>The list of nonces \<open>print_nonces\<close> writes to the log.\<close>

definition print_nonces :: "MessageQueue \<Rightarrow> u64 list" where
  "print_nonces q = map tm_nonce (queue q)"

definition set_connection_message_received :: "MessageQueue \<Rightarrow> (MessageQueue, 'e) outcome" where
  "set_connection_message_received q =
     (if next_expected_nonce q \<noteq> 0 then Panic ''connection message received twice''
      else Ok (q\<lparr>next_expected_nonce := next_expected_nonce q + 1\<rparr>))"

definition try_push ::
    "MessageQueue \<Rightarrow> TransportMessage \<Rightarrow> TransportMessage option \<times> MessageQueue" where
  "try_push q msg =
     (if tm_nonce msg = next_expected_nonce q then
        (Some msg, q\<lparr>next_expected_nonce := next_expected_nonce q + 1\<rparr>)
      else if tm_nonce msg < next_expected_nonce q then (None, q)
      else
        (let (inserted, s) = btree_insert TransportMessage_cmp msg (queue q)
         in (None, q\<lparr>queue := s\<rparr>)))"

definition pop :: "MessageQueue \<Rightarrow> TransportMessage option \<times> MessageQueue" where
  "pop q =
     (case btree_first (queue q) of
        None \<Rightarrow> (None, q)
      | Some head \<Rightarrow>
          (if tm_nonce head = next_expected_nonce q then
             (let (m, s) = btree_pop_first (queue q)
              in (m, q\<lparr>next_expected_nonce := next_expected_nonce q + 1, queue := s\<rparr>))
           else (None, q)))"

lemma pop_Some:
  "pop q = (Some m, q') \<longleftrightarrow>
     (\<exists>ms. queue q = m # ms \<and> tm_nonce m = next_expected_nonce q \<and>
       q' = q\<lparr>next_expected_nonce := next_expected_nonce q + 1, queue := ms\<rparr>)"
  by (cases "queue q") (auto simp: pop_def)

lemma pop_None:
  "pop q = (None, q') \<longleftrightarrow>
     q' = q \<and> (\<forall>m ms. queue q = m # ms \<longrightarrow> tm_nonce m \<noteq> next_expected_nonce q)"
  by (cases "queue q") (auto simp: pop_def)

lemma pop_shorter: "(Some m, q') = pop q \<Longrightarrow> length (queue q') < length (queue q)"
  by (cases "queue q") (auto simp: pop_def split: if_splits)

text \<open>
  The loop \<open>while let Some(msg) = queue.pop()\<close> of the transport, as the list of messages it takes
  out; it ends because every pop shortens the queue.
\<close>

function pop_all :: "MessageQueue \<Rightarrow> TransportMessage list \<times> MessageQueue" where
  "pop_all q =
     (case pop q of
        (None, q') \<Rightarrow> ([], q')
      | (Some m, q') \<Rightarrow> (let (ms, q'') = pop_all q' in (m # ms, q'')))"
  by pat_completeness auto
termination
  by (relation "measure (\<lambda>q. length (queue q))") (simp_all add: pop_shorter)

declare pop_all.simps [simp del]

text \<open>
  What a connection hands on while the messages \<open>ms\<close> arrive: a message that is pushed is queued or
  handed on, and then followed by the queued messages that have become due.
\<close>

fun feed :: "MessageQueue \<Rightarrow> TransportMessage list \<Rightarrow> TransportMessage list \<times> MessageQueue" where
  "feed q [] = ([], q)"
| "feed q (m # ms) =
     (case try_push q m of
        (None, q1) \<Rightarrow> feed q1 ms
      | (Some m', q1) \<Rightarrow>
          (let (out1, q2) = pop_all q1; (out2, q3) = feed q2 ms in (m' # out1 @ out2, q3)))"

section \<open>Invariant and abstract view\<close>

definition queue_inv :: "MessageQueue \<Rightarrow> bool" where
  "queue_inv q \<longleftrightarrow>
     sorted_wrt (\<lambda>a b. tm_nonce a < tm_nonce b) (queue q) \<and>
     (\<forall>m\<in>set (queue q). next_expected_nonce q \<le> tm_nonce m)"

text \<open>The message of nonce \<open>n\<close> that came first.\<close>

definition first_of :: "TransportMessage list \<Rightarrow> u64 \<Rightarrow> TransportMessage option" where
  "first_of ms n = find (\<lambda>m. tm_nonce m = n) ms"

lemma first_of_Nil [simp]: "first_of [] n = None"
  by (simp add: first_of_def)

lemma first_of_Cons [simp]:
  "first_of (m # ms) n = (if tm_nonce m = n then Some m else first_of ms n)"
  by (simp add: first_of_def)

lemma first_of_snoc:
  "first_of (ms @ [m]) n =
     (if first_of ms n = None \<and> tm_nonce m = n then Some m else first_of ms n)"
  by (induction ms) auto

lemma first_of_Some: "first_of ms n = Some m \<Longrightarrow> m \<in> set ms \<and> tm_nonce m = n"
  by (auto simp: first_of_def find_Some_iff)

lemma first_of_None: "first_of ms n = None \<longleftrightarrow> (\<forall>m\<in>set ms. tm_nonce m \<noteq> n)"
  by (auto simp: first_of_def find_None_iff)

lemma cmp_Less [simp]: "TransportMessage_cmp a b = Less \<longleftrightarrow> tm_nonce a < tm_nonce b"
  by (auto simp: TransportMessage_cmp_def word_cmp_def)

lemma cmp_Equal [simp]: "TransportMessage_cmp a b = Equal \<longleftrightarrow> tm_nonce a = tm_nonce b"
  by (auto simp: TransportMessage_cmp_def word_cmp_def)

text \<open>Inserting keeps the first message of every nonce, as appending does.\<close>

lemma first_of_insert:
  "sorted_wrt (\<lambda>a b. tm_nonce a < tm_nonce b) xs \<Longrightarrow>
   first_of (snd (btree_insert TransportMessage_cmp m xs)) n = first_of (xs @ [m]) n"
proof (induction xs)
  case (Cons y ys)
  consider "tm_nonce m < tm_nonce y" | "tm_nonce m = tm_nonce y" | "tm_nonce y < tm_nonce m"
    by fastforce
  then show ?case
  proof cases
    case 1
    then have "first_of (y # ys) (tm_nonce m) = None"
      using Cons.prems by (auto simp: first_of_None)
    with 1 show ?thesis by (auto simp: TransportMessage_cmp_def word_cmp_def first_of_snoc)
  next
    case 2
    then show ?thesis by (auto simp: TransportMessage_cmp_def word_cmp_def first_of_snoc)
  next
    case 3
    with Cons show ?thesis
      by (auto simp: TransportMessage_cmp_def word_cmp_def first_of_snoc split: prod.splits)
  qed
qed simp

text \<open>
  \<open>settled\<close>: nothing in the queue is due.  It holds whenever no call is running; in between, after
  the connection message or a push that returned its message, only \<open>queue_inv\<close> does.
\<close>

definition settled :: "MessageQueue \<Rightarrow> bool" where
  "settled q \<longleftrightarrow>
     sorted_wrt (\<lambda>a b. tm_nonce a < tm_nonce b) (queue q) \<and>
     (\<forall>m\<in>set (queue q). next_expected_nonce q < tm_nonce m)"

lemma settled_queue_inv: "settled q \<Longrightarrow> queue_inv q"
  by (auto simp: settled_def queue_inv_def)

lemma settled_new [simp]: "settled MessageQueue_new"
  by (simp add: settled_def MessageQueue_new_def)

lemma ordered_insert:
  "sorted_wrt (\<lambda>a b. tm_nonce a < tm_nonce b) xs \<Longrightarrow>
   sorted_wrt (\<lambda>a b. tm_nonce a < tm_nonce b) (snd (btree_insert TransportMessage_cmp m xs))"
  using tm_order.ordered_btree_insert [of xs m] by simp

lemma try_push_None:
  assumes "settled q" and "try_push q m = (None, q')"
  shows "settled q' \<and> next_expected_nonce q' = next_expected_nonce q"
  using assms tm_order.set_btree_insert [of m "queue q"] ordered_insert [of "queue q" m]
  by (auto simp: try_push_def settled_def split: if_splits prod.splits)

lemma try_push_Some:
  assumes "try_push q m = (Some m', q')"
  shows "m' = m \<and> tm_nonce m = next_expected_nonce q \<and>
    q' = q\<lparr>next_expected_nonce := next_expected_nonce q + 1\<rparr>"
  using assms by (auto simp: try_push_def split: if_splits prod.splits)

lemma try_push_Some_inv: "settled q \<Longrightarrow> try_push q m = (Some m', q') \<Longrightarrow> queue_inv q'"
  by (auto dest!: try_push_Some simp: settled_def queue_inv_def intro!: inc_le)

lemma pop_inv: "queue_inv q \<Longrightarrow> pop q = (Some m, q') \<Longrightarrow> queue_inv q'"
  by (auto simp: pop_Some queue_inv_def intro!: inc_le)

lemma set_connection_inv:
  "settled q \<Longrightarrow> set_connection_message_received q = Ok q' \<Longrightarrow> queue_inv q'"
  using inc_le [of "0::u64"]
  by (auto simp: set_connection_message_received_def settled_def queue_inv_def split: if_splits)

lemma set_connection_settled:
  assumes "settled q" and "set_connection_message_received q = Ok q'"
  shows "\<not> settled q' \<longleftrightarrow> (\<exists>x xs. queue q = x # xs \<and> tm_nonce x = 1)"
proof -
  have q': "q' = q\<lparr>next_expected_nonce := 1\<rparr>" "next_expected_nonce q = 0"
    using assms(2) by (auto simp: set_connection_message_received_def split: if_splits)
  have "1 < n \<longleftrightarrow> n \<noteq> 1" if "0 < n" for n :: u64
    using inc_le [OF that] by (auto simp: order.strict_iff_order)
  then have "settled q' \<longleftrightarrow> (\<forall>m\<in>set (queue q). tm_nonce m \<noteq> 1)"
    using assms(1) q' by (auto simp: settled_def)
  also have "\<dots> \<longleftrightarrow> (\<nexists>x xs. queue q = x # xs \<and> tm_nonce x = 1)"
    using assms(1) q'(2) inc_le [of "0::u64"] by (cases "queue q") (fastforce simp: settled_def)+
  finally show ?thesis by blast
qed

lemma pop_None_settled: "queue_inv q \<Longrightarrow> pop q = (None, q') \<Longrightarrow> q' = q \<and> settled q"
  by (cases "queue q") (auto simp: pop_None queue_inv_def settled_def order.strict_iff_order)

lemma pop_all_settled: "queue_inv q \<Longrightarrow> settled (snd (pop_all q))"
proof (induction q rule: pop_all.induct)
  case (1 q)
  show ?case
  proof (cases "pop q")
    case (Pair r q')
    then show ?thesis
      using 1 pop_inv [of q] pop_None_settled [of q q']
      by (cases r) (auto simp: pop_all.simps [of q] split: prod.splits)
  qed
qed

text \<open>
  \<open>tracks c ms out q\<close>: after the arrivals \<open>ms\<close>, and the connection message if \<open>c\<close>, the queue is
  in state \<open>q\<close> and \<open>out\<close> was handed on.
  The queue holds the first arrival of every nonce still to come, and what was handed on are the
  first arrivals of the nonces 1, 2, and so on up to the next expected one.
\<close>

definition tracks :: "bool \<Rightarrow> TransportMessage list \<Rightarrow> TransportMessage list \<Rightarrow> MessageQueue \<Rightarrow> bool" where
  "tracks c ms out q \<longleftrightarrow>
     queue_inv q \<and>
     (\<forall>n\<ge>next_expected_nonce q. first_of (queue q) n = first_of ms n) \<and>
     map (\<lambda>m. unat (tm_nonce m)) out = [1..<unat (next_expected_nonce q)] \<and>
     (\<forall>m\<in>set out. first_of ms (tm_nonce m) = Some m) \<and>
     (next_expected_nonce q = 0 \<longleftrightarrow> \<not> c)"

definition in_protocol :: "TransportMessage list \<Rightarrow> bool" where
  "in_protocol ms \<longleftrightarrow> (\<forall>m\<in>set ms. tm_nonce m \<noteq> 0 \<and> tm_nonce m \<noteq> - 1)"

lemma unat_plus_one: "(n::u64) \<noteq> - 1 \<Longrightarrow> unat (n + 1) = Suc (unat n)"
  by (metis add.commute add_eq_0_iff unatSuc)

lemma upt_next: "(n::u64) \<noteq> 0 \<Longrightarrow> n \<noteq> - 1 \<Longrightarrow> [1..<unat (n + 1)] = [1..<unat n] @ [unat n]"
  by (simp add: unat_plus_one Suc_le_eq unat_gt_0)

lemma tracks_hand_on:
  assumes "tracks c ms out q" and "first_of ms (next_expected_nonce q) = Some m"
    and "in_protocol ms" and "queue_inv q'"
    and "next_expected_nonce q' = next_expected_nonce q + 1"
    and "\<And>n. next_expected_nonce q < n \<Longrightarrow> first_of (queue q') n = first_of (queue q) n"
  shows "tracks c ms (out @ [m]) q'"
proof -
  let ?n = "next_expected_nonce q"
  have m: "m \<in> set ms" "tm_nonce m = ?n" using assms(2) by (auto dest: first_of_Some)
  then have n: "?n \<noteq> 0" "?n \<noteq> - 1" using assms(3) by (auto simp: in_protocol_def)
  have "?n < k" if "?n + 1 \<le> k" for k
    using that unat_plus_one [OF n(2)] by (simp add: word_le_nat_alt word_less_nat_alt)
  moreover have "?n + 1 \<noteq> 0" using n(2) by (simp add: eq_neg_iff_add_eq_0)
  ultimately show ?thesis
    using assms m n(1) upt_next [OF n] by (auto simp: tracks_def order.strict_implies_order)
qed

lemma first_of_settled: "settled q \<Longrightarrow> first_of (queue q) (next_expected_nonce q) = None"
  by (auto simp: first_of_None settled_def)

lemma tracks_push_None:
  assumes "tracks c ms out q" and "settled q" and "try_push q m = (None, q')"
  shows "tracks c (ms @ [m]) out q' \<and> settled q'"
proof -
  have q': "settled q'" "next_expected_nonce q' = next_expected_nonce q"
    using try_push_None assms(2,3) by auto
  have "first_of (queue q') n = first_of (ms @ [m]) n" if "next_expected_nonce q \<le> n" for n
    using assms that first_of_insert [of "queue q" m n]
    by (auto simp: try_push_def tracks_def first_of_snoc settled_def split: if_splits prod.splits)
  then show ?thesis
    using assms q' settled_queue_inv [OF q'(1)] by (auto simp: tracks_def first_of_snoc)
qed

lemma tracks_push_Some:
  assumes "tracks c ms out q" and "settled q" and "in_protocol (ms @ [m])"
    and "try_push q m = (Some m', q')"
  shows "m' = m \<and> tracks c (ms @ [m]) (out @ [m]) q'"
proof -
  have m: "m' = m" "tm_nonce m = next_expected_nonce q"
    and q': "q' = q\<lparr>next_expected_nonce := next_expected_nonce q + 1\<rparr>"
    using try_push_Some [OF assms(4)] by auto
  let ?q = "q\<lparr>queue := m # queue q\<rparr>"
  have none: "first_of ms (tm_nonce m) = None"
    using assms(1,2) first_of_settled [OF assms(2)] m by (auto simp: tracks_def)
  have "tracks c (ms @ [m]) out ?q"
    using assms(1,2) m none by (auto simp: tracks_def queue_inv_def settled_def first_of_snoc)
  then have "tracks c (ms @ [m]) (out @ [m]) q'"
    using try_push_Some_inv [OF assms(2,4)] assms(3) none m q'
    by (intro tracks_hand_on [of c _ out ?q]) (auto simp: first_of_snoc)
  with m show ?thesis by simp
qed

lemma tracks_pop_all:
  "tracks c ms out q \<Longrightarrow> in_protocol ms \<Longrightarrow> pop_all q = (popped, q') \<Longrightarrow>
   tracks c ms (out @ popped) q' \<and> settled q'"
proof (induction q arbitrary: out popped rule: pop_all.induct)
  case (1 q)
  obtain r q1 where r: "pop q = (r, q1)" by (cases "pop q")
  show ?case
  proof (cases r)
    case None
    then show ?thesis
      using 1 r pop_None_settled [of q q1] by (auto simp: pop_all.simps [of q] tracks_def)
  next
    case (Some m)
    obtain ms1 where q: "queue q = m # ms1" "tm_nonce m = next_expected_nonce q"
      and q1: "q1 = q\<lparr>next_expected_nonce := next_expected_nonce q + 1, queue := ms1\<rparr>"
      using r Some by (auto simp: pop_Some)
    have due: "first_of ms (next_expected_nonce q) = Some m"
      using 1(2) q by (metis first_of_Cons order.refl tracks_def)
    have "queue_inv q1" using 1(2) r Some pop_inv by (auto simp: tracks_def)
    then have "tracks c ms (out @ [m]) q1"
      using 1(2,3) due q q1 by (intro tracks_hand_on [of c _ out q]) auto
    moreover obtain popped1 where "pop_all q1 = (popped1, q')" "popped = m # popped1"
      using 1(4) r Some by (auto simp: pop_all.simps [of q] split: prod.splits)
    ultimately show ?thesis
      using "1.IH" [OF r [symmetric] Some, of "out @ [m]" popped1] 1(3) by simp
  qed
qed

lemma tracks_feed:
  "tracks c ms out q \<Longrightarrow> settled q \<Longrightarrow> in_protocol (ms @ ms') \<Longrightarrow> feed q ms' = (out', q') \<Longrightarrow>
   tracks c (ms @ ms') (out @ out') q' \<and> settled q'"
proof (induction ms' arbitrary: ms out q out')
  case (Cons m ms')
  obtain r q1 where r: "try_push q m = (r, q1)" by (cases "try_push q m")
  show ?case
  proof (cases r)
    case None
    then have "tracks c (ms @ [m]) out q1 \<and> settled q1"
      using Cons.prems r tracks_push_None by blast
    then show ?thesis using Cons.prems r None Cons.IH [of "ms @ [m]" out q1 out'] by simp
  next
    case (Some m')
    obtain popped q2 where p: "pop_all q1 = (popped, q2)" by (cases "pop_all q1")
    have prot: "in_protocol (ms @ [m])" using Cons.prems(3) by (auto simp: in_protocol_def)
    have "m' = m \<and> tracks c (ms @ [m]) (out @ [m]) q1"
      using Cons.prems(1,2) prot r Some tracks_push_Some by blast
    moreover from this have "tracks c (ms @ [m]) ((out @ [m]) @ popped) q2 \<and> settled q2"
      using tracks_pop_all prot p by blast
    ultimately show ?thesis
      using Cons.prems r Some p Cons.IH [of "ms @ [m]" "(out @ [m]) @ popped" q2]
      by (auto split: prod.splits)
  qed
qed simp

text \<open>
  A whole session: the arrivals \<open>pre\<close> before the connection message, the connection message, the
  arrivals \<open>post\<close> after it.
\<close>

definition session ::
    "TransportMessage list \<Rightarrow> TransportMessage list \<Rightarrow>
     (TransportMessage list \<times> MessageQueue, unit) outcome" where
  "session pre post =
     (let (out0, q0) = feed MessageQueue_new pre
      in bind_outcome (set_connection_message_received q0) (\<lambda>q1.
         let (out1, q2) = pop_all q1; (out2, q3) = feed q2 post
         in Ok (out0 @ out1 @ out2, q3)))"

lemma tracks_new: "tracks False [] [] MessageQueue_new"
  by (simp add: tracks_def queue_inv_def MessageQueue_new_def)

text \<open>Before the connection message nothing is handed on.\<close>

lemma feed_new:
  assumes "in_protocol pre"
  shows "\<exists>q. feed MessageQueue_new pre = ([], q) \<and> next_expected_nonce q = 0 \<and>
    tracks False pre [] q \<and> settled q"
proof -
  have "next_expected_nonce q = 0 \<Longrightarrow> in_protocol ms \<Longrightarrow>
      fst (feed q ms) = [] \<and> next_expected_nonce (snd (feed q ms)) = 0" for q ms
    by (induction ms arbitrary: q) (auto simp: in_protocol_def try_push_def split: prod.splits)
  then have "fst (feed MessageQueue_new pre) = []"
    and "next_expected_nonce (snd (feed MessageQueue_new pre)) = 0"
    using assms by (auto simp: MessageQueue_new_def)
  then show ?thesis
    using tracks_feed [OF tracks_new, of pre] assms
    by (cases "feed MessageQueue_new pre") auto
qed

lemma session_tracks:
  assumes "in_protocol (pre @ post)"
  shows "\<exists>out q. session pre post = Ok (out, q) \<and> tracks True (pre @ post) out q \<and> settled q"
proof -
  have prot: "in_protocol pre" using assms by (auto simp: in_protocol_def)
  obtain q0 where q0: "feed MessageQueue_new pre = ([], q0)" "next_expected_nonce q0 = 0"
      "tracks False pre [] q0" "settled q0"
    using feed_new [OF prot] by auto
  let ?q1 = "q0\<lparr>next_expected_nonce := 1\<rparr>"
  have "queue_inv ?q1"
    using q0(2,4) inc_le [of "0::u64"] by (auto simp: settled_def queue_inv_def)
  then have "tracks True pre [] ?q1"
    using q0 by (auto simp: tracks_def)
  moreover obtain popped q2 where p: "pop_all ?q1 = (popped, q2)" by (cases "pop_all ?q1")
  ultimately have q2: "tracks True pre popped q2 \<and> settled q2" using tracks_pop_all prot by fastforce
  obtain out q3 where "feed q2 post = (out, q3)" by (cases "feed q2 post")
  then show ?thesis
    using tracks_feed [of True pre popped q2 post] q2 assms q0 p
    by (auto simp: session_def set_connection_message_received_def)
qed

lemma unat_inj_map:
  "map (\<lambda>m. unat (tm_nonce m)) xs = map (\<lambda>m. unat (tm_nonce m)) ys \<Longrightarrow>
   (\<And>x y. x \<in> set xs \<Longrightarrow> y \<in> set ys \<Longrightarrow> tm_nonce x = tm_nonce y \<Longrightarrow> x = y) \<Longrightarrow> xs = ys"
proof (induction xs arbitrary: ys)
  case (Cons x xs)
  then obtain y ys' where "ys = y # ys'" by (cases ys) auto
  with Cons.prems have "x = y" "map (\<lambda>m. unat (tm_nonce m)) xs = map (\<lambda>m. unat (tm_nonce m)) ys'"
    by (auto simp: word_unat_eq_iff)
  with Cons \<open>ys = y # ys'\<close> show ?case by auto
qed simp

text \<open>A list of messages numbered 1, 2, \<open>\<dots>\<close>, as a sender that counts its messages makes it.\<close>

definition numbered :: "TransportMessage list \<Rightarrow> bool" where
  "numbered xs \<longleftrightarrow>
     map (\<lambda>m. unat (tm_nonce m)) xs = [1..<Suc (length xs)] \<and> length xs < 2 ^ 64 - 1"

lemma numbered_nonces: "numbered xs \<Longrightarrow> (\<lambda>m. unat (tm_nonce m)) ` set xs = {1..length xs}"
proof -
  assume "numbered xs"
  then have "set (map (\<lambda>m. unat (tm_nonce m)) xs) = set [1..<Suc (length xs)]"
    by (simp add: numbered_def)
  then show ?thesis by (simp only: set_map set_upt) auto
qed

lemma numbered_in_protocol: "numbered xs \<Longrightarrow> in_protocol xs"
proof -
  assume n: "numbered xs"
  have "tm_nonce m \<noteq> 0 \<and> tm_nonce m \<noteq> - 1" if "m \<in> set xs" for m
  proof -
    have "unat (tm_nonce m) \<in> {1..length xs}" using numbered_nonces [OF n] that by auto
    moreover have "unat (- 1 :: u64) = 2 ^ 64 - 1"
      by (simp add: unsigned_minus_1_eq_mask mask_eq_exp_minus_1)
    ultimately show ?thesis using n by (auto simp: numbered_def)
  qed
  then show ?thesis by (simp add: in_protocol_def)
qed

lemma numbered_same: "numbered xs \<Longrightarrow> a \<in> set xs \<Longrightarrow> b \<in> set xs \<Longrightarrow> tm_nonce a = tm_nonce b \<Longrightarrow> a = b"
proof -
  assume n: "numbered xs" and ab: "a \<in> set xs" "b \<in> set xs" "tm_nonce a = tm_nonce b"
  have "distinct (map (\<lambda>m. unat (tm_nonce m)) xs)" using n by (simp add: numbered_def)
  then show "a = b" using ab by (auto simp: distinct_map inj_on_def)
qed

text \<open>
  The reference definition: look for the first arrival of the nonces 1, 2, \<open>\<dots>\<close> among all the
  arrivals, and stop at the first nonce that is missing.
\<close>

definition in_order :: "TransportMessage list \<Rightarrow> TransportMessage list" where
  "in_order ms =
     map the (takeWhile (\<lambda>x. x \<noteq> None) (map (\<lambda>i. first_of ms (of_nat i)) [1..<2 + length ms]))"

section \<open>The contract of a queue that restores an order\<close>

text \<open>
  What the transport relies on.  \<open>ok c ms out q\<close> holds of a queue state that has seen the arrivals
  \<open>ms\<close>, and the connection message if \<open>c\<close>, and has handed on \<open>out\<close>: after a push that returns its
  message, or the connection message, the due messages are popped too.
\<close>

locale resequencer =
  fixes init :: 'q
    and start :: "'q \<Rightarrow> ('q, 'e) outcome"
    and push :: "'q \<Rightarrow> TransportMessage \<Rightarrow> TransportMessage option \<times> 'q"
    and drain :: "'q \<Rightarrow> TransportMessage list \<times> 'q"
    and ok :: "bool \<Rightarrow> TransportMessage list \<Rightarrow> TransportMessage list \<Rightarrow> 'q \<Rightarrow> bool"
  assumes ok_init: "ok False [] [] init"
    and ok_start: "ok False ms out q \<Longrightarrow> in_protocol ms \<Longrightarrow>
          \<exists>q1. start q = Ok q1 \<and> ok True ms (out @ fst (drain q1)) (snd (drain q1))"
    and ok_queued: "ok c ms out q \<Longrightarrow> push q m = (None, q1) \<Longrightarrow> ok c (ms @ [m]) out q1"
    and ok_handed: "ok c ms out q \<Longrightarrow> in_protocol (ms @ [m]) \<Longrightarrow> push q m = (Some m', q1) \<Longrightarrow>
          m' = m \<and> c \<and> ok c (ms @ [m]) (out @ m # fst (drain q1)) (snd (drain q1))"
    and ok_out: "ok True ms out q \<Longrightarrow> \<exists>n. n \<noteq> 0 \<and> first_of ms n = None \<and>
          map (\<lambda>m. unat (tm_nonce m)) out = [1..<unat n] \<and>
          (\<forall>m\<in>set out. first_of ms (tm_nonce m) = Some m)"
    and ok_silent: "ok False ms out q \<Longrightarrow> out = []"
begin

text \<open>
  As long as nothing arrives that the sender has not sent, what was handed on is a prefix of what was
  sent; once all of it has arrived, it is the whole.
\<close>

lemma delivers_prefix:
  assumes "numbered xs" and "set ms \<subseteq> set xs" and "ok True ms out q"
  shows "out = take (length out) xs"
proof -
  let ?k = "\<lambda>m. unat (tm_nonce m)"
  obtain e :: u64 where e: "e \<noteq> 0" "map ?k out = [1..<unat e]" "\<forall>m\<in>set out. first_of ms (tm_nonce m) = Some m"
    using ok_out [OF assms(3)] by blast
  have out: "\<forall>m\<in>set out. m \<in> set xs" using assms(2) e(3) by (auto dest: first_of_Some)
  have len: "unat e = Suc (length out)"
    using arg_cong [OF e(2), of length] e(1) unat_gt_0 [of e] by simp
  have "set (map ?k out) \<subseteq> ?k ` set xs" using out by auto
  then have "set [1..<unat e] \<subseteq> {1..length xs}" by (simp only: e(2) numbered_nonces [OF assms(1)])
  then have "length out \<le> length xs" using len by (cases "length out") (auto simp: subset_iff)
  then have "map ?k (take (length out) xs) = [1..<Suc (length out)]"
    using assms(1) take_upt [of 1 "length out" "Suc (length xs)"]
    by (simp add: numbered_def flip: take_map del: upt_Suc)
  then show ?thesis
    using e(2) len out numbered_same [OF assms(1)] by (intro unat_inj_map) (auto dest: in_set_takeD)
qed

lemma delivers_numbered:
  assumes "numbered xs" and "set ms = set xs" and "ok True ms out q"
  shows "out = xs"
proof -
  let ?k = "\<lambda>m. unat (tm_nonce m)"
  obtain e where e: "e \<noteq> 0" "first_of ms e = None" "map ?k out = [1..<unat e]"
    using ok_out [OF assms(3)] by blast
  have len: "unat e = Suc (length out)"
    using arg_cong [OF e(3), of length] e(1) unat_gt_0 [of e] by simp
  have "unat e \<notin> ?k ` set xs" using assms(2) e(2) by (auto simp: first_of_None word_unat_eq_iff)
  then have "length xs \<le> length out" using len by (simp add: numbered_nonces [OF assms(1)])
  then show ?thesis using delivers_prefix [OF assms(1) _ assms(3)] assms(2) by simp
qed

text \<open>What was handed on, computed from the arrivals alone.\<close>

lemma ok_in_order:
  assumes "ok True ms out q"
  shows "out = in_order ms"
proof -
  let ?k = "\<lambda>m. unat (tm_nonce m)" and ?f = "\<lambda>i. first_of ms (of_nat i)"
  obtain e where e: "e \<noteq> 0" "first_of ms e = None" "map ?k out = [1..<unat e]"
      "\<forall>m\<in>set out. first_of ms (tm_nonce m) = Some m"
    using ok_out [OF assms] by blast
  have len: "unat e = Suc (length out)"
    using arg_cong [OF e(3), of length] e(1) unat_gt_0 [of e] by simp
  have "distinct (map ?k out)" by (simp add: e(3))
  then have "distinct out" by (simp add: distinct_map)
  moreover have "set out \<subseteq> set ms" using e(4) by (auto dest: first_of_Some)
  ultimately have le: "length out \<le> length ms"
    by (metis card_length card_mono distinct_card le_trans List.finite_set)
  have "map ?f [1..<unat e] = map ?f (map ?k out)" by (simp only: e(3))
  also have "\<dots> = map (\<lambda>m. first_of ms (tm_nonce m)) out" by simp
  also have "\<dots> = map Some out" using e(4) by simp
  finally have got: "map ?f [1..<unat e] = map Some out" .
  have "[1..<2 + length ms] = [1..<unat e] @ [unat e] @ [Suc (unat e)..<2 + length ms]"
    using len le upt_add_eq_append [of 1 "unat e" "2 + length ms - unat e"] by (simp add: upt_conv_Cons)
  then have "map ?f [1..<2 + length ms] = map Some out @ None # map ?f [Suc (unat e)..<2 + length ms]"
    using got e(2) by simp
  moreover have "takeWhile (\<lambda>x. x \<noteq> None) (map Some out @ None # ys) = map Some out" for ys
    by (induction out) auto
  ultimately have "in_order ms = map the (map Some out)" by (simp only: in_order_def)
  then show ?thesis by (simp add: comp_def)
qed

end

text \<open>The message queue keeps the contract.\<close>

definition sequenced :: "bool \<Rightarrow> TransportMessage list \<Rightarrow> TransportMessage list \<Rightarrow> MessageQueue \<Rightarrow> bool" where
  "sequenced c ms out q \<longleftrightarrow> tracks c ms out q \<and> settled q"

lemma sequenced_start:
  assumes "sequenced False ms out q" and "in_protocol ms"
  shows "\<exists>q1. set_connection_message_received q = Ok q1 \<and>
    sequenced True ms (out @ fst (pop_all q1)) (snd (pop_all q1))"
proof -
  have z: "next_expected_nonce q = 0" using assms(1) by (simp add: sequenced_def tracks_def)
  then have s: "(set_connection_message_received q :: (MessageQueue, 'a) outcome) =
      Ok (q\<lparr>next_expected_nonce := 1\<rparr>)"
    by (simp add: set_connection_message_received_def)
  moreover have "tracks True ms out (q\<lparr>next_expected_nonce := 1\<rparr>)"
    using assms(1) z set_connection_inv [OF _ s] by (auto simp: sequenced_def tracks_def)
  then have "sequenced True ms (out @ fst (pop_all (q\<lparr>next_expected_nonce := 1\<rparr>)))
      (snd (pop_all (q\<lparr>next_expected_nonce := 1\<rparr>)))"
    using tracks_pop_all assms(2) unfolding sequenced_def by (metis prod.collapse)
  ultimately show ?thesis by blast
qed

lemma sequenced_handed:
  assumes "sequenced c ms out q" and "in_protocol (ms @ [m])" and "try_push q m = (Some m', q1)"
  shows "m' = m \<and> c \<and> sequenced c (ms @ [m]) (out @ m # fst (pop_all q1)) (snd (pop_all q1))"
proof -
  have "m' = m" "tracks c (ms @ [m]) (out @ [m]) q1"
    using tracks_push_Some assms by (auto simp: sequenced_def)
  moreover from this have "sequenced c (ms @ [m]) ((out @ [m]) @ fst (pop_all q1)) (snd (pop_all q1))"
    using tracks_pop_all assms(2) unfolding sequenced_def by (metis prod.collapse)
  moreover have "next_expected_nonce q \<noteq> 0"
    using try_push_Some [OF assms(3)] assms(2) by (auto simp: in_protocol_def)
  ultimately show ?thesis using assms(1) by (simp add: sequenced_def tracks_def)
qed

lemma sequenced_out:
  assumes "sequenced True ms out q"
  shows "\<exists>n. n \<noteq> 0 \<and> first_of ms n = None \<and> map (\<lambda>m. unat (tm_nonce m)) out = [1..<unat n] \<and>
    (\<forall>m\<in>set out. first_of ms (tm_nonce m) = Some m)"
  using assms first_of_settled [of q]
  by (intro exI [of _ "next_expected_nonce q"]) (auto simp: sequenced_def tracks_def)

interpretation mq: resequencer MessageQueue_new set_connection_message_received try_push pop_all sequenced
proof unfold_locales
  show "sequenced False [] [] MessageQueue_new" by (simp add: sequenced_def tracks_new)
  show "\<exists>q1. set_connection_message_received q = Ok q1 \<and>
      sequenced True ms (out @ fst (pop_all q1)) (snd (pop_all q1))"
    if "sequenced False ms out q" "in_protocol ms" for ms out q
    using sequenced_start [OF that] .
  show "sequenced c (ms @ [m]) out q1" if "sequenced c ms out q" "try_push q m = (None, q1)"
    for c ms out q m q1
    using tracks_push_None that by (auto simp: sequenced_def)
  show "out = []" if "sequenced False ms out q" for ms out q
    using that by (auto simp: sequenced_def tracks_def)
qed (rule sequenced_handed sequenced_out, assumption+)+

section \<open>Properties\<close>

text \<open>
  (C12) Reordering: a sender numbers its messages \<open>xs\<close> 1, 2, \<open>\<dots>\<close>; they arrive in any order and any
  number of times each, some of them possibly before the connection message (\<open>pre\<close>) and the others
  after it (\<open>post\<close>).  Then the queue hands on exactly \<open>xs\<close>: every message once, in the order sent.
\<close>

theorem queue_session_reorders:
  assumes "numbered xs" and "set (pre @ post) = set xs"
  shows "\<exists>q. session pre post = Ok (xs, q) \<and> queue_inv q"
proof -
  have "in_protocol (pre @ post)"
    using numbered_in_protocol [OF assms(1)] assms(2) by (auto simp: in_protocol_def)
  then obtain out q where s: "session pre post = Ok (out, q)" "sequenced True (pre @ post) out q"
    using session_tracks unfolding sequenced_def by blast
  then show ?thesis
    using mq.delivers_numbered [OF assms s(2)] settled_queue_inv by (auto simp: sequenced_def)
qed

theorem queue_session_reorders_witness:
  "\<exists>q. session [demo_data_message 3 [1]] [demo_data_message 2 [5], demo_data_message 3 [1],
                  demo_data_message 1 [4], demo_data_message 2 [5]] =
       Ok ([demo_data_message 1 [4], demo_data_message 2 [5], demo_data_message 3 [1]], q) \<and>
     queue_inv q"
  by (rule queue_session_reorders)
    (simp_all add: numbered_def demo_data_message_def insert_commute)

text \<open>
  (C14) The queue against its reference definition, for any arrivals that do not have the nonces 0
  and \<open>2\<^sup>6\<^sup>4 - 1\<close> (nonces may be missing or repeated, with different messages): fed one by one, with the connection message after any number
  of them, it hands on exactly what one finds by looking, in all the arrivals, for the first message
  with nonce 1, with nonce 2, and so on up to the first nonce that is missing.
\<close>

theorem queue_session_in_order:
  assumes "in_protocol (pre @ post)"
  shows "\<exists>q. session pre post = Ok (in_order (pre @ post), q) \<and> settled q"
proof -
  obtain out q where s: "session pre post = Ok (out, q)" "sequenced True (pre @ post) out q"
    using session_tracks [OF assms] unfolding sequenced_def by blast
  then show ?thesis using mq.ok_in_order [OF s(2)] by (simp add: sequenced_def)
qed

theorem queue_session_in_order_witness:
  "\<exists>q. session [demo_data_message 4 [9]] [demo_data_message 2 [5], demo_data_message 1 [4],
                 demo_data_message 2 [7]] =
       Ok ([demo_data_message 1 [4], demo_data_message 2 [5]], q) \<and> settled q"
  using queue_session_in_order [of "[demo_data_message 4 [9]]"
      "[demo_data_message 2 [5], demo_data_message 1 [4], demo_data_message 2 [7]]"]
  by (simp add: in_protocol_def demo_data_message_def in_order_def upt_rec)



text \<open>
  Messages of a peer that does not follow the protocol are dropped: a nonce below the expected
  one, or one that is already queued, leaves the queue as it is and nothing is handed on.
\<close>

lemma stale_or_duplicate_dropped:
  assumes "settled q"
    and "tm_nonce m < next_expected_nonce q \<or> (\<exists>m'\<in>set (queue q). TransportMessage_eq m m')"
  shows "try_push q m = (None, q)"
proof (cases "tm_nonce m < next_expected_nonce q")
  case False
  then obtain m' where m': "m' \<in> set (queue q)" "tm_nonce m = tm_nonce m'"
    using assms(2) by (auto simp: TransportMessage_eq_def)
  have ord: "sorted_wrt (\<lambda>a b. TransportMessage_cmp a b = Less) (queue q)"
    using assms(1) by (simp add: settled_def)
  have "\<not> fst (btree_insert TransportMessage_cmp m (queue q))"
    using tm_order.btree_insert_refused [OF ord, of m] m' by auto
  then have "snd (btree_insert TransportMessage_cmp m (queue q)) = queue q"
    by (rule tm_order.btree_insert_refused_same)
  then show ?thesis
    using False m' assms(1) by (auto simp: try_push_def settled_def split: prod.splits)
qed (auto simp: try_push_def)

text \<open>
  (C40) Wrap-around: at the greatest nonce the queue of a settled connection is empty, that message is
  still handed on, and the next expected nonce is 0 again.
\<close>

theorem nonce_wraps:
  assumes "settled q" and "next_expected_nonce q = - 1" and "tm_nonce m = - 1"
  shows "try_push q m = (Some m, \<lparr>next_expected_nonce = 0, queue = []\<rparr>)"
proof -
  have "queue q = []"
    using assms(1,2) by (cases "queue q") (auto simp: settled_def)
  then show ?thesis using assms by (cases q) (simp add: try_push_def)
qed

theorem nonce_wraps_witness:
  "try_push \<lparr>next_expected_nonce = - 1, queue = []\<rparr> (demo_data_message (- 1) [1]) =
     (Some (demo_data_message (- 1) [1]), \<lparr>next_expected_nonce = 0, queue = []\<rparr>)"
  by (rule nonce_wraps) (simp_all add: settled_def demo_data_message_def)

end
