(* ===== verification/Mixnet.thy ===== *)
theory Mixnet
  imports Network "HOL-Library.Sublist"
begin

text \<open>
  \<open>mixnet.rs\<close>: the task between the transport and the websocket of a Nym client.  \<open>check_inbound\<close> and
  \<open>check_outbound\<close> are futures, so they are modelled by what one poll of them does; the state of the
  second, which can be suspended inside its write, is a datatype.  \<open>mixnet_select\<close> is one poll of the
  task's \<open>select!\<close>.  The websocket and the (de)serialisation of the Nym client's requests and
  responses are arguments of the model.
\<close>

section \<open>The websocket and the Nym client's messages\<close>

text \<open>
  A websocket message; a text is given by its UTF-8 bytes, \<open>OtherWs\<close> stands for the control frames.
\<close>

datatype ws_message = Text "u8 list" | Binary "u8 list" | OtherWs

text \<open>
  What the source uses of the Nym client's protocol: of a received message its bytes, of the other
  responses only that they are others.
\<close>

datatype ('r, 'x) ServerResponse =
    Received_response "u8 list"
  | SelfAddress_response 'r
  | Error_response 'x
  | Other_response

datatype 'r ClientRequest = Send_request 'r "u8 list" "u64 option" | SelfAddress_request

record ('r, 'x) nym_api =
  serialize :: "'r ClientRequest \<Rightarrow> u8 list"
  deserialize :: "u8 list \<Rightarrow> 'x + ('r, 'x) ServerResponse"

text \<open>
  The two halves of a websocket.  \<open>ws_incoming\<close> are the items the stream has ready, \<open>ws_ended\<close> tells
  that the stream gives \<open>None\<close> after them.  The sink takes a message when \<open>ws_ready\<close> holds, fails with
  \<open>ws_fail\<close>, and has flushed what it took when \<open>ws_flushed\<close> holds; \<open>ws_sent\<close> is what it took.  The sink
  is a \<open>SplitSink\<close>, which keeps one message in a slot of its own until the websocket takes it: \<open>ws_ready\<close>
  says that this slot is free, and a message in the slot counts as taken, because it stays there when
  the future that put it there is dropped.
\<close>

record 'x websocket =
  ws_incoming :: "('x + ws_message) list"
  ws_ended :: bool
  ws_sent :: "ws_message list"
  ws_ready :: bool
  ws_flushed :: bool
  ws_fail :: "'x option"

text \<open>\<open>StreamExt::next\<close>.\<close>

definition ws_next :: "'x websocket \<Rightarrow> ('x + ws_message) option poll \<times> 'x websocket" where
  "ws_next s =
     (case ws_incoming s of
        i # is \<Rightarrow> (Ready (Some i), s\<lparr>ws_incoming := is\<rparr>)
      | [] \<Rightarrow> (if ws_ended s then Ready None else Pending, s))"

text \<open>
  \<open>SinkExt::send\<close>: wait until the sink is ready, give it the item, wait until it is flushed.
  \<open>Writing m\<close> holds the item before the sink has taken it.
\<close>

datatype out_state = Receiving | Writing ws_message | Flushing

definition flush_poll :: "'x websocket \<Rightarrow> (unit, 'x) outcome poll \<times> out_state" where
  "flush_poll s =
     (case ws_fail s of
        Some e \<Rightarrow> (Ready (Err e), Flushing)
      | None \<Rightarrow> (if ws_flushed s then Ready (Ok ()) else Pending, Flushing))"

definition send_poll ::
    "ws_message \<Rightarrow> 'x websocket \<Rightarrow> (unit, 'x) outcome poll \<times> out_state \<times> 'x websocket" where
  "send_poll m s =
     (case ws_fail s of
        Some e \<Rightarrow> (Ready (Err e), Writing m, s)
      | None \<Rightarrow>
          (if ws_ready s
           then (let s' = s\<lparr>ws_sent := ws_sent s @ [m]\<rparr>; (r, o') = flush_poll s' in (r, o', s'))
           else (Pending, Writing m, s)))"

section \<open>Shared channels\<close>

text \<open>The channel from the mixnet task to the transport joins the shared cells of the node.\<close>

record ('p, 'r) mix_net = "('p, 'r) net" +
  inbound :: "('p, 'r) InboundMessage chan"

section \<open>Messages in\<close>

definition parse_nym_message ::
    "('r, 'x) nym_api \<Rightarrow> ws_message \<Rightarrow> (('r, 'x) ServerResponse, 'x error) outcome" where
  "parse_nym_message api msg =
     (case msg of
        Text str \<Rightarrow> map_err NymMessageError (of_sum (deserialize api str))
      | Binary bytes \<Rightarrow> map_err NymMessageError (of_sum (deserialize api bytes))
      | _ \<Rightarrow> Err UnknownNymMessage)"

definition handle_inbound_ws ::
    "('p, 'r, 'x) codecs \<Rightarrow> ('r, 'x) nym_api \<Rightarrow> ws_message \<Rightarrow> ('p, 'r, 'z) mix_net_scheme \<Rightarrow>
     (unit, 'x error) outcome \<times> ('p, 'r, 'z) mix_net_scheme" where
  "handle_inbound_ws E api msg w =
     (case parse_nym_message api msg of
        Err e \<Rightarrow> (Err e, w)
      | Panic p \<Rightarrow> (Panic p, w)
      | Ok res \<Rightarrow>
          (case res of
             Received_response msg_bytes \<Rightarrow>
               (case parse_message_data E msg_bytes of
                  Err e \<Rightarrow> (Err e, w)
                | Panic p \<Rightarrow> (Panic p, w)
                | Ok data \<Rightarrow>
                    (let (r, ch) = chan_send (inbound w) data
                     in (map_err InboundSendError r, w\<lparr>inbound := ch\<rparr>)))
           | Error_response e \<Rightarrow> (Err (NymMessageError e), w)
           | _ \<Rightarrow> (Err UnexpectedNymMessage, w)))"

text \<open>
  \<open>check_inbound\<close>, with the optional channel that notifies of inbound messages.  A failure to notify
  returns before the item is looked at.
\<close>

definition check_inbound ::
    "('p, 'r, 'x) codecs \<Rightarrow> ('r, 'x) nym_api \<Rightarrow> 'x websocket \<Rightarrow> unit chan option \<Rightarrow>
     ('p, 'r, 'z) mix_net_scheme \<Rightarrow>
     (unit, 'x error) outcome poll \<times> 'x websocket \<times> unit chan option \<times> ('p, 'r, 'z) mix_net_scheme" where
  "check_inbound E api s notify w =
     (case ws_next s of
        (Pending, s1) \<Rightarrow> (Pending, s1, notify, w)
      | (Ready None, s1) \<Rightarrow> (Ready (Err WebsocketStreamReadNone), s1, notify, w)
      | (Ready (Some res), s1) \<Rightarrow>
          (let (nr, notify1) =
             (case notify of
                None \<Rightarrow> (Ok (), None)
              | Some ch \<Rightarrow> (let (r, ch') = chan_send ch () in (r, Some ch')))
           in case nr of
                Err e \<Rightarrow> (Ready (Err (InboundSendError e)), s1, notify1, w)
              | Panic p \<Rightarrow> (Ready (Panic p), s1, notify1, w)
              | Ok _ \<Rightarrow>
                  (case res of
                     Inr msg \<Rightarrow> (let (r, w1) = handle_inbound_ws E api msg w in (Ready r, s1, notify1, w1))
                   | Inl e \<Rightarrow> (Ready (Err (WebsocketStreamError e)), s1, notify1, w))))"

section \<open>Messages out\<close>

definition write_bytes ::
    "('r, 'x) nym_api \<Rightarrow> 'r \<Rightarrow> u8 list \<Rightarrow> 'x websocket \<Rightarrow>
     (unit, 'x error) outcome poll \<times> out_state \<times> 'x websocket" where
  "write_bytes api recipient message s =
     (case send_poll (Binary (serialize api (Send_request recipient message None))) s of
        (Ready r, o', s1) \<Rightarrow> (Ready (map_err WebsocketStreamError r), o', s1)
      | (Pending, o', s1) \<Rightarrow> (Pending, o', s1))"

text \<open>One poll of \<open>check_outbound\<close>, from where the last poll of the same future left it.\<close>

definition check_outbound ::
    "('p, 'r, 'x) codecs \<Rightarrow> ('r, 'x) nym_api \<Rightarrow> out_state \<Rightarrow> 'x websocket \<Rightarrow>
     ('p, 'r, 'z) net_scheme \<Rightarrow>
     (unit, 'x error) outcome poll \<times> out_state \<times> 'x websocket \<times> ('p, 'r, 'z) net_scheme" where
  "check_outbound E api os s w =
     (case os of
        Receiving \<Rightarrow>
          (let (r, ch) = chan_poll_recv (outbound w); w1 = w\<lparr>outbound := ch\<rparr>
           in case r of
                Pending \<Rightarrow> (Pending, Receiving, s, w1)
              | Ready None \<Rightarrow> (Ready (Err RecvError), Receiving, s, w1)
              | Ready (Some message) \<Rightarrow>
                  (let (r, o', s1) = write_bytes api (om_recipient message)
                         (Message_to_bytes E (om_message message)) s
                   in (r, o', s1, w1)))
      | Writing m \<Rightarrow>
          (case send_poll m s of
             (Ready r, o', s1) \<Rightarrow> (Ready (map_err WebsocketStreamError r), o', s1, w)
           | (Pending, o', s1) \<Rightarrow> (Pending, o', s1, w))
      | Flushing \<Rightarrow>
          (case flush_poll s of
             (Ready r, o') \<Rightarrow> (Ready (map_err WebsocketStreamError r), o', s, w)
           | (Pending, o') \<Rightarrow> (Pending, o', s, w)))"

section \<open>Start\<close>

text \<open>
  The loop of \<open>get_self_address\<close> over what the stream gives; \<open>Pending\<close> when it has waited for more.
\<close>

fun self_address_loop ::
    "('r, 'x) nym_api \<Rightarrow> bool \<Rightarrow> ('x + ws_message) list \<Rightarrow>
     ('r, 'x error) outcome poll \<times> ('x + ws_message) list" where
  "self_address_loop api ended [] = (if ended then Ready (Err RecvError) else Pending, [])"
| "self_address_loop api ended (Inl e # is) = (Ready (Err (WebsocketStreamError e)), is)"
| "self_address_loop api ended (Inr m # is) =
     (case parse_nym_message api m of
        Ok (SelfAddress_response recipient) \<Rightarrow> (Ready (Ok recipient), is)
      | Ok (Error_response e) \<Rightarrow> (Ready (Err (NymMessageError e)), is)
      | Ok _ \<Rightarrow> self_address_loop api ended is
      | Err e \<Rightarrow> (Ready (Err e), is)
      | Panic p \<Rightarrow> (Ready (Panic p), is))"

definition get_self_address ::
    "('r, 'x) nym_api \<Rightarrow> 'x websocket \<Rightarrow> ('r, 'x error) outcome poll \<times> 'x websocket" where
  "get_self_address api s =
     (case send_poll (Binary (serialize api SelfAddress_request)) s of
        (Ready (Ok _), _, s1) \<Rightarrow>
          (let (r, is) = self_address_loop api (ws_ended s1) (ws_incoming s1)
           in (r, s1\<lparr>ws_incoming := is\<rparr>))
      | (Ready (Err e), _, s1) \<Rightarrow> (Ready (Err (WebsocketStreamError e)), s1)
      | (Ready (Panic p), _, s1) \<Rightarrow> (Ready (Panic p), s1)
      | (Pending, _, s1) \<Rightarrow> (Pending, s1))"

text \<open>
  The task \<open>initialize_mixnet\<close> spawns: its websocket, where its outbound future stands, its
  notification channel.
\<close>

record 'x mixnet_task =
  mt_ws :: "'x websocket"
  mt_out :: out_state
  mt_notify :: "unit chan option"

text \<open>
  \<open>initialize_mixnet\<close>, given what \<open>connect_async\<close> returned: our address, the task, and the two new
  channels, which are the node's cells \<open>inbound\<close> and \<open>outbound\<close>.
\<close>

definition initialize_mixnet ::
    "('r, 'x) nym_api \<Rightarrow> 'x + 'x websocket \<Rightarrow> unit chan option \<Rightarrow> ('p, 'r, 'z) mix_net_scheme \<Rightarrow>
     ('r \<times> 'x mixnet_task, 'x error) outcome poll \<times> ('p, 'r, 'z) mix_net_scheme" where
  "initialize_mixnet api connected notify w =
     (case connected of
        Inl e \<Rightarrow> (Ready (Err (WebsocketStreamError e)), w)
      | Inr s \<Rightarrow>
          (case get_self_address api s of
             (Pending, s1) \<Rightarrow> (Pending, w)
           | (Ready (Err e), s1) \<Rightarrow> (Ready (Err e), w)
           | (Ready (Panic p), s1) \<Rightarrow> (Ready (Panic p), w)
           | (Ready (Ok recipient), s1) \<Rightarrow>
               (Ready (Ok (recipient, \<lparr>mt_ws = s1, mt_out = Receiving, mt_notify = notify\<rparr>)),
                w\<lparr>inbound := unbounded_channel, outbound := unbounded_channel\<rparr>)))"

section \<open>The task's loop\<close>

text \<open>The two futures of the loop, polled once.\<close>

definition poll_t1 ::
    "('p, 'r, 'x) codecs \<Rightarrow> ('r, 'x) nym_api \<Rightarrow> 'x mixnet_task \<Rightarrow> ('p, 'r, 'z) mix_net_scheme \<Rightarrow>
     (unit, 'x error) outcome poll \<times> 'x mixnet_task \<times> ('p, 'r, 'z) mix_net_scheme" where
  "poll_t1 E api t w =
     (case check_inbound E api (mt_ws t) (mt_notify t) w of
        (r, s1, n1, w1) \<Rightarrow> (r, t\<lparr>mt_ws := s1, mt_notify := n1\<rparr>, w1))"

definition poll_t2 ::
    "('p, 'r, 'x) codecs \<Rightarrow> ('r, 'x) nym_api \<Rightarrow> 'x mixnet_task \<Rightarrow> ('p, 'r, 'z) net_scheme \<Rightarrow>
     (unit, 'x error) outcome poll \<times> 'x mixnet_task \<times> ('p, 'r, 'z) net_scheme" where
  "poll_t2 E api t w =
     (case check_outbound E api (mt_out t) (mt_ws t) w of
        (r, o1, s1, w1) \<Rightarrow> (r, t\<lparr>mt_out := o1, mt_ws := s1\<rparr>, w1))"

text \<open>
  One poll of the \<open>select!\<close>: it polls its two branches in either order until one completes.  When one
  does, the loop drops both futures and makes new ones, whatever the result was; an item the dropped
  outbound future still held is gone with it.
\<close>

definition mixnet_select ::
    "('p, 'r, 'x) codecs \<Rightarrow> ('r, 'x) nym_api \<Rightarrow> bool \<Rightarrow> 'x mixnet_task \<Rightarrow>
     ('p, 'r, 'z) mix_net_scheme \<Rightarrow>
     (unit, 'x error) outcome poll \<times> 'x mixnet_task \<times> ('p, 'r, 'z) mix_net_scheme" where
  "mixnet_select E api t1_first t w =
     (if t1_first then
        (case poll_t1 E api t w of
           (Ready r, t1, w1) \<Rightarrow> (Ready r, t1\<lparr>mt_out := Receiving\<rparr>, w1)
         | (Pending, t1, w1) \<Rightarrow>
             (case poll_t2 E api t1 w1 of
                (Ready r, t2, w2) \<Rightarrow> (Ready r, t2\<lparr>mt_out := Receiving\<rparr>, w2)
              | (Pending, t2, w2) \<Rightarrow> (Pending, t2, w2)))
      else
        (case poll_t2 E api t w of
           (Ready r, t1, w1) \<Rightarrow> (Ready r, t1\<lparr>mt_out := Receiving\<rparr>, w1)
         | (Pending, t1, w1) \<Rightarrow>
             (case poll_t1 E api t1 w1 of
                (Ready r, t2, w2) \<Rightarrow> (Ready r, t2\<lparr>mt_out := Receiving\<rparr>, w2)
              | (Pending, t2, w2) \<Rightarrow> (Pending, t2, w2))))"

text \<open>
  The loop of the spawned task, as one poll of it runs: round after round until a round is pending.
  Whatever a round returns, an error included, the next one begins.  \<open>order\<close> are the choices of the
  \<open>select!\<close>s.  The loop has no other exit, so that it may run for ever; then its value is \<open>None\<close>.
\<close>

partial_function (option) mixnet_loop ::
    "('p, 'r, 'x) codecs \<Rightarrow> ('r, 'x) nym_api \<Rightarrow> (nat \<Rightarrow> bool) \<Rightarrow> nat \<Rightarrow> 'x mixnet_task \<Rightarrow>
     ('p, 'r, 'z) mix_net_scheme \<Rightarrow> ('x mixnet_task \<times> ('p, 'r, 'z) mix_net_scheme) option" where
  "mixnet_loop E api order k t w =
     (case mixnet_select E api (order k) t w of
        (Ready r, t1, w1) \<Rightarrow> mixnet_loop E api order (Suc k) t1 w1
      | (Pending, t1, w1) \<Rightarrow> Some (t1, w1))"

section \<open>What the task does with the two streams\<close>

text \<open>The message an item of the websocket carries for the transport, if it carries one.\<close>

fun accepted :: "('p, 'r, 'x) codecs \<Rightarrow> ('r, 'x) nym_api \<Rightarrow> 'x + ws_message \<Rightarrow>
    ('p, 'r) InboundMessage list" where
  "accepted E api (Inl e) = []"
| "accepted E api (Inr m) =
     (case parse_nym_message api m of
        Ok (Received_response bs) \<Rightarrow>
          (case parse_message_data E bs of Ok d \<Rightarrow> [d] | _ \<Rightarrow> [])
      | _ \<Rightarrow> [])"

definition accepted_all :: "('p, 'r, 'x) codecs \<Rightarrow> ('r, 'x) nym_api \<Rightarrow> ('x + ws_message) list \<Rightarrow>
    ('p, 'r) InboundMessage list" where
  "accepted_all E api is = concat (map (accepted E api) is)"

lemma accepted_all_simps [simp]:
  "accepted_all E api [] = []"
  "accepted_all E api (i # is) = accepted E api i @ accepted_all E api is"
  "accepted_all E api (is @ js) = accepted_all E api is @ accepted_all E api js"
  by (simp_all add: accepted_all_def)

text \<open>The websocket message for an outbound message, and the one a suspended write holds.\<close>

definition packet :: "('p, 'r, 'x) codecs \<Rightarrow> ('r, 'x) nym_api \<Rightarrow> ('p, 'r) OutboundMessage \<Rightarrow> ws_message" where
  "packet E api m =
     Binary (serialize api (Send_request (om_recipient m) (Message_to_bytes E (om_message m)) None))"

fun held :: "out_state \<Rightarrow> ws_message list" where
  "held (Writing m) = [m]"
| "held _ = []"

text \<open>The outbound pipeline: written, held, waiting; and the inbound one: waiting, still to read.\<close>

definition out_line :: "('p, 'r, 'x) codecs \<Rightarrow> ('r, 'x) nym_api \<Rightarrow> 'x mixnet_task \<Rightarrow>
    ('p, 'r, 'z) net_scheme \<Rightarrow> ws_message list" where
  "out_line E api t w =
     ws_sent (mt_ws t) @ held (mt_out t) @ map (packet E api) (buffer (outbound w))"

definition in_line :: "('p, 'r, 'x) codecs \<Rightarrow> ('r, 'x) nym_api \<Rightarrow> 'x mixnet_task \<Rightarrow>
    ('p, 'r, 'z) mix_net_scheme \<Rightarrow> ('p, 'r) InboundMessage list" where
  "in_line E api t w = buffer (inbound w) @ accepted_all E api (ws_incoming (mt_ws t))"

definition listening :: "'x mixnet_task \<Rightarrow> ('p, 'r, 'z) mix_net_scheme \<Rightarrow> bool" where
  "listening t w \<longleftrightarrow>
     rx_open (inbound w) \<and> (case mt_notify t of None \<Rightarrow> True | Some ch \<Rightarrow> rx_open ch)"

lemma handle_inbound_ws_open:
  "rx_open (inbound w) \<Longrightarrow> \<exists>r. handle_inbound_ws E api m w =
     (r, w\<lparr>inbound := (inbound w)\<lparr>buffer := buffer (inbound w) @ accepted E api (Inr m)\<rparr>\<rparr>)"
  by (auto simp: handle_inbound_ws_def split: outcome.splits ServerResponse.splits)

lemma poll_t1_frame:
  assumes "poll_t1 E api t w = (r, t', w')"
  shows "outbound w' = outbound w \<and> mt_out t' = mt_out t \<and> ws_sent (mt_ws t') = ws_sent (mt_ws t) \<and>
    ws_ready (mt_ws t') = ws_ready (mt_ws t) \<and> ws_fail (mt_ws t') = ws_fail (mt_ws t) \<and>
    (r = Pending \<longrightarrow> t' = t \<and> w' = w)"
  using assms
  by (auto simp: poll_t1_def check_inbound_def ws_next_def handle_inbound_ws_def
      split: prod.splits list.splits option.splits outcome.splits sum.splits ServerResponse.splits
        if_splits)

lemma poll_t1_in_line:
  assumes "listening t w" and "poll_t1 E api t w = (r, t', w')"
  shows "in_line E api t' w' = in_line E api t w \<and> listening t' w'"
proof (cases "ws_incoming (mt_ws t)")
  case Nil
  then show ?thesis
    using assms
    by (cases "ws_ended (mt_ws t)")
      (auto simp: poll_t1_def check_inbound_def ws_next_def in_line_def listening_def)
next
  case (Cons i rest)
  show ?thesis
  proof (cases i)
    case (Inl e)
    then show ?thesis
      using assms Cons
      by (auto simp: poll_t1_def check_inbound_def ws_next_def in_line_def listening_def
          split: option.splits)
  next
    case (Inr m)
    obtain q where "handle_inbound_ws E api m w =
        (q, w\<lparr>inbound := (inbound w)\<lparr>buffer := buffer (inbound w) @ accepted E api (Inr m)\<rparr>\<rparr>)"
      using assms(1) handle_inbound_ws_open [of w E api m] by (auto simp: listening_def)
    then show ?thesis
      using assms Cons Inr
      by (auto simp: poll_t1_def check_inbound_def ws_next_def in_line_def listening_def
          simp del: accepted.simps split: option.splits)
  qed
qed

lemma poll_t2_frame:
  assumes "poll_t2 E api t w = (r, t', w')"
  shows "inbound w' = inbound w \<and> mt_notify t' = mt_notify t \<and>
    ws_incoming (mt_ws t') = ws_incoming (mt_ws t) \<and> ws_ready (mt_ws t') = ws_ready (mt_ws t) \<and>
    ws_fail (mt_ws t') = ws_fail (mt_ws t) \<and> ws_ended (mt_ws t') = ws_ended (mt_ws t)"
  using assms
  by (auto simp: poll_t2_def check_outbound_def write_bytes_def send_poll_def flush_poll_def Let_def
      split: prod.splits poll.splits option.splits out_state.splits if_splits)

text \<open>Nothing is lost by a poll of the outbound future itself; a failed write keeps its item.\<close>

lemma poll_t2_out_line:
  assumes "poll_t2 E api t w = (r, t', w')"
  shows "out_line E api t' w' = out_line E api t w"
  using assms
  by (auto simp: poll_t2_def check_outbound_def write_bytes_def send_poll_def flush_poll_def Let_def
      out_line_def packet_def chan_poll_recv_def
      split: prod.splits poll.splits option.splits out_state.splits if_splits list.splits
      dest: sym [of _ "mt_out t"])

lemma poll_t2_steady:
  assumes "poll_t2 E api t w = (r, t', w')" and "held (mt_out t) = []" and "ws_ready (mt_ws t)"
    and "ws_fail (mt_ws t) = None"
  shows "held (mt_out t') = []"
  using assms
  by (auto simp: poll_t2_def check_outbound_def write_bytes_def send_poll_def flush_poll_def Let_def
      split: prod.splits poll.splits option.splits out_state.splits if_splits)

text \<open>
  One round of the \<open>select!\<close>, either order: the inbound line is kept; the outbound line loses at most
  the item a write held, and nothing when the sink is ready and does not fail.
\<close>

definition reset_out :: "'x mixnet_task \<Rightarrow> 'x mixnet_task" where
  "reset_out t = t\<lparr>mt_out := Receiving\<rparr>"

lemma out_line_reset: "subseq (out_line E api (reset_out t) w) (out_line E api t w)"
  by (simp add: out_line_def reset_out_def subseq_append' subseq_drop_many)

lemma out_line_reset_held: "held (mt_out t) = [] \<Longrightarrow> out_line E api (reset_out t) w = out_line E api t w"
  by (simp add: out_line_def reset_out_def)

lemma in_line_reset [simp]:
  "in_line E api (reset_out t) w = in_line E api t w" "listening (reset_out t) w = listening t w"
  by (simp_all add: in_line_def listening_def reset_out_def)

lemma mixnet_select_cases:
  assumes "mixnet_select E api b t w = (r, t', w')"
  obtains (one) t1 where "poll_t1 E api t w = (r, t1, w')" "t' = reset_out t1"
  | (two) t1 where "poll_t2 E api t w = (r, t1, w')" "t' = reset_out t1"
  | (waiting) "poll_t2 E api t w = (Pending, t', w')" "r = Pending"
  | (two_one) t1 w1 t2 where "poll_t2 E api t w = (Pending, t1, w1)" "poll_t1 E api t1 w1 = (r, t2, w')"
      "t' = reset_out t2"
proof (cases b)
  case True
  obtain r1 t1 w1 where p1: "poll_t1 E api t w = (r1, t1, w1)" using prod_cases3 by blast
  obtain r2 t2 w2 where p2: "poll_t2 E api t w = (r2, t2, w2)" using prod_cases3 by blast
  show thesis
  proof (cases r1)
    case (Ready x)
    then show thesis
      using one [of t1] assms True p1 by (simp add: mixnet_select_def reset_out_def)
  next
    case Pending
    then have p1': "poll_t1 E api t w = (Pending, t, w)" using poll_t1_frame [OF p1] p1 by simp
    show thesis
    proof (cases r2)
      case (Ready x)
      then show thesis
        using two [of t2] assms True p1' p2 by (simp add: mixnet_select_def reset_out_def)
    next
      case Pending
      have "t' = t2" "w' = w2" "r = Pending"
        using assms True p1' p2 Pending by (simp_all add: mixnet_select_def)
      then show thesis using waiting p2 Pending by simp
    qed
  qed
next
  case False
  obtain r1 t1 w1 where p1: "poll_t2 E api t w = (r1, t1, w1)" using prod_cases3 by blast
  obtain r2 t2 w2 where p2: "poll_t1 E api t1 w1 = (r2, t2, w2)" using prod_cases3 by blast
  show thesis
  proof (cases r1)
    case (Ready x)
    then show thesis
      using two [of t1] assms False p1 by (simp add: mixnet_select_def reset_out_def)
  next
    case Pending
    show thesis
    proof (cases r2)
      case (Ready x)
      then show thesis
        using Pending two_one [of t1 w1 t2] assms False p1 p2
        by (simp add: mixnet_select_def reset_out_def)
    next
      case Pending
      have "t' = t1" "w' = w1" "r = Pending"
        using assms False p1 p2 Pending \<open>r1 = Pending\<close> poll_t1_frame [OF p2]
        by (simp_all add: mixnet_select_def)
      then show thesis using waiting p1 \<open>r1 = Pending\<close> by simp
    qed
  qed
qed

lemma poll_t1_out_line:
  "poll_t1 E api t w = (r, t', w') \<Longrightarrow> out_line E api t' w' = out_line E api t w"
  by (drule poll_t1_frame) (simp add: out_line_def)

lemma poll_t2_in_line:
  "poll_t2 E api t w = (r, t', w') \<Longrightarrow>
   in_line E api t' w' = in_line E api t w \<and> listening t' w' = listening t w"
  by (drule poll_t2_frame) (simp add: in_line_def listening_def)

lemma mixnet_select_in_line:
  assumes "mixnet_select E api b t w = (r, t', w')" and "listening t w"
  shows "in_line E api t' w' = in_line E api t w \<and> listening t' w'"
  using assms(1)
proof (cases rule: mixnet_select_cases)
  case (two_one t1 w1 t2)
  then show ?thesis
    using assms(2) poll_t2_in_line [OF two_one(1)] poll_t1_in_line [OF _ two_one(2)] by simp
next
  case (one t1)
  then show ?thesis using poll_t1_in_line [OF assms(2) one(1)] by simp
next
  case (two t1)
  then show ?thesis using poll_t2_in_line [OF two(1)] assms(2) by simp
next
  case waiting
  then show ?thesis using poll_t2_in_line [OF waiting(1)] assms(2) by simp
qed

lemma mixnet_select_out_line:
  assumes "mixnet_select E api b t w = (r, t', w')"
  shows "subseq (out_line E api t' w') (out_line E api t w)"
  using assms
proof (cases rule: mixnet_select_cases)
  case (one t1)
  then show ?thesis using out_line_reset [of E api t1 w'] poll_t1_out_line [OF one(1)] by simp
next
  case (two t1)
  then show ?thesis using out_line_reset [of E api t1 w'] poll_t2_out_line [OF two(1)] by simp
next
  case waiting
  then show ?thesis using poll_t2_out_line [OF waiting(1)] by simp
next
  case (two_one t1 w1 t2)
  then show ?thesis
    using out_line_reset [of E api t2 w'] poll_t1_out_line [OF two_one(2)] poll_t2_out_line [OF two_one(1)]
    by simp
qed

definition steady :: "'x mixnet_task \<Rightarrow> bool" where
  "steady t \<longleftrightarrow> held (mt_out t) = [] \<and> ws_ready (mt_ws t) \<and> ws_fail (mt_ws t) = None"

lemma steady_reset [simp]: "steady t \<Longrightarrow> steady (reset_out t)"
  by (simp add: steady_def reset_out_def)

lemma poll_t1_steady: "poll_t1 E api t w = (r, t', w') \<Longrightarrow> steady t' = steady t"
  by (drule poll_t1_frame) (simp add: steady_def)

lemma poll_t2_keeps_steady:
  fixes w :: "('p, 'r, 'z) mix_net_scheme"
  shows "poll_t2 E api t w = (r, t', w') \<Longrightarrow> steady t \<Longrightarrow> steady t'"
  using poll_t2_frame [of E api t w r t' w'] poll_t2_steady [of E api t w r t' w']
  by (simp add: steady_def)

lemma out_line_reset_steady [simp]: "steady t \<Longrightarrow> out_line E api (reset_out t) w = out_line E api t w"
  by (simp add: out_line_reset_held steady_def)

lemma mixnet_select_steady:
  assumes "mixnet_select E api b t w = (r, t', w')" and "steady t"
  shows "out_line E api t' w' = out_line E api t w \<and> steady t'"
  using assms(1)
proof (cases rule: mixnet_select_cases)
  case (one t1)
  then show ?thesis
    using assms(2) poll_t1_steady [OF one(1)] poll_t1_out_line [OF one(1)] by simp
next
  case (two t1)
  then show ?thesis
    using poll_t2_keeps_steady [OF two(1) assms(2)] poll_t2_out_line [OF two(1)] by simp
next
  case waiting
  then show ?thesis
    using poll_t2_keeps_steady [OF waiting(1) assms(2)] poll_t2_out_line [OF waiting(1)] by simp
next
  case (two_one t1 w1 t2)
  have "steady t2"
    using poll_t2_keeps_steady [OF two_one(1) assms(2)] poll_t1_steady [OF two_one(2)] by simp
  then show ?thesis
    using two_one(3) poll_t1_out_line [OF two_one(2)] poll_t2_out_line [OF two_one(1)] by simp
qed

section \<open>The task in its environment\<close>

text \<open>
  The task runs between the node, which puts messages on the outbound channel and takes them from the
  inbound one, and the websocket.  The logs record what went in: \<open>log_out\<close> the messages the node
  sent, \<open>log_in\<close> the items the websocket gave, \<open>log_taken\<close> the messages the node took.
\<close>

record ('p, 'r, 'x) mix_sys =
  sys_task :: "'x mixnet_task"
  sys_net :: "('p, 'r) mix_net"
  log_out :: "('p, 'r) OutboundMessage list"
  log_in :: "('x + ws_message) list"
  log_taken :: "('p, 'r) InboundMessage list"

definition sys_select :: "('p, 'r, 'x) codecs \<Rightarrow> ('r, 'x) nym_api \<Rightarrow> bool \<Rightarrow> ('p, 'r, 'x) mix_sys \<Rightarrow>
    ('p, 'r, 'x) mix_sys" where
  "sys_select E api b s =
     (case mixnet_select E api b (sys_task s) (sys_net s) of
        (r, t, w) \<Rightarrow> s\<lparr>sys_task := t, sys_net := w\<rparr>)"

definition sys_send :: "('p, 'r) OutboundMessage \<Rightarrow> ('p, 'r, 'x) mix_sys \<Rightarrow> ('p, 'r, 'x) mix_sys" where
  "sys_send m s =
     (case send_outbound (sys_net s) m of
        (Ok _, w) \<Rightarrow> s\<lparr>sys_net := w, log_out := log_out s @ [m]\<rparr>
      | (_, w) \<Rightarrow> s\<lparr>sys_net := w\<rparr>)"

definition sys_take :: "('p, 'r, 'x) mix_sys \<Rightarrow> ('p, 'r, 'x) mix_sys" where
  "sys_take s =
     (case chan_poll_recv (inbound (sys_net s)) of
        (Ready (Some m), ch) \<Rightarrow>
          s\<lparr>sys_net := (sys_net s)\<lparr>inbound := ch\<rparr>, log_taken := log_taken s @ [m]\<rparr>
      | (_, ch) \<Rightarrow> s)"

definition sys_ws :: "('x websocket \<Rightarrow> 'x websocket) \<Rightarrow> ('p, 'r, 'x) mix_sys \<Rightarrow> ('p, 'r, 'x) mix_sys" where
  "sys_ws f s = s\<lparr>sys_task := (sys_task s)\<lparr>mt_ws := f (mt_ws (sys_task s))\<rparr>\<rparr>"

definition sys_arrive :: "'x + ws_message \<Rightarrow> ('p, 'r, 'x) mix_sys \<Rightarrow> ('p, 'r, 'x) mix_sys" where
  "sys_arrive i s = (sys_ws (\<lambda>ws. ws\<lparr>ws_incoming := ws_incoming ws @ [i]\<rparr>) s)\<lparr>log_in := log_in s @ [i]\<rparr>"

definition sys_sink :: "bool \<Rightarrow> bool \<Rightarrow> 'x option \<Rightarrow> ('p, 'r, 'x) mix_sys \<Rightarrow> ('p, 'r, 'x) mix_sys" where
  "sys_sink ready flushed fl = sys_ws (\<lambda>ws. ws\<lparr>ws_ready := ready, ws_flushed := flushed, ws_fail := fl\<rparr>)"

text \<open>
  Every step of the task and of its environment, in any order; with \<open>rel\<close> the sink stays ready and
  does not fail.
\<close>

inductive mix_step ::
    "('p, 'r, 'x) codecs \<Rightarrow> ('r, 'x) nym_api \<Rightarrow> bool \<Rightarrow> ('p, 'r, 'x) mix_sys \<Rightarrow> ('p, 'r, 'x) mix_sys \<Rightarrow> bool"
  for E api rel where
  task: "mix_step E api rel s (sys_select E api b s)"
| node_sends: "mix_step E api rel s (sys_send m s)"
| node_takes: "mix_step E api rel s (sys_take s)"
| arrives: "\<not> ws_ended (mt_ws (sys_task s)) \<Longrightarrow> mix_step E api rel s (sys_arrive i s)"
| ends: "mix_step E api rel s (sys_ws (\<lambda>ws. ws\<lparr>ws_ended := True\<rparr>) s)"
| sink: "(rel \<Longrightarrow> ready \<and> fl = None) \<Longrightarrow> mix_step E api rel s (sys_sink ready flushed fl s)"

inductive_cases mix_stepE: "mix_step E api rel s s'"

lemmas sys_defs = sys_select_def sys_send_def sys_take_def sys_ws_def sys_arrive_def sys_sink_def

text \<open>A system whose task has just been spawned by \<open>initialize_mixnet\<close>.\<close>

definition mix_start :: "('r, 'x) nym_api \<Rightarrow> 'r \<Rightarrow> ('p, 'r, 'x) mix_sys \<Rightarrow> bool" where
  "mix_start api me s \<longleftrightarrow>
     (\<exists>ws w. ws_sent ws = [] \<and>
        initialize_mixnet api (Inr ws) (mt_notify (sys_task s)) w =
          (Ready (Ok (me, sys_task s)), sys_net s)) \<and>
     (case mt_notify (sys_task s) of None \<Rightarrow> True | Some ch \<Rightarrow> rx_open ch) \<and>
     log_out s = [] \<and> log_in s = ws_incoming (mt_ws (sys_task s)) \<and> log_taken s = []"

abbreviation mix_reachable ::
    "('p, 'r, 'x) codecs \<Rightarrow> ('r, 'x) nym_api \<Rightarrow> bool \<Rightarrow> ('p, 'r, 'x) mix_sys \<Rightarrow> ('p, 'r, 'x) mix_sys \<Rightarrow> bool" where
  "mix_reachable E api rel \<equiv> (mix_step E api rel)\<^sup>*\<^sup>*"

lemma get_self_address_sent:
  "get_self_address api s = (Ready (Ok r), s') \<Longrightarrow>
   ws_sent s' = ws_sent s @ [Binary (serialize api SelfAddress_request)] \<and>
   ws_ready s' \<and> ws_fail s' = None"
  by (auto simp: get_self_address_def send_poll_def flush_poll_def Let_def
      split: prod.splits poll.splits outcome.splits option.splits if_splits)

lemma initialize_mixnet_Ok:
  assumes "initialize_mixnet api (Inr ws) n w = (Ready (Ok (me, t)), w')"
  shows "mt_out t = Receiving \<and> mt_notify t = n \<and>
    ws_sent (mt_ws t) = ws_sent ws @ [Binary (serialize api SelfAddress_request)] \<and>
    ws_ready (mt_ws t) \<and> ws_fail (mt_ws t) = None \<and>
    w' = w\<lparr>inbound := unbounded_channel, outbound := unbounded_channel\<rparr>"
  using assms
  by (auto simp: initialize_mixnet_def dest: get_self_address_sent
      split: prod.splits poll.splits outcome.splits)

lemma mix_start_D:
  assumes "mix_start api me s"
  shows "mt_out (sys_task s) = Receiving \<and> ws_ready (mt_ws (sys_task s)) \<and>
    ws_fail (mt_ws (sys_task s)) = None \<and>
    ws_sent (mt_ws (sys_task s)) = [Binary (serialize api SelfAddress_request)] \<and>
    listening (sys_task s) (sys_net s) \<and> buffer (inbound (sys_net s)) = [] \<and>
    buffer (outbound (sys_net s)) = []"
proof -
  obtain ws w where ws: "ws_sent ws = []"
      "initialize_mixnet api (Inr ws) (mt_notify (sys_task s)) w =
        (Ready (Ok (me, sys_task s)), sys_net s)"
    using assms by (auto simp: mix_start_def)
  note i = initialize_mixnet_Ok [OF ws(2)]
  from i have "inbound (sys_net s) = unbounded_channel" "outbound (sys_net s) = unbounded_channel"
    by simp_all
  then show ?thesis
    using i ws(1) assms by (simp add: listening_def mix_start_def unbounded_channel_def)
qed

section \<open>Properties\<close>

text \<open>A Nym client for the witnesses: the first byte tells the kind, the others are the content.\<close>

definition demo_api :: "(u8, unit) nym_api" where
  "demo_api = \<lparr>
     serialize = (\<lambda>q. case q of Send_request r m c \<Rightarrow> 0 # r # m | SelfAddress_request \<Rightarrow> [1]),
     deserialize = (\<lambda>bs. case bs of
        [] \<Rightarrow> Inl ()
      | k # m \<Rightarrow> if k = 0 then Inr (Received_response m)
                 else if k = 1 then Inr (SelfAddress_response (hd (m @ [0]))) else Inr Other_response)\<rparr>"

definition demo_ws :: "(unit + ws_message) list \<Rightarrow> unit websocket" where
  "demo_ws is = \<lparr>ws_incoming = is, ws_ended = False, ws_sent = [], ws_ready = True,
     ws_flushed = True, ws_fail = None\<rparr>"

definition demo_mix_net :: "(u8, u8) mix_net" where
  "demo_mix_net = net.extend net_new \<lparr>inbound = unbounded_channel\<rparr>"

definition demo_task :: "unit mixnet_task" where
  "demo_task = \<lparr>mt_ws = (demo_ws [])\<lparr>ws_sent := [Binary [1]]\<rparr>, mt_out = Receiving, mt_notify = None\<rparr>"

definition demo_sys :: "(u8, u8, unit) mix_sys" where
  "demo_sys = \<lparr>sys_task = demo_task, sys_net = demo_mix_net, log_out = [], log_in = [], log_taken = []\<rparr>"

lemmas demo_mix_defs = demo_api_def demo_ws_def demo_mix_net_def demo_task_def demo_sys_def
  net_new_def net.extend_def unbounded_channel_def

lemma demo_sys_start: "mix_start demo_api 4 demo_sys"
  unfolding mix_start_def
  by (intro conjI exI [of _ "demo_ws [Inr (Binary [2]), Inr (Text [1, 4])]"] exI [of _ demo_mix_net])
    (simp_all add: demo_mix_defs initialize_mixnet_def get_self_address_def send_poll_def
      flush_poll_def parse_nym_message_def)

definition demo_data_out :: "u64 \<Rightarrow> (u8, u8) OutboundMessage" where
  "demo_data_out n = \<lparr>om_message = TransportMsg (demo_data_message n [8]), om_recipient = 3\<rparr>"

definition demo_item :: "unit + ws_message" where
  "demo_item = Inr (Binary (0 # Message_to_bytes demo_codecs (TransportMsg (demo_data_message 1 [8]))))"

lemma demo_accepted [simp]:
  "accepted demo_codecs demo_api demo_item = [InboundMessage (TransportMsg (demo_data_message 1 [8]))]"
proof -
  have "Message_valid (TransportMsg (demo_data_message 1 [8]) :: (u8, u8) Message)"
    by (simp add: TransportMessage_valid_def SubstreamMessage_valid_def demo_data_message_def
        new_with_data_def cid_ok_def sid_ok_def demo_cid_def demo_sid_def)
  then show ?thesis
    by (simp add: demo_item_def parse_nym_message_def demo_api_def parse_message_data_eq
        Message_dec_enc demo_codecs_ok del: Message_to_bytes.simps)
qed

text \<open>An item arrives, then one that is no message, and the task runs once.\<close>

definition demo_sys_in :: "(u8, u8, unit) mix_sys" where
  "demo_sys_in =
     sys_select demo_codecs demo_api True (sys_arrive (Inr OtherWs) (sys_arrive demo_item demo_sys))"

lemma demo_sys_in_reachable: "mix_reachable demo_codecs demo_api True demo_sys demo_sys_in"
proof -
  have "mix_step demo_codecs demo_api True demo_sys (sys_arrive demo_item demo_sys)"
    by (rule mix_step.arrives) (simp add: demo_mix_defs)
  moreover have "mix_step demo_codecs demo_api True (sys_arrive demo_item demo_sys)
      (sys_arrive (Inr OtherWs) (sys_arrive demo_item demo_sys))"
    by (rule mix_step.arrives) (simp add: demo_mix_defs sys_defs)
  ultimately have "mix_reachable demo_codecs demo_api True demo_sys
      (sys_arrive (Inr OtherWs) (sys_arrive demo_item demo_sys))"
    by (rule converse_rtranclp_into_rtranclp [OF _ r_into_rtranclp])
  then show ?thesis
    unfolding demo_sys_in_def by (rule rtranclp.rtrancl_into_rtrancl) (rule mix_step.task)
qed

text \<open>
  (C20) Inbound exactness: after any steps, what the node has taken and what still waits for it is
  exactly what the accepted items of the websocket carried, in their order; items that cannot be
  parsed are skipped and stop nothing.
\<close>

theorem mixnet_inbound_exact:
  assumes "mix_start api me s0" and "mix_reachable E api rel s0 s"
  shows "log_taken s @ buffer (inbound (sys_net s)) @
      accepted_all E api (ws_incoming (mt_ws (sys_task s))) = accepted_all E api (log_in s)"
proof -
  have "log_taken s @ in_line E api (sys_task s) (sys_net s) = accepted_all E api (log_in s) \<and>
      listening (sys_task s) (sys_net s)"
    using assms(2)
  proof (induction rule: rtranclp_induct)
    case base
    then show ?case using mix_start_D [OF assms(1)] assms(1) by (simp add: in_line_def mix_start_def)
  next
    case (step s s')
    from step(2,3) show ?case
    proof cases
      case (task b)
      then show ?thesis
        using step(3) mixnet_select_in_line [of E api b "sys_task s" "sys_net s"]
        by (auto simp: sys_select_def split: prod.splits)
    qed (auto simp: in_line_def listening_def sys_defs send_outbound_def chan_poll_recv_Some
        split: prod.splits outcome.splits poll.splits option.splits)
  qed
  then show ?thesis by (simp add: in_line_def)
qed

theorem mixnet_inbound_exact_witness:
  "log_taken demo_sys_in @ buffer (inbound (sys_net demo_sys_in)) @
     accepted_all demo_codecs demo_api (ws_incoming (mt_ws (sys_task demo_sys_in))) =
   accepted_all demo_codecs demo_api (log_in demo_sys_in)"
  by (rule mixnet_inbound_exact [OF demo_sys_start demo_sys_in_reachable])

text \<open>
  (C21) Outbound order: whatever the sink does, what the task wrote to the websocket is, after the
  request for our address, a subsequence of the node's messages in their order: nothing is invented,
  repeated or reordered.
\<close>

theorem mixnet_outbound_order:
  assumes "mix_start api me s0" and "mix_reachable E api rel s0 s"
  shows "subseq (ws_sent (mt_ws (sys_task s)) @ held (mt_out (sys_task s)) @
      map (packet E api) (buffer (outbound (sys_net s))))
    (Binary (serialize api SelfAddress_request) # map (packet E api) (log_out s))"
proof -
  have "subseq (out_line E api (sys_task s) (sys_net s))
      (Binary (serialize api SelfAddress_request) # map (packet E api) (log_out s))"
    using assms(2)
  proof (induction rule: rtranclp_induct)
    case base
    then show ?case using mix_start_D [OF assms(1)] assms(1) by (simp add: out_line_def mix_start_def)
  next
    case (step s s')
    from step(2,3) show ?case
    proof cases
      case (task b)
      then show ?thesis
        using step(3) mixnet_select_out_line [of E api b "sys_task s" "sys_net s"]
        by (auto simp: sys_select_def intro: subseq_order.trans split: prod.splits)
    next
      case (node_sends m)
      then show ?thesis
        using step(3) list_emb_append_mono [OF step(3), of "[packet E api m]" "[packet E api m]"]
        by (cases "rx_open (outbound (sys_net s))")
          (simp_all add: out_line_def sys_send_def del: subseq_append)
    qed (auto simp: out_line_def sys_defs
        split: prod.splits outcome.splits poll.splits option.splits)
  qed
  then show ?thesis by (simp add: out_line_def)
qed

text \<open>The node sends a message, the sink is not ready, an item arrives while the write is suspended.\<close>

definition demo_sys_writing :: "(u8, u8, unit) mix_sys" where
  "demo_sys_writing =
     sys_arrive (Inr OtherWs)
       (sys_select demo_codecs demo_api True
         (sys_sink False True None (sys_send (demo_data_out 1) demo_sys)))"

lemma demo_sys_writing_reachable: "mix_reachable demo_codecs demo_api False demo_sys demo_sys_writing"
proof -
  let ?s1 = "sys_send (demo_data_out 1) demo_sys"
  let ?s2 = "sys_sink False True None ?s1"
  let ?s3 = "sys_select demo_codecs demo_api True ?s2"
  have "mix_step demo_codecs demo_api False demo_sys ?s1" by (rule mix_step.node_sends)
  moreover have "mix_step demo_codecs demo_api False ?s1 ?s2" by (rule mix_step.sink) simp
  moreover have "mix_step demo_codecs demo_api False ?s2 ?s3" by (rule mix_step.task)
  moreover have "\<not> ws_ended (mt_ws (sys_task ?s3))"
    by (simp add: demo_mix_defs sys_defs mixnet_select_def poll_t1_def poll_t2_def
        check_inbound_def ws_next_def check_outbound_def write_bytes_def send_poll_def
        chan_poll_recv_def)
  then have "mix_step demo_codecs demo_api False ?s3 demo_sys_writing"
    unfolding demo_sys_writing_def by (rule mix_step.arrives)
  ultimately show ?thesis by (meson converse_rtranclp_into_rtranclp r_into_rtranclp)
qed

theorem mixnet_outbound_order_witness:
  "subseq (ws_sent (mt_ws (sys_task demo_sys_writing)) @ held (mt_out (sys_task demo_sys_writing)) @
      map (packet demo_codecs demo_api) (buffer (outbound (sys_net demo_sys_writing))))
    (Binary (serialize demo_api SelfAddress_request) #
      map (packet demo_codecs demo_api) (log_out demo_sys_writing))"
  by (rule mixnet_outbound_order [OF demo_sys_start demo_sys_writing_reachable])

text \<open>
  (C19) Outbound exactness: as long as the sink stays ready and does not fail, every message of the
  node is written, once and in order: written and still waiting messages together are all of them.
\<close>

theorem mixnet_outbound_exact:
  assumes "mix_start api me s0" and "mix_reachable E api True s0 s"
  shows "ws_sent (mt_ws (sys_task s)) @ map (packet E api) (buffer (outbound (sys_net s))) =
    Binary (serialize api SelfAddress_request) # map (packet E api) (log_out s)"
proof -
  have "out_line E api (sys_task s) (sys_net s) =
      Binary (serialize api SelfAddress_request) # map (packet E api) (log_out s) \<and> steady (sys_task s)"
    using assms(2)
  proof (induction rule: rtranclp_induct)
    case base
    then show ?case
      using mix_start_D [OF assms(1)] assms(1) by (simp add: out_line_def mix_start_def steady_def)
  next
    case (step s s')
    from step(2,3) show ?case
    proof cases
      case (task b)
      then show ?thesis
        using step(3) mixnet_select_steady [of E api b "sys_task s" "sys_net s"]
        by (auto simp: sys_select_def split: prod.splits)
    next
      case (node_sends m)
      then show ?thesis
        using step(3)
        by (cases "rx_open (outbound (sys_net s))") (simp_all add: out_line_def sys_send_def)
    qed (auto simp: out_line_def steady_def sys_defs
        split: prod.splits outcome.splits poll.splits option.splits)
  qed
  then show ?thesis by (auto simp: out_line_def steady_def)
qed

theorem mixnet_outbound_exact_witness:
  "ws_sent (mt_ws (sys_task (sys_select demo_codecs demo_api True (sys_send (demo_data_out 1) demo_sys)))) =
   [Binary [1], packet demo_codecs demo_api (demo_data_out 1)]"
proof -
  let ?s1 = "sys_send (demo_data_out 1) demo_sys"
  let ?s2 = "sys_select demo_codecs demo_api True ?s1"
  have "mix_reachable demo_codecs demo_api True demo_sys ?s1"
    by (rule r_into_rtranclp) (rule mix_step.node_sends)
  then have "mix_reachable demo_codecs demo_api True demo_sys ?s2"
    by (rule rtranclp.rtrancl_into_rtrancl) (rule mix_step.task)
  note exact = mixnet_outbound_exact [OF demo_sys_start this]
  have "buffer (outbound (sys_net ?s2)) = []" "log_out ?s2 = [demo_data_out 1]"
    by (simp_all add: demo_mix_defs sys_defs mixnet_select_def poll_t1_def poll_t2_def
        check_inbound_def ws_next_def check_outbound_def write_bytes_def send_poll_def flush_poll_def
        chan_poll_recv_def)
  with exact show ?thesis by (simp add: demo_api_def)
qed

text \<open>
  (C37) A suspended write is lost when the other branch of the \<open>select!\<close> completes first: with an
  item held because the sink is not ready, an incoming item (or the end of the stream) completes the
  inbound branch, and the outbound branch is dropped with the item it held.  The item is neither
  written nor put back on the outbound channel.
\<close>

theorem suspended_write_dropped:
  assumes "mt_out t = Writing m" and "ws_incoming (mt_ws t) \<noteq> [] \<or> ws_ended (mt_ws t)"
    and "ws_fail (mt_ws t) = None" and "\<not> ws_ready (mt_ws t)"
  shows "\<exists>r t' w'. mixnet_select E api b t w = (Ready r, t', w') \<and> mt_out t' = Receiving \<and>
    ws_sent (mt_ws t') = ws_sent (mt_ws t) \<and> outbound w' = outbound w"
proof -
  obtain r1 t1 w1 where p1: "poll_t1 E api t w = (r1, t1, w1)" using prod_cases3 by blast
  have p2: "poll_t2 E api t w = (Pending, t, w)"
    using assms by (simp add: poll_t2_def check_outbound_def send_poll_def)
  have "r1 \<noteq> Pending"
    using p1 assms(2)
    by (auto simp: poll_t1_def check_inbound_def ws_next_def Let_def
        split: list.splits prod.splits outcome.splits sum.splits option.splits)
  then obtain r where "r1 = Ready r" by (cases r1) auto
  then show ?thesis
    using p1 p2 poll_t1_frame [OF p1] by (cases b) (simp_all add: mixnet_select_def)
qed

theorem suspended_write_dropped_witness:
  "\<exists>r t' w'. mixnet_select demo_codecs demo_api False
      (demo_task\<lparr>mt_out := Writing (packet demo_codecs demo_api (demo_data_out 1)),
        mt_ws := (demo_ws [Inr OtherWs])\<lparr>ws_ready := False\<rparr>\<rparr>) demo_mix_net = (Ready r, t', w') \<and>
    mt_out t' = Receiving \<and> ws_sent (mt_ws t') = [] \<and> buffer (outbound w') = []"
  using suspended_write_dropped
    [of "demo_task\<lparr>mt_out := Writing (packet demo_codecs demo_api (demo_data_out 1)),
        mt_ws := (demo_ws [Inr OtherWs])\<lparr>ws_ready := False\<rparr>\<rparr>"
      "packet demo_codecs demo_api (demo_data_out 1)" demo_codecs demo_api False demo_mix_net]
  by (fastforce simp: demo_ws_def demo_mix_net_def net_new_def net.extend_def unbounded_channel_def)

lemma parse_nym_message_safe: "parse_nym_message api m \<noteq> Panic p"
  by (auto simp: parse_nym_message_def dest: arg_cong [of _ _ panics] split: ws_message.splits)

lemma parse_message_data_safe: "parse_message_data E bs \<noteq> Panic p"
  using Message_dec_safe [of E bs] by (auto simp: parse_message_data_eq dest: arg_cong [of _ _ panics])

lemma handle_inbound_ws_safe: "handle_inbound_ws E api m w \<noteq> (Panic p, w')"
  using parse_nym_message_safe [of api m] parse_message_data_safe [of E]
  by (auto simp: handle_inbound_ws_def chan_send_def split: outcome.splits ServerResponse.splits)

lemma poll_t1_safe: "poll_t1 E api t w \<noteq> (Ready (Panic p), t', w')"
  using handle_inbound_ws_safe [of E api]
  by (auto simp: poll_t1_def check_inbound_def ws_next_def chan_send_def Let_def
      split: list.splits prod.splits outcome.splits sum.splits option.splits if_splits)

lemma poll_t2_safe: "poll_t2 E api t w \<noteq> (Ready (Panic p), t', w')"
  by (auto simp: poll_t2_def check_outbound_def write_bytes_def send_poll_def flush_poll_def Let_def
      split: prod.splits poll.splits option.splits out_state.splits if_splits)

lemma poll_t1_ended:
  "ws_incoming (mt_ws t) = [] \<Longrightarrow> ws_ended (mt_ws t) \<Longrightarrow>
   poll_t1 E api t w = (Ready (Err WebsocketStreamReadNone), t, w)"
  by (simp add: poll_t1_def check_inbound_def ws_next_def)

text \<open>
  (C38) The task never panics, whatever comes from the websocket: no item it receives and no message
  it writes can end the loop that connects the node to the mixnet.
\<close>

theorem mixnet_task_never_panics: "fst (mixnet_select E api b t w) \<noteq> Ready (Panic p)"
proof -
  obtain r t' w' where sel: "mixnet_select E api b t w = (r, t', w')" using prod_cases3 by blast
  then have "r \<noteq> Ready (Panic p)"
    by (cases rule: mixnet_select_cases) (use poll_t1_safe poll_t2_safe in blast)+
  with sel show ?thesis by simp
qed

lemma poll_t1_ended_ready:
  "ws_ended (mt_ws t) \<Longrightarrow> poll_t1 E api t w = (r, t', w') \<Longrightarrow> ws_ended (mt_ws t') \<and> r \<noteq> Pending"
  by (auto simp: poll_t1_def check_inbound_def ws_next_def Let_def
      split: list.splits prod.splits outcome.splits sum.splits option.splits)

lemma select_ended:
  assumes "ws_ended (mt_ws t)" and "mixnet_select E api b t w = (r, t', w')"
  shows "ws_ended (mt_ws t') \<and> r \<noteq> Pending"
proof -
  obtain r1 t1 w1 where p1: "poll_t1 E api t w = (r1, t1, w1)" using prod_cases3 by blast
  obtain r2 t2 w2 where p2: "poll_t2 E api t w = (r2, t2, w2)" using prod_cases3 by blast
  obtain r3 t3 w3 where p3: "poll_t1 E api t2 w2 = (r3, t3, w3)" using prod_cases3 by blast
  have e1: "ws_ended (mt_ws t1)" "r1 \<noteq> Pending" using poll_t1_ended_ready [OF assms(1) p1] by auto
  have e2: "ws_ended (mt_ws t2)" using poll_t2_frame [OF p2] assms(1) by simp
  have e3: "ws_ended (mt_ws t3)" "r3 \<noteq> Pending" using poll_t1_ended_ready [OF e2 p3] by auto
  show ?thesis
    using assms(2) p1 p2 p3 e1 e2 e3
    by (cases b; cases r1; cases r2; cases r3) (auto simp: mixnet_select_def)
qed

lemma loop_ended:
  assumes "mixnet_loop E api order k t w = Some y"
  shows "\<not> ws_ended (mt_ws t)"
  using assms
proof (rule mixnet_loop.raw_induct [where P = "\<lambda>E api order k t w y. \<not> ws_ended (mt_ws t)", rotated])
  fix loop E api order k t w y
  assume IH: "\<And>E api order k t w y. loop E api order k t w = Some y \<Longrightarrow> \<not> ws_ended (mt_ws t)"
    and y: "(case mixnet_select E api (order k) t w of
        (Ready r, t1, w1) \<Rightarrow> loop E api order (Suc k) t1 w1
      | (Pending, t1, w1) \<Rightarrow> Some (t1, w1)) = Some y"
  obtain r t1 w1 where s: "mixnet_select E api (order k) t w = (r, t1, w1)" using prod_cases3 by blast
  show "\<not> ws_ended (mt_ws t)"
  proof
    assume e: "ws_ended (mt_ws t)"
    show False using IH y select_ended [OF e s] s by (cases r) auto
  qed
qed

text \<open>The rounds that are still to come when nothing new arrives.\<close>

definition task_work :: "'x mixnet_task \<Rightarrow> ('p, 'r, 'z) net_scheme \<Rightarrow> nat" where
  "task_work t w = length (ws_incoming (mt_ws t)) + length (buffer (outbound w)) + (if mt_out t = Receiving then 0 else 1)"

lemma poll_t1_work:
  assumes "poll_t1 E api t w = (r, t', w')" and "\<not> ws_ended (mt_ws t)"
  shows "\<not> ws_ended (mt_ws t') \<and> outbound w' = outbound w \<and> mt_out t' = mt_out t \<and>
    (r \<noteq> Pending \<longrightarrow> Suc (length (ws_incoming (mt_ws t'))) = length (ws_incoming (mt_ws t))) \<and>
    (r = Pending \<longrightarrow> t' = t \<and> w' = w)"
  using assms
  by (auto simp: poll_t1_def check_inbound_def ws_next_def handle_inbound_ws_def Let_def
      split: list.splits prod.splits outcome.splits sum.splits option.splits ServerResponse.splits)

lemma poll_t2_work:
  assumes "poll_t2 E api t w = (r, t', w')" and "tx_open (outbound w)"
  shows "tx_open (outbound w') \<and> ws_incoming (mt_ws t') = ws_incoming (mt_ws t) \<and>
    ws_ended (mt_ws t') = ws_ended (mt_ws t) \<and> task_work t' w' \<le> task_work t w \<and>
    (r \<noteq> Pending \<longrightarrow> task_work (reset_out t') w' < task_work t w)"
  using assms
  by (auto simp: poll_t2_def check_outbound_def write_bytes_def send_poll_def flush_poll_def chan_poll_recv_def
      task_work_def reset_out_def Let_def
      split: prod.splits poll.splits option.splits out_state.splits list.splits if_splits)

lemma select_work:
  assumes "mixnet_select E api b t w = (Ready x, t', w')" and "tx_open (outbound w)" and "\<not> ws_ended (mt_ws t)"
  shows "task_work t' w' < task_work t w \<and> tx_open (outbound w') \<and> \<not> ws_ended (mt_ws t')"
  using assms(1)
proof (cases rule: mixnet_select_cases)
  case (one t1)
  then show ?thesis
    using poll_t1_work [OF one(1) assms(3)] assms(2) by (auto simp: task_work_def reset_out_def)
next
  case (two t1)
  then show ?thesis
    using poll_t2_work [OF two(1) assms(2)] assms(3) by (auto simp: reset_out_def)
next
  case (two_one t1 w1 t2)
  note p = poll_t2_work [OF two_one(1) assms(2)]
  then have "\<not> ws_ended (mt_ws t1)" using assms(3) by simp
  with p show ?thesis
    using poll_t1_work [OF two_one(2)] two_one(3) by (auto simp: task_work_def reset_out_def split: if_splits)
qed simp



text \<open>
  Start-up: on a websocket that takes the request, \<open>get_self_address\<close> skips every response that
  is neither an address nor an error and returns the first address; the skipped responses, received
  messages among them, are gone.
\<close>

lemma get_self_address_skips:
  assumes "ws_ready s" and "ws_flushed s" and "ws_fail s = None"
    and "ws_incoming s = map Inr ms @ Inr m # rest"
    and "parse_nym_message api m = Ok (SelfAddress_response me)"
    and "list_all (\<lambda>m. case parse_nym_message api m of
           Ok (Received_response bs) \<Rightarrow> True | Ok Other_response \<Rightarrow> True | _ \<Rightarrow> False) ms"
  shows "get_self_address api s =
    (Ready (Ok me), s\<lparr>ws_sent := ws_sent s @ [Binary (serialize api SelfAddress_request)],
                      ws_incoming := rest\<rparr>)"
proof -
  have "self_address_loop api (ws_ended s) (map Inr ms @ Inr m # rest) = (Ready (Ok me), rest)"
    using assms(6)
    by (induction ms) (auto simp: assms(5) split: outcome.splits ServerResponse.splits)
  then show ?thesis
    using assms by (simp add: get_self_address_def send_poll_def flush_poll_def)
qed

end
