(* ===== verification/Transports.thy ===== *)
theory Transports
  imports Connections Message_Queue Mixnet
begin

text \<open>
  \<open>transport.rs\<close>: the transport dials, accepts and demultiplexes connections.  It keeps, for every
  connection, the address of the channel into the connection and the queue that restores the order
  of its messages.  The channel of transport events, whose two ends the transport holds itself, is a
  field of its record.  The formats of multiaddresses and Nym addresses and the peer identifier of a
  keypair come from other crates and are the argument \<open>A\<close> of the operations.
\<close>

section \<open>Addresses\<close>

text \<open>A component of a multiaddress; the source only looks for the Nym component.\<close>

datatype protocol = Nym string | Other_protocol

record ('k, 'p, 'r, 'm, 'x) addressing =
  peer_id_of :: "'k \<Rightarrow> 'p"
  Recipient_display :: "'r \<Rightarrow> string"
  Recipient_from_str :: "string \<Rightarrow> 'x + 'r"
  Multiaddr_from_str :: "string \<Rightarrow> 'x + 'm"
  Multiaddr_pop :: "'m \<Rightarrow> protocol option"

definition nym_address_to_multiaddress ::
    "('k, 'p, 'r, 'm, 'x) addressing \<Rightarrow> 'r \<Rightarrow> ('m, 'x error) outcome" where
  "nym_address_to_multiaddress A addr =
     map_err FailedToFormatMultiaddr (of_sum (Multiaddr_from_str A (''/nym/'' @ Recipient_display A addr)))"

definition multiaddress_to_nym_address ::
    "('k, 'p, 'r, 'm, 'x) addressing \<Rightarrow> 'm \<Rightarrow> ('r, 'x error) outcome" where
  "multiaddress_to_nym_address A multiaddr =
     (case Multiaddr_pop A multiaddr of
        None \<Rightarrow> Panic ''called Option::unwrap() on a None value''
      | Some (Nym addr) \<Rightarrow> map_err InvalidRecipientBytes (of_sum (Recipient_from_str A addr))
      | Some _ \<Rightarrow> Err InvalidProtocolForMultiaddr)"

section \<open>State\<close>

text \<open>
  The oneshot channels between the transport and the futures it gives out join the shared cells:
  one per dial, one per accepted connection.
\<close>

record ('p, 'r) node_net = "('p, 'r) mix_net" +
  dial_shots :: "addr \<rightharpoonup> ('p, 'r) Connection oneshot"
  upgrade_shots :: "addr \<rightharpoonup> ('p \<times> ('p, 'r) Connection) oneshot"

datatype Upgrade = Upgrade (upgrade_rx: addr)

datatype InboundTransportEvent =
    ConnectionRequestEvent Upgrade | ConnectionResponseEvent | TransportMessageEvent

text \<open>The events of libp2p's \<open>TransportEvent\<close> that the source makes.\<close>

datatype ('m, 'x) TransportEvent =
    NewAddress nat 'm
  | ListenerClosed nat "(unit, 'x error) outcome"
  | Incoming nat Upgrade 'm 'm
  | ListenerError nat "'x error"

record ('k, 'r, 'm, 'x) NymTransport =
  self_address :: 'r
  listen_addr :: 'm
  listener_id :: nat
  keypair :: 'k
  connections :: "ConnectionId \<rightharpoonup> addr"
  pending_dials :: "ConnectionId \<rightharpoonup> 'r PendingConnection"
  message_queues :: "ConnectionId \<rightharpoonup> MessageQueue"
  poll_chan :: "('m, 'x) TransportEvent chan"
  t_waker :: "nat option"
  handshake_timeout :: nat

text \<open>Durations are in nanoseconds.\<close>

definition DEFAULT_HANDSHAKE_TIMEOUT_SECS :: nat where
  "DEFAULT_HANDSHAKE_TIMEOUT_SECS = 5"

definition from_secs :: "nat \<Rightarrow> nat" where
  "from_secs s = s * 1000000000"

section \<open>Making a transport\<close>

text \<open>
  \<open>new_maybe_with_notify_inbound\<close>, given what \<open>connect_async\<close> returned and the number that
  \<open>ListenerId::new\<close> gives; besides the transport the result holds the spawned mixnet task.
\<close>

definition new_maybe_with_notify_inbound ::
    "('k, 'p, 'r, 'm, 'x) addressing \<Rightarrow> ('r, 'x) nym_api \<Rightarrow> nat \<Rightarrow> 'x + 'x websocket \<Rightarrow> 'k \<Rightarrow>
     unit chan option \<Rightarrow> nat option \<Rightarrow> ('p, 'r, 'z) mix_net_scheme \<Rightarrow>
     (('k, 'r, 'm, 'x) NymTransport \<times> 'x mixnet_task, 'x error) outcome poll \<times>
     ('p, 'r, 'z) mix_net_scheme" where
  "new_maybe_with_notify_inbound A api lid connected kp notify_inbound_tx timeout w =
     (case initialize_mixnet api connected notify_inbound_tx w of
        (Pending, w1) \<Rightarrow> (Pending, w1)
      | (Ready (Err e), w1) \<Rightarrow> (Ready (Err e), w1)
      | (Ready (Panic p), w1) \<Rightarrow> (Ready (Panic p), w1)
      | (Ready (Ok (me, task)), w1) \<Rightarrow>
          (case nym_address_to_multiaddress A me of
             Err e \<Rightarrow> (Ready (Err e), w1)
           | Panic p \<Rightarrow> (Ready (Panic p), w1)
           | Ok laddr \<Rightarrow>
               (case chan_send unbounded_channel (NewAddress lid laddr) of
                  (Ok _, ch) \<Rightarrow>
                    (Ready (Ok
                      (\<lparr>self_address = me, listen_addr = laddr, listener_id = lid, keypair = kp,
                        connections = Map.empty, pending_dials = Map.empty,
                        message_queues = Map.empty, poll_chan = ch, t_waker = None,
                        handshake_timeout =
                          (case timeout of Some d \<Rightarrow> d
                           | None \<Rightarrow> from_secs DEFAULT_HANDSHAKE_TIMEOUT_SECS)\<rparr>, task)), w1)
                | (Panic p, ch) \<Rightarrow> (Ready (Panic p), w1)
                | (Err e, ch) \<Rightarrow> (Ready (Err SendErrorTransportEvent), w1))))"

definition NymTransport_new ::
    "('k, 'p, 'r, 'm, 'x) addressing \<Rightarrow> ('r, 'x) nym_api \<Rightarrow> nat \<Rightarrow> 'x + 'x websocket \<Rightarrow> 'k \<Rightarrow>
     ('p, 'r, 'z) mix_net_scheme \<Rightarrow>
     (('k, 'r, 'm, 'x) NymTransport \<times> 'x mixnet_task, 'x error) outcome poll \<times>
     ('p, 'r, 'z) mix_net_scheme" where
  "NymTransport_new A api lid connected kp = new_maybe_with_notify_inbound A api lid connected kp None None"

definition new_with_timeout ::
    "('k, 'p, 'r, 'm, 'x) addressing \<Rightarrow> ('r, 'x) nym_api \<Rightarrow> nat \<Rightarrow> 'x + 'x websocket \<Rightarrow> 'k \<Rightarrow> nat \<Rightarrow>
     ('p, 'r, 'z) mix_net_scheme \<Rightarrow>
     (('k, 'r, 'm, 'x) NymTransport \<times> 'x mixnet_task, 'x error) outcome poll \<times>
     ('p, 'r, 'z) mix_net_scheme" where
  "new_with_timeout A api lid connected kp timeout =
     new_maybe_with_notify_inbound A api lid connected kp None (Some timeout)"

definition with_timeout ::
    "nat \<Rightarrow> ('k, 'r, 'm, 'x) NymTransport \<Rightarrow> ('k, 'r, 'm, 'x) NymTransport" where
  "with_timeout timeout t = t\<lparr>handshake_timeout := timeout\<rparr>"

definition peer_id ::
    "('k, 'p, 'r, 'm, 'x) addressing \<Rightarrow> ('k, 'r, 'm, 'x) NymTransport \<Rightarrow> 'p" where
  "peer_id A t = peer_id_of A (keypair t)"

definition create_connection_types ::
    "'p \<Rightarrow> 'r \<Rightarrow> ConnectionId \<Rightarrow> ('p, 'r, 'z) net_scheme \<Rightarrow>
     ('p, 'r) Connection \<times> addr \<times> ('p, 'r, 'z) net_scheme" where
  "create_connection_types remote_peer_id recipient cid w =
     (let (inb, w1) = new_conn_chan w;
          (conn, w2) = Connection_new remote_peer_id recipient cid inb w1
      in (conn, inb, w2))"

section \<open>Inbound messages\<close>

text \<open>
  The loop \<open>while let Some(msg) = queue.pop()\<close> that both callers have: the due messages go into the
  connection's channel; a closed channel ends it with an error.
\<close>

function drain_queue ::
    "MessageQueue \<Rightarrow> addr \<Rightarrow> ('p, 'r, 'z) net_scheme \<Rightarrow>
     (unit, 'x error) outcome \<times> MessageQueue \<times> ('p, 'r, 'z) net_scheme" where
  "drain_queue q inbound_tx w =
     (case pop q of
        (None, q1) \<Rightarrow> (Ok (), q1, w)
      | (Some msg, q1) \<Rightarrow>
          (case send_conn w inbound_tx (tm_message msg) of
             (Ok _, w1) \<Rightarrow> drain_queue q1 inbound_tx w1
           | (Err e, w1) \<Rightarrow> (Err (InboundSendError e), q1, w1)
           | (Panic p, w1) \<Rightarrow> (Panic p, q1, w1)))"
  by pat_completeness auto
termination
  by (relation "measure (\<lambda>(q, a, w). length (queue q))") (auto dest: pop_shorter)

declare drain_queue.simps [simp del]

text \<open>
  A connection that is dropped: the receiver of its messages and the senders to its substreams go,
  and with its channel of inbound substreams the substreams nobody has taken.
\<close>

definition Connection_drop ::
    "('p, 'r) Connection \<Rightarrow> ('p, 'r, 'z) net_scheme \<Rightarrow> ('p, 'r, 'z) net_scheme" where
  "Connection_drop c w =
     fold Substream_drop (buffer (inbound_open c))
       (w\<lparr>conn_chans := (conn_chans w)
             (c_inbound_rx c := map_option chan_drop_rx (conn_chans w (c_inbound_rx c))),
          data_chans := (\<lambda>a. if a \<in> ran (substream_inbound_txs c)
             then map_option chan_drop_tx (data_chans w a) else data_chans w a),
          close_shots := (\<lambda>a. if a \<in> ran (substream_close_txs c)
             then map_option oneshot_drop_tx (close_shots w a) else close_shots w a)\<rparr>)"

definition handle_message_queue_on_connection_initiation ::
    "('k, 'r, 'm, 'x) NymTransport \<Rightarrow> ConnectionId \<Rightarrow> ('p, 'r, 'z) net_scheme \<Rightarrow>
     (unit, 'x error) outcome \<times> ('k, 'r, 'm, 'x) NymTransport \<times> ('p, 'r, 'z) net_scheme" where
  "handle_message_queue_on_connection_initiation t cid w =
     (case connections t cid of
        None \<Rightarrow> (Err NoConnectionForTransportMessage, t, w)
      | Some inbound_tx \<Rightarrow>
          (case message_queues t cid of
             Some q \<Rightarrow>
               (case set_connection_message_received q of
                  Ok q1 \<Rightarrow>
                    (let (r, q2, w1) = drain_queue q1 inbound_tx w
                     in (r, t\<lparr>message_queues := (message_queues t)(cid \<mapsto> q2)\<rparr>, w1))
                | Err e \<Rightarrow> (Err e, t, w)
                | Panic p \<Rightarrow> (Panic p, t, w))
           | None \<Rightarrow>
               (let t1 = t\<lparr>message_queues := (message_queues t)(cid \<mapsto> MessageQueue_new)\<rparr>
                in case set_connection_message_received MessageQueue_new of
                     Ok q1 \<Rightarrow> (Ok (), t1\<lparr>message_queues := (message_queues t1)(cid \<mapsto> q1)\<rparr>, w)
                   | Err e \<Rightarrow> (Err e, t1, w)
                   | Panic p \<Rightarrow> (Panic p, t1, w))))"

text \<open>\<open>pending_conn.connection_tx.send(conn)\<close>: the error gives the connection back.\<close>

definition send_dial ::
    "('p, 'r, 'z) node_net_scheme \<Rightarrow> addr \<Rightarrow> ('p, 'r) Connection \<Rightarrow>
     (unit, ('p, 'r) Connection) outcome \<times> ('p, 'r, 'z) node_net_scheme" where
  "send_dial w a conn =
     (case dial_shots w a of
        None \<Rightarrow> (Err conn, w)
      | Some s \<Rightarrow> (let (r, s') = oneshot_send s conn in (r, w\<lparr>dial_shots := (dial_shots w)(a \<mapsto> s')\<rparr>)))"

definition handle_connection_response ::
    "('k, 'r, 'm, 'x) NymTransport \<Rightarrow> ('p, 'r) ConnectionMessage \<Rightarrow> ('p, 'r, 'z) node_net_scheme \<Rightarrow>
     (unit, 'x error) outcome \<times> ('k, 'r, 'm, 'x) NymTransport \<times> ('p, 'r, 'z) node_net_scheme" where
  "handle_connection_response t msg w =
     (if connections t (cm_id msg) \<noteq> None then (Err ConnectionAlreadyEstablished, t, w)
      else
        (case pending_dials t (cm_id msg) of
           None \<Rightarrow> (Err NoConnectionForResponse, t, w)
         | Some pending_conn \<Rightarrow>
             (let t1 = t\<lparr>pending_dials := (pending_dials t)(cm_id msg := None)\<rparr>;
                  (conn, conn_tx, w1) = create_connection_types (cm_peer_id msg)
                     (pc_remote_recipient pending_conn) (cm_id msg) w;
                  t2 = t1\<lparr>connections := (connections t1)(cm_id msg \<mapsto> conn_tx)\<rparr>
              in case handle_message_queue_on_connection_initiation t2 (cm_id msg) w1 of
                   (Err e, t3, w2) \<Rightarrow>
                     (Err e, t3, Connection_drop conn (w2\<lparr>dial_shots := (dial_shots w2)
                        (pc_connection_tx pending_conn :=
                           map_option oneshot_drop_tx (dial_shots w2 (pc_connection_tx pending_conn)))\<rparr>))
                 | (Panic p, t3, w2) \<Rightarrow> (Panic p, t3, w2)
                 | (Ok _, t3, w2) \<Rightarrow>
                     (case send_dial w2 (pc_connection_tx pending_conn) conn of
                        (Err conn', w3) \<Rightarrow> (Err ConnectionSendError, t3, Connection_drop conn' w3)
                      | (Panic p, w3) \<Rightarrow> (Panic p, t3, w3)
                      | (Ok _, w3) \<Rightarrow> (Ok (), t3\<lparr>t_waker := None\<rparr>, wake_taken (t_waker t3) w3)))))"

definition handle_connection_request ::
    "('k, 'p, 'r, 'm, 'x) addressing \<Rightarrow> ('k, 'r, 'm, 'x) NymTransport \<Rightarrow>
     ('p, 'r) ConnectionMessage \<Rightarrow> ('p, 'r, 'z) net_scheme \<Rightarrow>
     (('p, 'r) Connection, 'x error) outcome \<times> ('k, 'r, 'm, 'x) NymTransport \<times>
     ('p, 'r, 'z) net_scheme" where
  "handle_connection_request A t msg w =
     (case cm_recipient msg of
        None \<Rightarrow> (Err NoneRecipientInConnectionRequest, t, w)
      | Some recipient \<Rightarrow>
          (if connections t (cm_id msg) \<noteq> None then (Err ConnectionIDExists, t, w)
           else
             (let (conn, conn_tx, w1) = create_connection_types (cm_peer_id msg) recipient (cm_id msg) w;
                  t1 = t\<lparr>connections := (connections t)(cm_id msg \<mapsto> conn_tx)\<rparr>
              in case handle_message_queue_on_connection_initiation t1 (cm_id msg) w1 of
                   (Err e, t2, w2) \<Rightarrow> (Err e, t2, Connection_drop conn w2)
                 | (Panic p, t2, w2) \<Rightarrow> (Panic p, t2, w2)
                 | (Ok _, t2, w2) \<Rightarrow>
                     (case send_outbound w2
                        \<lparr>om_message = ConnectionResponse
                           \<lparr>cm_peer_id = peer_id A t2, cm_id = cm_id msg, cm_recipient = None\<rparr>,
                         om_recipient = recipient\<rparr> of
                        (Err e, w3) \<Rightarrow> (Err (OutboundSendError e), t2, Connection_drop conn w3)
                      | (Panic p, w3) \<Rightarrow> (Panic p, t2, w3)
                      | (Ok _, w3) \<Rightarrow> (Ok conn, t2\<lparr>t_waker := None\<rparr>, wake_taken (t_waker t2) w3)))))"

text \<open>
  \<open>handle_transport_message\<close>.  At its end \<open>self.waker.clone().take()\<close> wakes a copy of the waker and
  leaves the field as it is.
\<close>

definition handle_transport_message ::
    "('k, 'r, 'm, 'x) NymTransport \<Rightarrow> TransportMessage \<Rightarrow> ('p, 'r, 'z) net_scheme \<Rightarrow>
     (unit, 'x error) outcome \<times> ('k, 'r, 'm, 'x) NymTransport \<times> ('p, 'r, 'z) net_scheme" where
  "handle_transport_message t msg w =
     (let q = (case message_queues t (tm_id msg) of Some q \<Rightarrow> q | None \<Rightarrow> MessageQueue_new);
          (pushed, q1) = try_push q msg;
          t1 = t\<lparr>message_queues := (message_queues t)(tm_id msg \<mapsto> q1)\<rparr>
      in case pushed of
           None \<Rightarrow> (Ok (), t1, w)
         | Some msg1 \<Rightarrow>
             (case connections t1 (tm_id msg1) of
                None \<Rightarrow> (Err NoConnectionForTransportMessage, t1, w)
              | Some inbound_tx \<Rightarrow>
                  (case send_conn w inbound_tx (tm_message msg1) of
                     (Err e, w1) \<Rightarrow> (Err (InboundSendError e), t1, w1)
                   | (Panic p, w1) \<Rightarrow> (Panic p, t1, w1)
                   | (Ok _, w1) \<Rightarrow>
                       (let (r, q2, w2) = drain_queue q1 inbound_tx w1;
                            t2 = t1\<lparr>message_queues := (message_queues t1)(tm_id msg \<mapsto> q2)\<rparr>
                        in case r of
                             Err e \<Rightarrow> (Err e, t2, w2)
                           | Panic p \<Rightarrow> (Panic p, t2, w2)
                           | Ok _ \<Rightarrow> (Ok (), t2, wake_taken (t_waker t2) w2)))))"

definition new_upgrade_shot ::
    "('p, 'r, 'z) node_net_scheme \<Rightarrow> addr \<times> ('p, 'r, 'z) node_net_scheme" where
  "new_upgrade_shot w =
     (fresh w, w\<lparr>upgrade_shots := (upgrade_shots w)(fresh w \<mapsto> Waiting), fresh := Suc (fresh w)\<rparr>)"

definition send_upgrade ::
    "('p, 'r, 'z) node_net_scheme \<Rightarrow> addr \<Rightarrow> 'p \<times> ('p, 'r) Connection \<Rightarrow>
     (unit, 'p \<times> ('p, 'r) Connection) outcome \<times> ('p, 'r, 'z) node_net_scheme" where
  "send_upgrade w a x =
     (case upgrade_shots w a of
        None \<Rightarrow> (Err x, w)
      | Some s \<Rightarrow> (let (r, s') = oneshot_send s x in (r, w\<lparr>upgrade_shots := (upgrade_shots w)(a \<mapsto> s')\<rparr>)))"

definition Upgrade_new :: "addr \<Rightarrow> Upgrade" where
  "Upgrade_new rx = Upgrade rx"

definition Upgrade_poll ::
    "Upgrade \<Rightarrow> ('p, 'r, 'z) node_net_scheme \<Rightarrow>
     ('p \<times> ('p, 'r) Connection, 'x error) outcome poll \<times> ('p, 'r, 'z) node_net_scheme" where
  "Upgrade_poll u w =
     (case upgrade_shots w (upgrade_rx u) of
        None \<Rightarrow> (Ready (Err RecvError), w)
      | Some s \<Rightarrow>
          (let (r, s') = oneshot_poll s; w1 = w\<lparr>upgrade_shots := (upgrade_shots w)(upgrade_rx u \<mapsto> s')\<rparr>
           in case r of
                Pending \<Rightarrow> (Pending, w1)
              | Ready x \<Rightarrow> (Ready (map_err (\<lambda>_. RecvError) x), w1)))"

definition handle_inbound ::
    "('k, 'p, 'r, 'm, 'x) addressing \<Rightarrow> ('k, 'r, 'm, 'x) NymTransport \<Rightarrow> ('p, 'r) Message \<Rightarrow>
     ('p, 'r, 'z) node_net_scheme \<Rightarrow>
     (InboundTransportEvent, 'x error) outcome \<times> ('k, 'r, 'm, 'x) NymTransport \<times>
     ('p, 'r, 'z) node_net_scheme" where
  "handle_inbound A t msg w =
     (case msg of
        ConnectionRequest inner \<Rightarrow>
          (case handle_connection_request A t inner w of
             (Ok conn, t1, w1) \<Rightarrow>
               (let (a, w2) = new_upgrade_shot w1; upgrade = Upgrade_new a
                in case send_upgrade w2 a (cm_peer_id inner, conn) of
                     (Ok _, w3) \<Rightarrow> (Ok (ConnectionRequestEvent upgrade), t1, w3)
                   | (Err x, w3) \<Rightarrow> (Err ConnectionSendError, t1, Connection_drop (snd x) w3)
                   | (Panic p, w3) \<Rightarrow> (Panic p, t1, w3))
           | (Err e, t1, w1) \<Rightarrow> (Err e, t1, w1)
           | (Panic p, t1, w1) \<Rightarrow> (Panic p, t1, w1))
      | ConnectionResponse msg1 \<Rightarrow>
          (case handle_connection_response t msg1 w of
             (r, t1, w1) \<Rightarrow> (map_ok (\<lambda>_. ConnectionResponseEvent) r, t1, w1))
      | TransportMsg msg1 \<Rightarrow>
          (case handle_transport_message t msg1 w of
             (r, t1, w1) \<Rightarrow> (map_ok (\<lambda>_. TransportMessageEvent) r, t1, w1)))"

section \<open>The operations of the Transport trait\<close>

definition listen_on ::
    "('k, 'r, 'm, 'x) NymTransport \<Rightarrow> 'm \<Rightarrow> (nat, 'x error) outcome" where
  "listen_on t addr = Ok (listener_id t)"

definition remove_listener ::
    "('k, 'r, 'm, 'x) NymTransport \<Rightarrow> nat \<Rightarrow>
     (bool, unit) outcome \<times> ('k, 'r, 'm, 'x) NymTransport" where
  "remove_listener t lid =
     (if listener_id t \<noteq> lid then (Ok False, t)
      else
        (case chan_send (poll_chan t) (ListenerClosed lid (Ok ())) of
           (Ok _, ch) \<Rightarrow> (Ok True, t\<lparr>poll_chan := ch\<rparr>)
         | (_, ch) \<Rightarrow> (Panic ''failed to send listener closed event'', t\<lparr>poll_chan := ch\<rparr>)))"

text \<open>
  The future \<open>dial\<close> returns: not yet polled (with the values the \<open>async\<close> block has captured), waiting
  for the connection until a deadline, or completed.
\<close>

datatype ('p, 'r) DialFuture =
    DialStart "('p, 'r) ConnectionMessage" 'r "nat option" nat addr
  | DialWaiting nat addr
  | DialDone

definition new_dial_shot ::
    "('p, 'r, 'z) node_net_scheme \<Rightarrow> addr \<times> ('p, 'r, 'z) node_net_scheme" where
  "new_dial_shot w =
     (fresh w, w\<lparr>dial_shots := (dial_shots w)(fresh w \<mapsto> Waiting), fresh := Suc (fresh w)\<rparr>)"

text \<open>
  Dropping the receiver of a dial or of an upgrade: a connection that waits in the channel is dropped
  with it.  A future that is dropped drops the receiver it holds.
\<close>

definition drop_dial_rx ::
    "addr \<Rightarrow> ('p, 'r, 'z) node_net_scheme \<Rightarrow> ('p, 'r, 'z) node_net_scheme" where
  "drop_dial_rx shot w =
     (case dial_shots w shot of
        None \<Rightarrow> w
      | Some s \<Rightarrow>
          (let w1 = w\<lparr>dial_shots := (dial_shots w)(shot \<mapsto> oneshot_drop_rx s)\<rparr>
           in case s of Sent conn \<Rightarrow> Connection_drop conn w1 | _ \<Rightarrow> w1))"

definition DialFuture_drop ::
    "('p, 'r) DialFuture \<Rightarrow> ('p, 'r, 'z) node_net_scheme \<Rightarrow> ('p, 'r, 'z) node_net_scheme" where
  "DialFuture_drop f w =
     (case f of
        DialStart _ _ _ _ shot \<Rightarrow> drop_dial_rx shot w
      | DialWaiting _ shot \<Rightarrow> drop_dial_rx shot w
      | DialDone \<Rightarrow> w)"

definition Upgrade_drop ::
    "Upgrade \<Rightarrow> ('p, 'r, 'z) node_net_scheme \<Rightarrow> ('p, 'r, 'z) node_net_scheme" where
  "Upgrade_drop u w =
     (case upgrade_shots w (upgrade_rx u) of
        None \<Rightarrow> w
      | Some s \<Rightarrow>
          (let w1 = w\<lparr>upgrade_shots := (upgrade_shots w)(upgrade_rx u \<mapsto> oneshot_drop_rx s)\<rparr>
           in case s of Sent (_, conn) \<Rightarrow> Connection_drop conn w1 | _ \<Rightarrow> w1))"

text \<open>Replacing a value of \<open>pending_dials\<close> drops the old one and the sender in it.\<close>

definition drop_pending ::
    "'r PendingConnection option \<Rightarrow> ('p, 'r, 'z) node_net_scheme \<Rightarrow> ('p, 'r, 'z) node_net_scheme" where
  "drop_pending old w =
     (case old of
        None \<Rightarrow> w
      | Some pc \<Rightarrow> w\<lparr>dial_shots := (dial_shots w)(pc_connection_tx pc :=
           map_option oneshot_drop_tx (dial_shots w (pc_connection_tx pc)))\<rparr>)"

definition dial ::
    "('k, 'p, 'r, 'm, 'x) addressing \<Rightarrow> (nat \<Rightarrow> u8 list) \<Rightarrow> ('k, 'r, 'm, 'x) NymTransport \<Rightarrow> 'm \<Rightarrow>
     ('p, 'r, 'z) node_net_scheme \<Rightarrow>
     (('p, 'r) DialFuture, 'x error) outcome \<times> ('k, 'r, 'm, 'x) NymTransport \<times>
     ('p, 'r, 'z) node_net_scheme" where
  "dial A fill t addr w =
     (let cid = ConnectionId_generate fill
      in case multiaddress_to_nym_address A addr of
           Err e \<Rightarrow> (Err e, t, w)
         | Panic p \<Rightarrow> (Panic p, t, w)
         | Ok recipient \<Rightarrow>
             (let (shot, w1) = new_dial_shot w;
                  inner_pending_conn = PendingConnection_new recipient shot;
                  w2 = drop_pending (pending_dials t cid) w1;
                  t1 = t\<lparr>pending_dials := (pending_dials t)(cid \<mapsto> inner_pending_conn)\<rparr>;
                  msg = \<lparr>cm_peer_id = peer_id A t1, cm_id = cid, cm_recipient = Some (self_address t1)\<rparr>
              in (Ok (DialStart msg recipient (t_waker t1) (handshake_timeout t1) shot), t1, w2)))"

definition dial_as_listener ::
    "('k, 'p, 'r, 'm, 'x) addressing \<Rightarrow> (nat \<Rightarrow> u8 list) \<Rightarrow> ('k, 'r, 'm, 'x) NymTransport \<Rightarrow> 'm \<Rightarrow>
     ('p, 'r, 'z) node_net_scheme \<Rightarrow>
     (('p, 'r) DialFuture, 'x error) outcome \<times> ('k, 'r, 'm, 'x) NymTransport \<times>
     ('p, 'r, 'z) node_net_scheme" where
  "dial_as_listener = dial"

text \<open>
  \<open>timeout(handshake_timeout, connection_rx).await??\<close>.  The timers of tokio are an argument: \<open>time\<close> is
  the time of the poll, from which a new deadline is computed, and \<open>fired d\<close> tells whether the timer
  for the deadline \<open>d\<close> has fired by then.  Documented and assumed where it matters is only that a
  timer does not fire before its deadline (\<open>clock_ok\<close>); how much later it fires is left open.  The
  value of the receiver, when it is there, is the result; else the timer decides.  The future that is
  done drops its receiver.
\<close>

record clock =
  time :: nat
  fired :: "nat \<Rightarrow> bool"

definition clock_ok :: "clock \<Rightarrow> bool" where
  "clock_ok c \<longleftrightarrow> (\<forall>d. fired c d \<longrightarrow> d \<le> time c)"

definition dial_wait ::
    "clock \<Rightarrow> nat \<Rightarrow> addr \<Rightarrow> ('p, 'r, 'z) node_net_scheme \<Rightarrow>
     ('p \<times> ('p, 'r) Connection, 'x error) outcome poll \<times> ('p, 'r) DialFuture \<times>
     ('p, 'r, 'z) node_net_scheme" where
  "dial_wait now deadline shot w =
     (case dial_shots w shot of
        None \<Rightarrow> (Ready (Err OneshotRecvError), DialDone, w)
      | Some s \<Rightarrow>
          (let (r, s') = oneshot_poll s; w1 = w\<lparr>dial_shots := (dial_shots w)(shot \<mapsto> s')\<rparr>
           in case r of
                Ready (Ok conn) \<Rightarrow> (Ready (Ok (c_peer_id conn, conn)), DialDone, w1)
              | Ready (Err _) \<Rightarrow> (Ready (Err OneshotRecvError), DialDone, w1)
              | Ready (Panic p) \<Rightarrow> (Ready (Panic p), DialDone, w1)
              | Pending \<Rightarrow>
                  (if fired now deadline
                   then (Ready (Err DialTimeout), DialDone,
                         w1\<lparr>dial_shots := (dial_shots w1)(shot \<mapsto> oneshot_drop_rx s')\<rparr>)
                   else (Pending, DialWaiting deadline shot, w1))))"

definition dial_poll ::
    "clock \<Rightarrow> ('p, 'r) DialFuture \<Rightarrow> ('p, 'r, 'z) node_net_scheme \<Rightarrow>
     ('p \<times> ('p, 'r) Connection, 'x error) outcome poll \<times> ('p, 'r) DialFuture \<times>
     ('p, 'r, 'z) node_net_scheme" where
  "dial_poll now f w =
     (case f of
        DialStart msg recipient waker timeout shot \<Rightarrow>
          (case send_outbound w \<lparr>om_message = ConnectionRequest msg, om_recipient = recipient\<rparr> of
             (Ok _, w1) \<Rightarrow> dial_wait now (time now + timeout) shot (wake_taken waker w1)
           | (Err e, w1) \<Rightarrow>
               (Ready (Err (OutboundSendError e)), DialDone, drop_dial_rx shot w1)
           | (Panic p, w1) \<Rightarrow> (Ready (Panic p), DialDone, w1))
      | DialWaiting deadline shot \<Rightarrow> dial_wait now deadline shot w
      | DialDone \<Rightarrow> (Ready (Panic ''async fn resumed after completion''), DialDone, w))"

definition address_translation ::
    "('k, 'r, 'm, 'x) NymTransport \<Rightarrow> 'm \<Rightarrow> 'm \<Rightarrow> 'm option" where
  "address_translation t listen observed = None"

section \<open>The poll loop\<close>

text \<open>What the handlers leave alone of the shared cells: the inbound channel of the node.\<close>

lemma send_conn_inbound: "send_conn w a x = (r, w') \<Longrightarrow> inbound w' = inbound w"
  by (auto simp: send_conn_def split: prod.splits)

lemma drain_queue_inbound:
  "drain_queue q a w = ((r :: (unit, 'x error) outcome), q', w') \<Longrightarrow> inbound w' = inbound w"
proof (induction "length (queue q)" arbitrary: q w rule: less_induct)
  case less
  show ?case
  proof (cases "pop q")
    case (Pair p q1)
    show ?thesis
    proof (cases p)
      case None
      then show ?thesis using less(2) Pair by (simp add: drain_queue.simps [of q])
    next
      case (Some m)
      obtain s w1 where s: "send_conn w a (tm_message m) = (s, w1)" by fastforce
      have "length (queue q1) < length (queue q)" using Pair Some by (simp add: pop_shorter)
      then show ?thesis
        using less(1) [of q1 w1] less(2) Pair Some s send_conn_inbound [OF s]
        by (cases s) (auto simp: drain_queue.simps [of q])
    qed
  qed
qed

lemma Substream_drop_inbound [simp]: "inbound (Substream_drop s w) = inbound w"
  by (simp add: Substream_drop_def)

lemma fold_Substream_drop_inbound [simp]: "inbound (fold Substream_drop ss w) = inbound w"
  by (induction ss arbitrary: w) simp_all

lemma Connection_drop_inbound [simp]: "inbound (Connection_drop c w) = inbound w"
  by (simp add: Connection_drop_def)

lemma wake_taken_inbound [simp]: "inbound (wake_taken k w) = inbound w"
  by (simp add: wake_taken_def split: option.splits)

lemma initiation_inbound:
  "handle_message_queue_on_connection_initiation t cid w = (r, t', w') \<Longrightarrow> inbound w' = inbound w"
  by (auto simp: handle_message_queue_on_connection_initiation_def Let_def
      split: option.splits outcome.splits prod.splits dest: drain_queue_inbound)

lemma handle_connection_response_inbound:
  "handle_connection_response t msg w = (r, t', w') \<Longrightarrow> inbound w' = inbound w"
  by (auto simp: handle_connection_response_def create_connection_types_def new_conn_chan_def
      Connection_new_def new_nonce_def send_dial_def Let_def
      split: option.splits outcome.splits prod.splits if_splits dest!: initiation_inbound)

lemma handle_connection_request_inbound:
  "handle_connection_request A t msg w = (r, t', w') \<Longrightarrow> inbound w' = inbound w"
  by (auto simp: handle_connection_request_def create_connection_types_def new_conn_chan_def
      Connection_new_def new_nonce_def send_outbound_def Let_def
      split: option.splits outcome.splits prod.splits if_splits dest!: initiation_inbound)

lemma handle_transport_message_inbound:
  "handle_transport_message t msg w = (r, t', w') \<Longrightarrow> inbound w' = inbound w"
  by (auto simp: handle_transport_message_def Let_def
      split: option.splits outcome.splits prod.splits dest!: drain_queue_inbound send_conn_inbound)

lemma handle_inbound_inbound:
  "handle_inbound A t msg w = (r, t', w') \<Longrightarrow> inbound w' = inbound w"
  by (auto simp: handle_inbound_def new_upgrade_shot_def send_upgrade_def Let_def
      split: Message.splits outcome.splits prod.splits option.splits
      dest!: handle_connection_request_inbound handle_connection_response_inbound
        handle_transport_message_inbound)

text \<open>The inbound messages of the node that wait for \<open>poll\<close>.\<close>

lemma transport_poll_shorter:
  assumes "(Ready (Some msg), ch) = chan_poll_recv (inbound w)"
    and "(r, t1, w1) = handle_inbound A t m (w\<lparr>inbound := ch\<rparr>)"
  shows "length (buffer (inbound w1)) < length (buffer (inbound w))"
  using assms(1) handle_inbound_inbound [OF assms(2) [symmetric]]
  by (auto simp: eq_commute [of "(Ready (Some msg), _)"] chan_poll_recv_Some)

function transport_poll_loop ::
    "('k, 'p, 'r, 'm, 'x) addressing \<Rightarrow> nat \<Rightarrow> ('k, 'r, 'm, 'x) NymTransport \<Rightarrow>
     ('p, 'r, 'z) node_net_scheme \<Rightarrow>
     (('m, 'x) TransportEvent, unit) outcome poll \<times> ('k, 'r, 'm, 'x) NymTransport \<times>
     ('p, 'r, 'z) node_net_scheme" where
  "transport_poll_loop A cx t w =
     (case chan_poll_recv (inbound w) of
        (Ready (Some (InboundMessage msg)), ch) \<Rightarrow>
          (case handle_inbound A t msg (w\<lparr>inbound := ch\<rparr>) of
             (Ok event, t1, w1) \<Rightarrow>
               (case event of
                  ConnectionRequestEvent upgrade \<Rightarrow>
                    (Ready (Ok (Incoming (listener_id t1) upgrade (listen_addr t1) (listen_addr t1))), t1, w1)
                | ConnectionResponseEvent \<Rightarrow> transport_poll_loop A cx t1 w1
                | TransportMessageEvent \<Rightarrow> transport_poll_loop A cx t1 w1)
           | (Err e, t1, w1) \<Rightarrow> (Ready (Ok (ListenerError (listener_id t1) e)), t1, w1)
           | (Panic p, t1, w1) \<Rightarrow> (Ready (Panic p), t1, w1))
      | (_, ch) \<Rightarrow> (Pending, t\<lparr>t_waker := Some cx\<rparr>, w\<lparr>inbound := ch\<rparr>))"
  by pat_completeness auto
termination
  by (relation "measure (\<lambda>(A, cx, t, w). length (buffer (inbound w)))") (auto intro: transport_poll_shorter)

declare transport_poll_loop.simps [simp del]

definition transport_poll ::
    "('k, 'p, 'r, 'm, 'x) addressing \<Rightarrow> nat \<Rightarrow> ('k, 'r, 'm, 'x) NymTransport \<Rightarrow>
     ('p, 'r, 'z) node_net_scheme \<Rightarrow>
     (('m, 'x) TransportEvent, unit) outcome poll \<times> ('k, 'r, 'm, 'x) NymTransport \<times>
     ('p, 'r, 'z) node_net_scheme" where
  "transport_poll A cx t w =
     (case chan_poll_recv (poll_chan t) of
        (Ready (Some res), ch) \<Rightarrow> (Ready (Ok res), t\<lparr>poll_chan := ch\<rparr>, w)
      | (_, ch) \<Rightarrow> transport_poll_loop A cx (t\<lparr>poll_chan := ch\<rparr>) w)"

section \<open>Each handler in one equation\<close>

definition append_conn ::
    "addr \<Rightarrow> SubstreamMessage list \<Rightarrow> ('p, 'r, 'z) net_scheme \<Rightarrow> ('p, 'r, 'z) net_scheme" where
  "append_conn a xs w =
     w\<lparr>conn_chans := (conn_chans w)
         (a := map_option (\<lambda>ch. ch\<lparr>buffer := buffer ch @ xs\<rparr>) (conn_chans w a))\<rparr>"

lemma append_conn_frame [simp]:
  "outbound (append_conn a xs w) = outbound w" "fresh (append_conn a xs w) = fresh w"
  "nonces (append_conn a xs w) = nonces w" "data_chans (append_conn a xs w) = data_chans w"
  "close_shots (append_conn a xs w) = close_shots w" "woken (append_conn a xs w) = woken w"
  "conn_chans (append_conn a xs w) b =
     (if b = a then map_option (\<lambda>ch. ch\<lparr>buffer := buffer ch @ xs\<rparr>) (conn_chans w a) else conn_chans w b)"
  by (simp_all add: append_conn_def)

lemma append_conn_more [simp]: "net.more (append_conn a xs w) = net.more w"
  by (simp add: append_conn_def)

lemma append_conn_append [simp]: "append_conn a ys (append_conn a xs w) = append_conn a (xs @ ys) w"
  by (simp add: append_conn_def option.map_comp comp_def fun_upd_idem)

lemma append_conn_Nil [simp]: "append_conn a [] w = w"
  by (cases "conn_chans w a") (simp_all add: append_conn_def fun_upd_idem)

lemma send_conn_open:
  "conn_chans w a = Some ch \<Longrightarrow> rx_open ch \<Longrightarrow> send_conn w a x = (Ok (), append_conn a [x] w)"
  by (simp add: send_conn_def cell_send_def append_conn_def)

lemma send_conn_closed:
  "conn_chans w a = Some ch \<Longrightarrow> \<not> rx_open ch \<Longrightarrow> send_conn w a x = (Err ChannelClosed, w)"
  by (simp add: send_conn_def cell_send_def fun_upd_idem)

lemma drain_queue_open:
  "conn_chans w a = Some ch \<Longrightarrow> rx_open ch \<Longrightarrow>
   (drain_queue q a w :: (unit, 'x error) outcome \<times> _) =
     (Ok (), snd (pop_all q), append_conn a (map tm_message (fst (pop_all q))) w)"
proof (induction q arbitrary: w ch rule: pop_all.induct)
  case (1 q)
  obtain r q1 where r: "pop q = (r, q1)" by (cases "pop q")
  show ?case
  proof (cases r)
    case None
    then show ?thesis using r by (simp add: drain_queue.simps [of q] pop_all.simps [of q])
  next
    case (Some m)
    let ?w = "append_conn a [tm_message m] w"
    have "(drain_queue q1 a ?w :: (unit, 'x error) outcome \<times> _) =
        (Ok (), snd (pop_all q1), append_conn a (map tm_message (fst (pop_all q1))) ?w)"
      using "1.IH" [OF r [symmetric] Some, of ?w "ch\<lparr>buffer := buffer ch @ [tm_message m]\<rparr>"] 1(2,3)
      by simp
    then show ?thesis
      using r Some send_conn_open [OF 1(2,3)]
      by (simp add: drain_queue.simps [of q] pop_all.simps [of q] split: prod.splits)
  qed
qed

lemma drain_queue_append:
  "conn_chans w a = Some ch \<Longrightarrow> rx_open ch \<Longrightarrow>
   drain_queue q a (append_conn a xs w) =
     (Ok (), snd (pop_all q), append_conn a (xs @ map tm_message (fst (pop_all q))) w)"
  by (subst drain_queue_open [of _ _ "ch\<lparr>buffer := buffer ch @ xs\<rparr>"]) simp_all

lemma drain_queue_closed:
  "conn_chans w a = Some ch \<Longrightarrow> \<not> rx_open ch \<Longrightarrow>
   drain_queue q a w =
     (case pop q of (None, q1) \<Rightarrow> (Ok (), q1, w)
      | (Some m, q1) \<Rightarrow> (Err (InboundSendError ChannelClosed), q1, w))"
  by (simp add: drain_queue.simps [of q] send_conn_closed split: prod.splits option.splits)

text \<open>The queue of a connection: one is made when the first message for its identifier arrives.\<close>

definition queue_for :: "('k, 'r, 'm, 'x) NymTransport \<Rightarrow> ConnectionId \<Rightarrow> MessageQueue" where
  "queue_for t cid = (case message_queues t cid of Some q \<Rightarrow> q | None \<Rightarrow> MessageQueue_new)"

abbreviation set_queue ::
    "ConnectionId \<Rightarrow> MessageQueue \<Rightarrow> ('k, 'r, 'm, 'x) NymTransport \<Rightarrow> ('k, 'r, 'm, 'x) NymTransport" where
  "set_queue cid q t \<equiv> t\<lparr>message_queues := (message_queues t)(cid \<mapsto> q)\<rparr>"

lemma initiation_open:
  assumes "connections t cid = Some a" and "conn_chans w a = Some ch" and "rx_open ch"
    and "set_connection_message_received (queue_for t cid) = (Ok q1 :: (MessageQueue, 'x error) outcome)"
  shows "handle_message_queue_on_connection_initiation (t :: ('k, 'r, 'm, 'x) NymTransport) cid w =
    (Ok (), set_queue cid (snd (pop_all q1)) t, append_conn a (map tm_message (fst (pop_all q1))) w)"
proof (cases "message_queues t cid")
  case None
  then have q1: "q1 = \<lparr>next_expected_nonce = 1, queue = []\<rparr>"
    using assms(4)
    by (simp add: queue_for_def set_connection_message_received_def MessageQueue_new_def)
  have "pop_all q1 = ([], q1)" by (subst pop_all.simps) (simp add: pop_def q1)
  with None show ?thesis
    using assms(1,4) by (simp add: handle_message_queue_on_connection_initiation_def queue_for_def)
next
  case (Some q)
  then show ?thesis
    using assms
    by (simp add: handle_message_queue_on_connection_initiation_def queue_for_def drain_queue_open)
qed

lemma initiation_panics:
  assumes "connections t cid = Some a" and "next_expected_nonce (queue_for t cid) \<noteq> 0"
  shows "handle_message_queue_on_connection_initiation t cid w =
    (Panic ''connection message received twice'', t, w)"
  using assms
  by (auto simp: handle_message_queue_on_connection_initiation_def queue_for_def MessageQueue_new_def
      set_connection_message_received_def split: option.splits)

lemma transport_message_queued:
  "try_push (queue_for t (tm_id m)) m = (None, q1) \<Longrightarrow>
   handle_transport_message t m w = (Ok (), set_queue (tm_id m) q1 t, w)"
  by (simp add: handle_transport_message_def queue_for_def)

lemma transport_message_unknown:
  "try_push (queue_for t (tm_id m)) m = (Some m', q1) \<Longrightarrow> connections t (tm_id m) = None \<Longrightarrow>
   handle_transport_message t m w = (Err NoConnectionForTransportMessage, set_queue (tm_id m) q1 t, w)"
  by (auto simp: handle_transport_message_def queue_for_def Let_def dest: try_push_Some)

lemma transport_message_handed:
  assumes "try_push (queue_for t (tm_id m)) m = (Some m', q1)" and "connections t (tm_id m) = Some a"
    and "conn_chans w a = Some ch" and "rx_open ch"
  shows "handle_transport_message t m w =
    (Ok (), set_queue (tm_id m) (snd (pop_all q1)) t,
     wake_taken (t_waker t) (append_conn a (map tm_message (m # fst (pop_all q1))) w))"
proof -
  have "m' = m" using try_push_Some [OF assms(1)] by simp
  then show ?thesis
    using assms
    by (simp add: handle_transport_message_def queue_for_def Let_def send_conn_open drain_queue_append)
qed

lemma transport_message_closed:
  assumes "try_push (queue_for t (tm_id m)) m = (Some m', q1)" and "connections t (tm_id m) = Some a"
    and "conn_chans w a = Some ch" and "\<not> rx_open ch"
  shows "handle_transport_message t m w =
    (Err (InboundSendError ChannelClosed), set_queue (tm_id m) q1 t, w)"
proof -
  have "m' = m" using try_push_Some [OF assms(1)] by simp
  then show ?thesis
    using assms
    by (simp add: handle_transport_message_def queue_for_def Let_def send_conn_closed)
qed

text \<open>The shared cells after a new connection has been made, and the connection.\<close>

definition with_conn :: "('p, 'r, 'z) net_scheme \<Rightarrow> ('p, 'r, 'z) net_scheme" where
  "with_conn w =
     w\<lparr>conn_chans := (conn_chans w)(fresh w \<mapsto> unbounded_channel),
       nonces := (nonces w)(Suc (fresh w) \<mapsto> 1), fresh := Suc (Suc (fresh w))\<rparr>"

definition conn_made :: "'p \<Rightarrow> 'r \<Rightarrow> ConnectionId \<Rightarrow> ('p, 'r, 'z) net_scheme \<Rightarrow> ('p, 'r) Connection" where
  "conn_made peer recipient cid w = fst (create_connection_types peer recipient cid w)"

lemma create_connection_types_eq:
  "create_connection_types peer recipient cid w =
     (conn_made peer recipient cid w, fresh w, with_conn w)"
  by (simp add: conn_made_def create_connection_types_def new_conn_chan_def Connection_new_def
      new_nonce_def with_conn_def Let_def)

lemma conn_made_fields [simp]:
  "c_peer_id (conn_made peer recipient cid w) = peer"
  "c_remote_recipient (conn_made peer recipient cid w) = recipient"
  "c_id (conn_made peer recipient cid w) = cid"
  "c_inbound_rx (conn_made peer recipient cid w) = fresh w"
  "c_message_nonce (conn_made peer recipient cid w) = Suc (fresh w)"
  "substream_inbound_txs (conn_made peer recipient cid w) = Map.empty"
  "substream_close_txs (conn_made peer recipient cid w) = Map.empty"
  "inbound_open (conn_made peer recipient cid w) = unbounded_channel"
  "close_chan (conn_made peer recipient cid w) = unbounded_channel"
  by (simp_all add: conn_made_def create_connection_types_def new_conn_chan_def Connection_new_def
      new_nonce_def Let_def)

lemma with_conn_simps [simp]:
  "outbound (with_conn w) = outbound w" "fresh (with_conn w) = Suc (Suc (fresh w))"
  "conn_chans (with_conn w) = (conn_chans w)(fresh w \<mapsto> unbounded_channel)"
  "nonces (with_conn w) = (nonces w)(Suc (fresh w) \<mapsto> 1)"
  "net.more (with_conn w) = net.more w"
  by (simp_all add: with_conn_def)

lemma unbounded_channel_simps [simp]:
  "buffer unbounded_channel = []" "rx_open unbounded_channel" "tx_open unbounded_channel"
  by (simp_all add: unbounded_channel_def)

lemma append_conn_node [simp]:
  "inbound (append_conn a xs v) = inbound v"
  "dial_shots (append_conn a xs w) = dial_shots w" "upgrade_shots (append_conn a xs w) = upgrade_shots w"
  by (simp_all add: append_conn_def)

lemma with_conn_node [simp]:
  "inbound (with_conn v) = inbound v"
  "dial_shots (with_conn w) = dial_shots w" "upgrade_shots (with_conn w) = upgrade_shots w"
  by (simp_all add: with_conn_def)

lemma wake_taken_frame [simp]:
  "outbound (wake_taken k w) = outbound w" "conn_chans (wake_taken k w) = conn_chans w"
  "data_chans (wake_taken k w) = data_chans w" "close_shots (wake_taken k w) = close_shots w"
  "nonces (wake_taken k w) = nonces w" "fresh (wake_taken k w) = fresh w"
  by (simp_all add: wake_taken_def split: option.splits)

lemma wake_taken_node [simp]:
  "dial_shots (wake_taken k w) = dial_shots w" "upgrade_shots (wake_taken k w) = upgrade_shots w"
  by (simp_all add: wake_taken_def split: option.splits)

text \<open>What a connection that has just been made and is dropped again leaves behind.\<close>

lemma Connection_drop_made:
  "Connection_drop (conn_made peer recipient cid v) w =
     w\<lparr>conn_chans := (conn_chans w)(fresh v := map_option chan_drop_rx (conn_chans w (fresh v)))\<rparr>"
  by (simp add: Connection_drop_def)

text \<open>The transport after a connection has been entered and its waiting messages taken from the queue.\<close>

definition connected ::
    "ConnectionId \<Rightarrow> addr \<Rightarrow> MessageQueue \<Rightarrow> ('k, 'r, 'm, 'x) NymTransport \<Rightarrow>
     ('k, 'r, 'm, 'x) NymTransport" where
  "connected cid a q1 t =
     t\<lparr>connections := (connections t)(cid \<mapsto> a),
       message_queues := (message_queues t)(cid \<mapsto> snd (pop_all q1))\<rparr>"

definition flushed_to :: "MessageQueue \<Rightarrow> ('p, 'r, 'z) net_scheme \<Rightarrow> ('p, 'r, 'z) net_scheme" where
  "flushed_to q1 w = append_conn (fresh w) (map tm_message (fst (pop_all q1))) (with_conn w)"

lemma initiation_new:
  assumes "set_connection_message_received (queue_for t cid) = (Ok q1 :: (MessageQueue, 'x error) outcome)"
  shows "handle_message_queue_on_connection_initiation
      ((t :: ('k, 'r, 'm, 'x) NymTransport)\<lparr>connections := (connections t)(cid \<mapsto> fresh w)\<rparr>) cid
      (with_conn w) =
    (Ok (), connected cid (fresh w) q1 t, flushed_to q1 w)"
  using assms
  by (subst initiation_open [of _ _ "fresh w" _ unbounded_channel q1])
    (simp_all add: queue_for_def connected_def flushed_to_def)

lemma connection_request_accepted:
  assumes "cm_recipient msg = Some recipient" and "connections t (cm_id msg) = None"
    and "set_connection_message_received (queue_for t (cm_id msg)) = (Ok q1 :: (MessageQueue, 'x error) outcome)"
  shows "handle_connection_request A (t :: ('k, 'r, 'm, 'x) NymTransport) msg w =
    (let conn = conn_made (cm_peer_id msg) recipient (cm_id msg) w;
         t2 = connected (cm_id msg) (fresh w) q1 t; w2 = flushed_to q1 w;
         resp = \<lparr>om_message = ConnectionResponse
                   \<lparr>cm_peer_id = peer_id A t, cm_id = cm_id msg, cm_recipient = None\<rparr>,
                 om_recipient = recipient\<rparr>
     in if rx_open (outbound w)
        then (Ok conn, t2\<lparr>t_waker := None\<rparr>, wake_taken (t_waker t)
                (w2\<lparr>outbound := (outbound w)\<lparr>buffer := buffer (outbound w) @ [resp]\<rparr>\<rparr>))
        else (Err (OutboundSendError ChannelClosed), t2, Connection_drop conn w2))"
proof -
  have "outbound (flushed_to q1 w) = outbound w" by (simp add: flushed_to_def)
  moreover have "peer_id A (connected (cm_id msg) (fresh w) q1 t) = peer_id A t"
      "t_waker (connected (cm_id msg) (fresh w) q1 t) = t_waker t"
    by (simp_all add: peer_id_def connected_def)
  ultimately show ?thesis
    using assms
    by (cases "rx_open (outbound w)")
      (simp_all add: handle_connection_request_def create_connection_types_eq initiation_new Let_def)
qed

lemma connection_response_resolved:
  assumes "connections t (cm_id msg) = None" and "pending_dials t (cm_id msg) = Some pc"
    and "set_connection_message_received (queue_for t (cm_id msg)) = (Ok q1 :: (MessageQueue, 'x error) outcome)"
  shows "handle_connection_response (t :: ('k, 'r, 'm, 'x) NymTransport) msg w =
    (let conn = conn_made (cm_peer_id msg) (pc_remote_recipient pc) (cm_id msg) w;
         t2 = connected (cm_id msg) (fresh w) q1
                (t\<lparr>pending_dials := (pending_dials t)(cm_id msg := None)\<rparr>);
         w2 = flushed_to q1 w
     in if dial_shots w (pc_connection_tx pc) = Some Waiting
        then (Ok (), t2\<lparr>t_waker := None\<rparr>, wake_taken (t_waker t)
                (w2\<lparr>dial_shots := (dial_shots w)(pc_connection_tx pc \<mapsto> Sent conn)\<rparr>))
        else (Err ConnectionSendError, t2, Connection_drop conn w2))"
proof -
  let ?t1 = "t\<lparr>pending_dials := (pending_dials t)(cm_id msg := None)\<rparr>"
  have q: "set_connection_message_received (queue_for ?t1 (cm_id msg)) = (Ok q1 :: (MessageQueue, 'x error) outcome)"
    using assms(3) by (simp add: queue_for_def)
  have [simp]: "dial_shots (flushed_to q1 w) = dial_shots w" by (simp add: flushed_to_def)
  have [simp]: "t_waker (connected (cm_id msg) (fresh w) q1 ?t1) = t_waker t"
    by (simp add: connected_def)
  have send: "send_dial (flushed_to q1 w) a conn =
      (if dial_shots w a = Some Waiting
       then (Ok (), (flushed_to q1 w)\<lparr>dial_shots := (dial_shots w)(a \<mapsto> Sent conn)\<rparr>)
       else (Err conn, flushed_to q1 w))" for a conn
    by (cases "dial_shots w a"; cases "the (dial_shots w a)") (auto simp: send_dial_def fun_upd_idem)
  show ?thesis
    using assms(1,2) initiation_new [OF q, of w]
    by (simp add: handle_connection_response_def create_connection_types_eq send Let_def)
qed

section \<open>A transport for the closed examples\<close>

text \<open>
  A recipient is printed as as many letters as its number says; a multiaddress is its text, with at
  most one component.
\<close>

definition demo_addressing :: "(u8, u8, u8, string, unit) addressing" where
  "demo_addressing = \<lparr>
     peer_id_of = (\<lambda>k. k), Recipient_display = (\<lambda>r. replicate (unat r) CHR ''x''),
     Recipient_from_str = (\<lambda>s. if list_all ((=) CHR ''x'') s \<and> length s < 256
                              then Inr (of_nat (length s)) else Inl ()),
     Multiaddr_from_str = (\<lambda>s. if take 1 s = ''/'' then Inr s else Inl ()),
     Multiaddr_pop = (\<lambda>s. if s = [] then None
                         else if take 5 s = ''/nym/'' then Some (Nym (drop 5 s)) else Some Other_protocol)\<rparr>"

text \<open>The node with address 4 and keypair 1, which has dialled node 3 and waits for the answer.\<close>

definition demo_transport :: "(u8, u8, string, unit) NymTransport" where
  "demo_transport = \<lparr>self_address = 4, listen_addr = ''/nym/xxxx'', listener_id = 0, keypair = 1,
     connections = Map.empty, pending_dials = [demo_cid \<mapsto> PendingConnection_new 3 0],
     message_queues = Map.empty, poll_chan = unbounded_channel, t_waker = None,
     handshake_timeout = from_secs 5\<rparr>"

definition demo_node_net :: "(u8, u8) Message list \<Rightarrow> (u8, u8) node_net" where
  "demo_node_net ins = mix_net.extend
     (net.extend (net_new\<lparr>fresh := 1\<rparr>) \<lparr>inbound = unbounded_channel\<lparr>buffer := map InboundMessage ins\<rparr>\<rparr>)
     \<lparr>dial_shots = [0 \<mapsto> Waiting], upgrade_shots = Map.empty\<rparr>"

definition demo_response :: "(u8, u8) ConnectionMessage" where
  "demo_response = \<lparr>cm_peer_id = 2, cm_id = demo_cid, cm_recipient = None\<rparr>"

definition demo_request :: "(u8, u8) ConnectionMessage" where
  "demo_request = \<lparr>cm_peer_id = 2, cm_id = demo_cid, cm_recipient = Some 3\<rparr>"

lemmas demo_transport_defs = demo_transport_def demo_node_net_def demo_response_def demo_request_def
  net_new_def net.extend_def mix_net.extend_def PendingConnection_new_def

lemma demo_transport_fields [simp]:
  "connections demo_transport = Map.empty" "message_queues demo_transport = Map.empty"
  "pending_dials demo_transport = [demo_cid \<mapsto> \<lparr>pc_remote_recipient = 3, pc_connection_tx = 0\<rparr>]"
  "poll_chan demo_transport = unbounded_channel" "t_waker demo_transport = None"
  "queue_for demo_transport cid = MessageQueue_new"
  by (simp_all add: demo_transport_def PendingConnection_new_def queue_for_def)

lemma demo_node_net_fields [simp]:
  "fresh (demo_node_net ins) = 1" "outbound (demo_node_net ins) = unbounded_channel"
  "conn_chans (demo_node_net ins) = Map.empty"
  "inbound (demo_node_net ins) = unbounded_channel\<lparr>buffer := map InboundMessage ins\<rparr>"
  "dial_shots (demo_node_net ins) = [0 \<mapsto> Waiting]"
  by (simp_all add: demo_transport_defs)

lemma demo_response_fields [simp]:
  "cm_id demo_response = demo_cid" "cm_peer_id demo_response = 2" "cm_recipient demo_response = None"
  "cm_id demo_request = demo_cid" "cm_peer_id demo_request = 2" "cm_recipient demo_request = Some 3"
  by (simp_all add: demo_response_def demo_request_def)

end
