(* ===== verification/Delivery.thy ===== *)
theory Delivery
  imports Transports
begin

text \<open>
  What the transport does with everything that comes from the mixnet: an invariant that ties, for
  every connection, the messages that have arrived for it to the messages in its channel.  The
  handlers of all kinds of message keep it, so it holds after any inbound messages, however the
  messages of the connections are interleaved, delayed, repeated and reordered.
\<close>

section \<open>The invariant\<close>

fun transport_msgs :: "ConnectionId \<Rightarrow> ('p, 'r) Message list \<Rightarrow> TransportMessage list" where
  "transport_msgs cid [] = []"
| "transport_msgs cid (TransportMsg m # H) =
     (if tm_id m = cid then m # transport_msgs cid H else transport_msgs cid H)"
| "transport_msgs cid (ConnectionRequest c # H) = transport_msgs cid H"
| "transport_msgs cid (ConnectionResponse c # H) = transport_msgs cid H"

lemma transport_msgs_append [simp]:
  "transport_msgs cid (H @ H') = transport_msgs cid H @ transport_msgs cid H'"
  by (induction H rule: transport_msgs.induct) simp_all

definition in_protocol_all :: "('p, 'r) Message list \<Rightarrow> bool" where
  "in_protocol_all H \<longleftrightarrow> (\<forall>cid. in_protocol (transport_msgs cid H))"

lemma in_protocol_all_append:
  "in_protocol_all (H @ H') \<longleftrightarrow> in_protocol_all H \<and> in_protocol_all H'"
  by (auto simp: in_protocol_all_def in_protocol_def)

text \<open>
  One connection: \<open>ms\<close> has arrived for it, \<open>taken\<close> is what its owner has already taken from its
  channel.  Without a connection the messages wait in the queue; with one, what was taken and what
  is in the channel is what the queue has handed on, unless the owner has dropped the connection.
\<close>

definition conn_ok ::
    "SubstreamMessage list \<Rightarrow> TransportMessage list \<Rightarrow> ConnectionId \<Rightarrow> ('k, 'r, 'm, 'x) NymTransport \<Rightarrow>
     ('p, 'r, 'z) net_scheme \<Rightarrow> bool" where
  "conn_ok taken ms cid t w \<longleftrightarrow>
     (case connections t cid of
        None \<Rightarrow> taken = [] \<and> sequenced False ms [] (queue_for t cid)
      | Some a \<Rightarrow>
          (\<exists>ch. conn_chans w a = Some ch \<and>
             (rx_open ch \<longrightarrow>
               (\<exists>out. sequenced True ms out (queue_for t cid) \<and> taken @ buffer ch = map tm_message out))))"

definition node_ok ::
    "(ConnectionId \<Rightarrow> SubstreamMessage list) \<Rightarrow> ('p, 'r) Message list \<Rightarrow>
     ('k, 'r, 'm, 'x) NymTransport \<Rightarrow> ('p, 'r, 'z) net_scheme \<Rightarrow> bool" where
  "node_ok K H t w \<longleftrightarrow>
     (\<forall>cid. conn_ok (K cid) (transport_msgs cid H) cid t w) \<and>
     cells_ok (connections t) (\<lambda>a. a < fresh w)"

text \<open>What a handler of a message of connection \<open>cid\<close> leaves alone.\<close>

definition only_touches ::
    "ConnectionId \<Rightarrow> ('k, 'r, 'm, 'x) NymTransport \<Rightarrow> ('p, 'r, 'z) net_scheme \<Rightarrow>
     ('k, 'r, 'm, 'x) NymTransport \<Rightarrow> ('p, 'r, 'z) net_scheme \<Rightarrow> bool" where
  "only_touches cid t w t' w' \<longleftrightarrow>
     (\<forall>j. j \<noteq> cid \<longrightarrow> connections t' j = connections t j \<and> message_queues t' j = message_queues t j) \<and>
     (connections t' cid = connections t cid \<or> connections t cid = None \<and> connections t' cid = Some (fresh w)
        \<and> fresh w < fresh w') \<and>
     fresh w \<le> fresh w' \<and>
     (\<forall>b. b < fresh w \<longrightarrow> connections t cid \<noteq> Some b \<longrightarrow> conn_chans w' b = conn_chans w b)"

lemma only_touches_refl [simp]: "only_touches cid t w t w"
  by (simp add: only_touches_def)

lemma cells_ok_bound: "cells_ok m (\<lambda>a. a < n) \<Longrightarrow> m k = Some a \<Longrightarrow> a < n"
  by (simp add: cells_ok_def)

lemma cells_ok_inj: "cells_ok m P \<Longrightarrow> m j = Some a \<Longrightarrow> m k = Some a \<Longrightarrow> j = k"
  unfolding cells_ok_def by blast

lemma node_ok_step:
  assumes "node_ok K H t w" and "only_touches cid t w t' w'"
    and "conn_ok (K cid) (transport_msgs cid (H @ [m])) cid t' w'"
    and "\<And>j. j \<noteq> cid \<Longrightarrow> transport_msgs j [m] = []"
  shows "node_ok K (H @ [m]) t' w'"
proof -
  have cells: "cells_ok (connections t) (\<lambda>a. a < fresh w)"
    and old: "conn_ok (K j) (transport_msgs j H) j t w" for j
    using assms(1) by (auto simp: node_ok_def)
  have "conn_ok (K j) (transport_msgs j (H @ [m])) j t' w'" for j
  proof (cases "j = cid")
    case False
    then have same: "connections t' j = connections t j" "queue_for t' j = queue_for t j"
      using assms(2) by (simp_all add: only_touches_def queue_for_def)
    have "conn_chans w' a = conn_chans w a" if "connections t j = Some a" for a
      using assms(2) False that cells_ok_bound [OF cells that] cells_ok_inj [OF cells that]
      unfolding only_touches_def by metis
    then show ?thesis
      using old [of j] same assms(4) [OF False]
      by (auto simp: conn_ok_def split: option.splits)
  qed (use assms(3) in simp)
  moreover have "cells_ok (connections t') (\<lambda>a. a < fresh w')"
  proof -
    have b: "a < fresh w'" if "connections t' k = Some a" for k a
      using that assms(2) cells_ok_bound [OF cells, of k a]
      by (cases "k = cid") (auto simp: only_touches_def)
    have "i = k" if "connections t' i = Some a" "connections t' k = Some a" for i k a
      using that assms(2) cells_ok_bound [OF cells] cells_ok_inj [OF cells, of i a k]
      unfolding only_touches_def by (metis less_irrefl option.inject)
    with b show ?thesis by (simp add: cells_ok_def)
  qed
  ultimately show ?thesis by (simp add: node_ok_def)
qed

section \<open>The handlers keep it\<close>

lemma transport_message_ok:
  assumes "conn_ok taken ms (tm_id m) t w" and "in_protocol (ms @ [m])"
    and "handle_transport_message t m w = (r, t', w')"
  shows "\<not> panics r \<and> only_touches (tm_id m) t w t' w' \<and> conn_ok taken (ms @ [m]) (tm_id m) t' w'"
proof (cases "try_push (queue_for t (tm_id m)) m")
  case (Pair p q1)
  show ?thesis
  proof (cases p)
    case None
    with Pair have "try_push (queue_for t (tm_id m)) m = (None, q1)" by simp
    then show ?thesis
      using assms transport_message_queued [of t m q1 w] mq.ok_queued [of _ ms _ "queue_for t (tm_id m)" m q1]
      by (fastforce simp: conn_ok_def only_touches_def queue_for_def split: option.splits)
  next
    case (Some m')
    with Pair have push: "try_push (queue_for t (tm_id m)) m = (Some m', q1)" by simp
    show ?thesis
    proof (cases "connections t (tm_id m)")
      case None
      then show ?thesis
        using assms(1,2) mq.ok_handed [OF _ assms(2) push, of False "[]"] by (simp add: conn_ok_def)
    next
      case (Some a)
      then obtain ch where ch: "conn_chans w a = Some ch" using assms(1) by (auto simp: conn_ok_def)
      show ?thesis
      proof (cases "rx_open ch")
        case True
        then obtain out where "sequenced True ms out (queue_for t (tm_id m))"
            "taken @ buffer ch = map tm_message out"
          using assms(1) Some ch by (auto simp: conn_ok_def)
        with mq.ok_handed [OF _ assms(2) push] have
          "sequenced True (ms @ [m]) (out @ m # fst (pop_all q1)) (snd (pop_all q1))"
          "taken @ buffer ch @ tm_message m # map tm_message (fst (pop_all q1)) =
            map tm_message (out @ m # fst (pop_all q1))"
          by (auto simp flip: append_assoc)
        then have "\<exists>out. sequenced True (ms @ [m]) out (snd (pop_all q1)) \<and>
            taken @ buffer ch @ tm_message m # map tm_message (fst (pop_all q1)) = map tm_message out"
          by blast
        then show ?thesis
          using assms(3) transport_message_handed [OF push Some ch True] Some ch
          by (auto simp: conn_ok_def only_touches_def queue_for_def)
      next
        case False
        then show ?thesis
          using assms(3) transport_message_closed [OF push Some ch False] Some ch
          by (auto simp: conn_ok_def only_touches_def queue_for_def)
      qed
    qed
  qed
qed

text \<open>A new connection takes over what its queue has ready.\<close>

lemma connected_ok:
  assumes "connections t cid = None" and "conn_ok taken ms cid t w" and "in_protocol ms"
  shows "\<exists>q1. set_connection_message_received (queue_for t cid) = Ok q1 \<and>
    sequenced True ms (fst (pop_all q1)) (snd (pop_all q1)) \<and> taken = []"
  using assms mq.ok_start [of ms "[]" "queue_for t cid"] by (auto simp: conn_ok_def)

lemma flushed_to_simps [simp]:
  "fresh (flushed_to q1 w) = Suc (Suc (fresh w))"
  "outbound (flushed_to q1 w) = outbound w"
  "conn_chans (flushed_to q1 w) = (conn_chans w)
     (fresh w \<mapsto> unbounded_channel\<lparr>buffer := map tm_message (fst (pop_all q1))\<rparr>)"
  by (auto simp: flushed_to_def)

lemma connected_simps [simp]:
  "connections (connected cid a q1 t) = (connections t)(cid \<mapsto> a)"
  "message_queues (connected cid a q1 t) = (message_queues t)(cid \<mapsto> snd (pop_all q1))"
  by (simp_all add: connected_def)

lemma connection_request_ok:
  fixes t :: "('k, 'r, 'm, 'x) NymTransport"
  assumes "conn_ok taken ms (cm_id msg) t w" and "in_protocol ms"
    and "handle_connection_request A t msg w = (r, t', w')"
  shows "\<not> panics r \<and> only_touches (cm_id msg) t w t' w' \<and> conn_ok taken ms (cm_id msg) t' w'"
proof (cases "cm_recipient msg = None \<or> connections t (cm_id msg) \<noteq> None")
  case True
  then show ?thesis
    using assms by (auto simp: handle_connection_request_def split: option.splits)
next
  case False
  then obtain recipient where new: "cm_recipient msg = Some recipient" "connections t (cm_id msg) = None"
    by auto
  obtain q1 where q1: "set_connection_message_received (queue_for t (cm_id msg)) = (Ok q1 :: (MessageQueue, 'x error) outcome)"
      "sequenced True ms (fst (pop_all q1)) (snd (pop_all q1))" "taken = []"
    using connected_ok [OF new(2) assms(1,2)] by blast
  show ?thesis
    using assms(3) connection_request_accepted [OF new q1(1), of A w] new q1(2,3)
    by (cases "rx_open (outbound w)")
      (auto simp: Let_def conn_ok_def only_touches_def queue_for_def Connection_drop_made chan_drop_rx_def)
qed

lemma connection_response_ok:
  fixes t :: "('k, 'r, 'm, 'x) NymTransport"
  assumes "conn_ok taken ms (cm_id msg) t w" and "in_protocol ms"
    and "handle_connection_response t msg w = (r, t', w')"
  shows "\<not> panics r \<and> only_touches (cm_id msg) t w t' w' \<and> conn_ok taken ms (cm_id msg) t' w'"
proof (cases "connections t (cm_id msg) \<noteq> None \<or> pending_dials t (cm_id msg) = None")
  case True
  then show ?thesis
    using assms by (auto simp: handle_connection_response_def split: if_splits)
next
  case False
  then obtain pc where new: "connections t (cm_id msg) = None" "pending_dials t (cm_id msg) = Some pc"
    by auto
  obtain q1 where q1: "set_connection_message_received (queue_for t (cm_id msg)) = (Ok q1 :: (MessageQueue, 'x error) outcome)"
      "sequenced True ms (fst (pop_all q1)) (snd (pop_all q1))" "taken = []"
    using connected_ok [OF new(1) assms(1,2)] by blast
  show ?thesis
    using assms(3) connection_response_resolved [OF new q1(1), of w] new q1(2,3)
    by (cases "dial_shots w (pc_connection_tx pc) = Some Waiting")
      (auto simp: Let_def conn_ok_def only_touches_def queue_for_def Connection_drop_made chan_drop_rx_def)
qed

lemma conn_ok_net:
  "conn_chans w' = conn_chans w \<Longrightarrow> conn_ok taken ms cid t w' = conn_ok taken ms cid t w"
  by (simp add: conn_ok_def split: option.split)

lemma only_touches_net:
  "only_touches cid t w t' w1 \<Longrightarrow> conn_chans w' = conn_chans w1 \<Longrightarrow> fresh w1 \<le> fresh w' \<Longrightarrow>
   only_touches cid t w t' w'"
  by (auto simp: only_touches_def)

lemma handle_inbound_ok:
  fixes t :: "('k, 'r, 'm, 'x) NymTransport"
  assumes "node_ok K H t w" and "in_protocol_all (H @ [m])" and "handle_inbound A t m w = (r, t', w')"
  shows "\<not> panics r \<and> node_ok K (H @ [m]) t' w'"
proof -
  have ok: "conn_ok (K cid) (transport_msgs cid H) cid t w" for cid
    using assms(1) by (simp add: node_ok_def)
  have prot: "in_protocol (transport_msgs cid (H @ [m]))" for cid
    using assms(2) by (simp add: in_protocol_all_def)
  show ?thesis
  proof (cases m)
    case (ConnectionRequest c)
    obtain r1 t1 w1 where h: "handle_connection_request A t c w = (r1, t1, w1)" using prod_cases3 by blast
    have c: "\<not> panics r1" "only_touches (cm_id c) t w t1 w1"
        "conn_ok (K (cm_id c)) (transport_msgs (cm_id c) H) (cm_id c) t1 w1"
      using connection_request_ok [OF ok _ h] prot [of "cm_id c"] ConnectionRequest by auto
    have "t' = t1" "conn_chans w' = conn_chans w1" "fresh w1 \<le> fresh w'" "\<not> panics r"
      using assms(3) ConnectionRequest h c(1)
      by (cases r1; auto simp: handle_inbound_def new_upgrade_shot_def send_upgrade_def Let_def)+
    moreover from this have "conn_ok (K (cm_id c)) (transport_msgs (cm_id c) H) (cm_id c) t' w'"
      using c(3) by (simp add: conn_ok_net [of w' w1])
    ultimately show ?thesis
      using node_ok_step [OF assms(1), of "cm_id c" t' w' m] only_touches_net [OF c(2)]
        ConnectionRequest
      by simp
  next
    case (ConnectionResponse c)
    obtain r1 t1 w1 where h: "handle_connection_response t c w = (r1, t1, w1)" using prod_cases3 by blast
    have c: "\<not> panics r1" "only_touches (cm_id c) t w t1 w1"
        "conn_ok (K (cm_id c)) (transport_msgs (cm_id c) H) (cm_id c) t1 w1"
      using connection_response_ok [OF ok _ h] prot [of "cm_id c"] ConnectionResponse by auto
    then show ?thesis
      using node_ok_step [OF assms(1) c(2), of m] assms(3) h ConnectionResponse
      by (auto simp: handle_inbound_def)
  next
    case (TransportMsg c)
    obtain r1 t1 w1 where h: "handle_transport_message t c w = (r1, t1, w1)" using prod_cases3 by blast
    have c: "\<not> panics r1" "only_touches (tm_id c) t w t1 w1"
        "conn_ok (K (tm_id c)) (transport_msgs (tm_id c) H @ [c]) (tm_id c) t1 w1"
      using transport_message_ok [OF ok _ h] prot [of "tm_id c"] TransportMsg by auto
    then show ?thesis
      using node_ok_step [OF assms(1) c(2), of m] assms(3) h TransportMsg
      by (auto simp: handle_inbound_def)
  qed
qed

lemma node_ok_net:
  "conn_chans w' = conn_chans w \<Longrightarrow> fresh w' = fresh w \<Longrightarrow> node_ok K H t w' = node_ok K H t w"
  by (simp add: node_ok_def conn_ok_net [of w' w])

lemma node_ok_transport:
  assumes "connections t' = connections t" and "message_queues t' = message_queues t"
  shows "node_ok K H t' w = node_ok K H t w"
proof -
  have "queue_for t' = queue_for t" using assms by (simp add: queue_for_def fun_eq_iff)
  then have "conn_ok taken ms cid t' w = conn_ok taken ms cid t w" for taken ms cid
    using assms by (simp add: conn_ok_def split: option.split)
  then show ?thesis using assms by (simp add: node_ok_def)
qed

lemma node_ok_waker [simp]:
  "node_ok K H (t\<lparr>t_waker := k\<rparr>) w = node_ok K H t w"
  "node_ok K H (t\<lparr>poll_chan := ch\<rparr>) w = node_ok K H t w"
  by (rule node_ok_transport; simp)+

lemma poll_loop_ok:
  fixes t :: "('k, 'r, 'm, 'x) NymTransport" and w :: "('p, 'r, 'z) node_net_scheme"
  shows "node_ok K H t w \<Longrightarrow> buffer (inbound w) = map InboundMessage ins \<Longrightarrow> in_protocol_all (H @ ins) \<Longrightarrow>
   transport_poll_loop A cx t w = (r, t', w') \<Longrightarrow>
   \<exists>done rest. ins = done @ rest \<and> buffer (inbound w') = map InboundMessage rest \<and>
     node_ok K (H @ done) t' w' \<and> (\<forall>p. r \<noteq> Ready (Panic p)) \<and> (r = Pending \<longrightarrow> rest = [])"
proof (induction ins arbitrary: H t w)
  case Nil
  then show ?case
    by (intro exI [of _ "[]"])
      (auto simp: transport_poll_loop.simps [of A cx t w] chan_poll_recv_def node_ok_waker
        node_ok_net [of "w\<lparr>inbound := _\<rparr>" w] split: if_splits)
next
  case (Cons m ins)
  let ?w = "w\<lparr>inbound := (inbound w)\<lparr>buffer := map InboundMessage ins\<rparr>\<rparr>"
  have recv: "chan_poll_recv (inbound w) =
      (Ready (Some (InboundMessage m)), (inbound w)\<lparr>buffer := map InboundMessage ins\<rparr>)"
    using Cons.prems(2) by (simp add: chan_poll_recv_def)
  obtain r1 t1 w1 where h: "handle_inbound A t m ?w = (r1, t1, w1)" using prod_cases3 by blast
  have prot: "in_protocol_all (H @ [m])" "in_protocol_all ((H @ [m]) @ ins)"
    using Cons.prems(3) in_protocol_all_append [of "H @ [m]" ins] by simp_all
  have "node_ok K H t ?w" using Cons.prems(1) by (simp add: node_ok_net [of ?w w])
  then have one: "\<not> panics r1" "node_ok K (H @ [m]) t1 w1"
    using handle_inbound_ok [OF _ prot(1) h] by blast+
  have buf: "buffer (inbound w1) = map InboundMessage ins"
    using handle_inbound_inbound [OF h] by simp
  note loop = transport_poll_loop.simps [of A cx t w]
  show ?case
  proof (cases "\<exists>ev. r1 = Ok ev \<and> (\<forall>u. ev \<noteq> ConnectionRequestEvent u)")
    case True
    then have "transport_poll_loop A cx t1 w1 = (r, t', w')"
      using Cons.prems(4) recv h loop by (auto split: InboundTransportEvent.splits)
    from Cons.IH [OF one(2) buf prot(2) this] obtain dn rest where
      "ins = dn @ rest" "buffer (inbound w') = map InboundMessage rest"
      "node_ok K ((H @ [m]) @ dn) t' w'" "\<forall>p. r \<noteq> Ready (Panic p)" "r = Pending \<longrightarrow> rest = []"
      by blast
    then show ?thesis by (intro exI [of _ "m # dn"] exI [of _ rest]) simp
  next
    case False
    then have "t' = t1" "w' = w1" "\<exists>ev. r = Ready (Ok ev)"
      using Cons.prems(4) recv h loop one(1)
      by (cases r1; auto split: InboundTransportEvent.splits)+
    then show ?thesis using one(2) buf by (intro exI [of _ "[m]"] exI [of _ ins]) auto
  qed
qed

section \<open>Properties\<close>

lemma transport_poll_loop_chan:
  assumes "buffer (poll_chan t) = []"
  shows "transport_poll A cx t w = transport_poll_loop A cx t w"
proof -
  have "t\<lparr>poll_chan := poll_chan t\<rparr> = t" by simp
  then show ?thesis using assms by (simp add: transport_poll_def chan_poll_recv_def)
qed

text \<open>A node without connections and without arrivals satisfies the invariant.\<close>

lemma node_ok_start:
  "connections t = Map.empty \<Longrightarrow> message_queues t = Map.empty \<Longrightarrow> node_ok (\<lambda>_. []) [] t w"
  by (simp add: node_ok_def conn_ok_def queue_for_def mq.ok_init cells_ok_def)

definition demo_arrivals :: "(u8, u8) Message list" where
  "demo_arrivals = [TransportMsg (demo_data_message 2 [6]), ConnectionResponse demo_response,
     TransportMsg (demo_data_message 1 [5])]"

lemma demo_data_message_fields [simp]:
  "tm_nonce (demo_data_message n d) = n" "tm_id (demo_data_message n d) = demo_cid"
  "tm_message (demo_data_message n d) = new_with_data demo_sid d"
  by (simp_all add: demo_data_message_def)

lemma demo_arrivals_in_protocol: "in_protocol_all demo_arrivals"
  by (simp add: in_protocol_all_def demo_arrivals_def in_protocol_def)

lemma transport_poll_cases:
  fixes t :: "('k, 'r, 'm, 'x) NymTransport" and w :: "('p, 'r, 'z) node_net_scheme"
  assumes "node_ok K H t w" and "buffer (inbound w) = map InboundMessage ins"
    and "in_protocol_all (H @ ins)"
  shows "\<exists>r t' w' handled rest. transport_poll A cx t w = (r, t', w') \<and> ins = handled @ rest \<and>
    buffer (inbound w') = map InboundMessage rest \<and> node_ok K (H @ handled) t' w' \<and>
    (\<nexists>p. r = Ready (Panic p)) \<and> (r = Pending \<longrightarrow> rest = [])"
proof (cases "buffer (poll_chan t)")
  case Nil
  obtain r t' w' where "transport_poll_loop A cx t w = (r, t', w')" using prod_cases3 by blast
  then show ?thesis
    using poll_loop_ok [OF assms, of A cx r t' w'] transport_poll_loop_chan [OF Nil, of A cx w] by auto
next
  case (Cons ev evs)
  then have "transport_poll A cx t w = (Ready (Ok ev), t\<lparr>poll_chan := (poll_chan t)\<lparr>buffer := evs\<rparr>\<rparr>, w)"
    by (simp add: transport_poll_def chan_poll_recv_def)
  then show ?thesis using assms(1,2) by (intro exI conjI) auto
qed

text \<open>
  (C11) \<open>Transport::poll\<close> keeps the delivery invariant: it handles some of the waiting messages, in
  their order, and the invariant then holds with these among the arrivals; it stops early only to
  report an event, and with messages that follow the protocol (no nonce 0, no wrap-around) it never
  panics, whatever connection messages come with them.
\<close>

theorem transport_poll_keeps_delivery:
  fixes t :: "('k, 'r, 'm, 'x) NymTransport" and w :: "('p, 'r, 'z) node_net_scheme"
  assumes "node_ok K H t w" and "buffer (inbound w) = map InboundMessage ins"
    and "in_protocol_all (H @ ins)"
  shows "\<exists>r t' w' handled rest. transport_poll A cx t w = (r, t', w') \<and> ins = handled @ rest \<and>
    buffer (inbound w') = map InboundMessage rest \<and> node_ok K (H @ handled) t' w' \<and>
    (\<nexists>p. r = Ready (Panic p)) \<and> (r = Pending \<longrightarrow> rest = [])"
  using assms by (rule transport_poll_cases)

theorem transport_poll_keeps_delivery_witness:
  "\<exists>r t' w' handled rest.
    transport_poll demo_addressing 0 demo_transport (demo_node_net demo_arrivals) = (r, t', w') \<and>
    demo_arrivals = handled @ rest \<and> buffer (inbound w') = map InboundMessage rest \<and>
    node_ok (\<lambda>_. []) ([] @ handled) t' w' \<and> (\<nexists>p. r = Ready (Panic p)) \<and> (r = Pending \<longrightarrow> rest = [])"
  by (rule transport_poll_keeps_delivery)
    (simp_all add: node_ok_start demo_arrivals_in_protocol)

text \<open>
  (C10) End to end in one node: the remote side of a connection has numbered its messages \<open>xs\<close> from
  1.  Once all of them have arrived, in any order, with repetitions, interleaved with the messages of
  other connections, before or after the connection message, and \<open>poll\<close> has nothing more to do, the
  connection's channel has received exactly \<open>xs\<close>, each once and in order.
\<close>

theorem transport_delivers_in_order:
  fixes t :: "('k, 'r, 'm, 'x) NymTransport" and w :: "('p, 'r, 'z) node_net_scheme"
  assumes "node_ok K H t w" and "buffer (inbound w) = map InboundMessage ins"
    and "in_protocol_all (H @ ins)" and "transport_poll A cx t w = (Pending, t', w')"
    and "connections t' cid = Some a" and "conn_chans w' a = Some ch" and "rx_open ch"
    and "numbered xs" and "set (transport_msgs cid (H @ ins)) = set xs"
  shows "K cid @ buffer ch = map tm_message xs"
proof -
  obtain handled rest where "ins = handled @ rest" "node_ok K (H @ handled) t' w'" "rest = []"
    using transport_poll_cases [OF assms(1-3), of A cx] assms(4) by auto
  then have "conn_ok (K cid) (transport_msgs cid (H @ ins)) cid t' w'" by (simp add: node_ok_def)
  then obtain out q where "sequenced True (transport_msgs cid (H @ ins)) out q"
      "K cid @ buffer ch = map tm_message out"
    using assms(5-7) by (auto simp: conn_ok_def)
  then show ?thesis using mq.delivers_numbered [OF assms(8,9)] by simp
qed

text \<open>The three arrivals, one by one.\<close>

definition demo_queue :: "u64 \<Rightarrow> TransportMessage list \<Rightarrow> MessageQueue" where
  "demo_queue n ms = \<lparr>next_expected_nonce = n, queue = ms\<rparr>"

lemma demo_queue_fields [simp]:
  "next_expected_nonce (demo_queue n ms) = n" "queue (demo_queue n ms) = ms"
  "(demo_queue n ms)\<lparr>next_expected_nonce := k\<rparr> = demo_queue k ms"
  by (simp_all add: demo_queue_def)

definition demo_transport2 :: "(u8, u8, string, unit) NymTransport" where
  "demo_transport2 = set_queue demo_cid (demo_queue 0 [demo_data_message 2 [6]]) demo_transport"

definition demo_transport3 :: "(u8, u8, string, unit) NymTransport" where
  "demo_transport3 = (connected demo_cid 1 (demo_queue 1 [demo_data_message 2 [6]])
     (demo_transport2\<lparr>pending_dials := Map.empty\<rparr>))\<lparr>t_waker := None\<rparr>"

lemma demo_pop_all:
  "pop_all (demo_queue 1 [demo_data_message 2 [6]]) = ([], demo_queue 1 [demo_data_message 2 [6]])"
  "pop_all (demo_queue 2 [demo_data_message 2 [6]]) = ([demo_data_message 2 [6]], demo_queue 3 [])"
  by (simp_all add: pop_all.simps [of "demo_queue _ _"] pop_all.simps [of "\<lparr>next_expected_nonce = _, queue = _\<rparr>"]
      demo_queue_def pop_def)

lemma demo_step1:
  "handle_inbound A demo_transport (TransportMsg (demo_data_message 2 [6])) w =
     (Ok TransportMessageEvent, demo_transport2, w)"
  by (simp add: handle_inbound_def transport_message_queued [of demo_transport]
      demo_transport2_def demo_queue_def try_push_def MessageQueue_new_def)

lemma demo_step2:
  assumes "fresh w = 1" and "dial_shots w 0 = Some Waiting"
  shows "\<exists>w'. handle_inbound A demo_transport2 (ConnectionResponse demo_response) w =
      (Ok ConnectionResponseEvent, demo_transport3, w') \<and>
    conn_chans w' 1 = Some unbounded_channel \<and> inbound w' = inbound w"
proof -
  have "set_connection_message_received (queue_for demo_transport2 demo_cid) =
      (Ok (demo_queue 1 [demo_data_message 2 [6]]) :: (MessageQueue, unit error) outcome)"
    by (simp add: queue_for_def demo_transport2_def set_connection_message_received_def demo_queue_def)
  moreover have "connections demo_transport2 demo_cid = None"
      "pending_dials demo_transport2 = [demo_cid \<mapsto> \<lparr>pc_remote_recipient = 3, pc_connection_tx = 0\<rparr>]"
      "t_waker demo_transport2 = None"
    by (simp_all add: demo_transport2_def)
  ultimately show ?thesis
    using assms
    by (simp add: handle_inbound_def connection_response_resolved demo_transport3_def Let_def
        wake_taken_def flushed_to_def demo_pop_all)
qed

lemma demo_step3:
  assumes "conn_chans w 1 = Some ch" and "rx_open ch"
  shows "\<exists>t' w'. handle_inbound A demo_transport3 (TransportMsg (demo_data_message 1 [5])) w =
      (Ok TransportMessageEvent, t', w') \<and> connections t' demo_cid = Some 1 \<and>
    conn_chans w' 1 = Some (ch\<lparr>buffer := buffer ch @
      [new_with_data demo_sid [5], new_with_data demo_sid [6]]\<rparr>) \<and> inbound w' = inbound w"
proof -
  have p: "try_push (queue_for demo_transport3 demo_cid) (demo_data_message 1 [5]) =
      (Some (demo_data_message 1 [5]), demo_queue 2 [demo_data_message 2 [6]])"
    by (simp add: queue_for_def demo_transport3_def demo_pop_all try_push_def)
  have c: "connections demo_transport3 demo_cid = Some 1" by (simp add: demo_transport3_def)
  have "handle_transport_message demo_transport3 (demo_data_message 1 [5]) w =
      (Ok (), set_queue demo_cid (demo_queue 3 []) demo_transport3,
       wake_taken (t_waker demo_transport3)
         (append_conn 1 [new_with_data demo_sid [5], new_with_data demo_sid [6]] w))"
    using p c assms
    by (subst transport_message_handed [of _ _ "demo_data_message 1 [5]" "demo_queue 2 [demo_data_message 2 [6]]" 1 _ ch])
      (simp_all add: demo_pop_all)
  then show ?thesis using c assms by (simp add: handle_inbound_def)
qed

lemma demo_poll:
  "\<exists>t' w'. transport_poll demo_addressing 0 demo_transport (demo_node_net demo_arrivals) = (Pending, t', w') \<and>
     connections t' demo_cid = Some 1 \<and>
     conn_chans w' 1 = Some (unbounded_channel\<lparr>buffer :=
       [new_with_data demo_sid [5], new_with_data demo_sid [6]]\<rparr>)"
proof -
  let ?w1 = "(demo_node_net demo_arrivals)\<lparr>inbound := unbounded_channel\<lparr>buffer := map InboundMessage (tl demo_arrivals)\<rparr>\<rparr>"
  let ?w2 = "?w1\<lparr>inbound := unbounded_channel\<lparr>buffer := map InboundMessage (drop 2 demo_arrivals)\<rparr>\<rparr>"
  obtain w2 where s2: "handle_inbound demo_addressing demo_transport2 (ConnectionResponse demo_response) ?w2 =
      (Ok ConnectionResponseEvent, demo_transport3, w2)" "conn_chans w2 1 = Some unbounded_channel"
      "inbound w2 = inbound ?w2"
    using demo_step2 [of ?w2 demo_addressing] by auto
  let ?w3 = "w2\<lparr>inbound := unbounded_channel\<rparr>"
  obtain t3 w3 where s3: "handle_inbound demo_addressing demo_transport3 (TransportMsg (demo_data_message 1 [5])) ?w3 =
      (Ok TransportMessageEvent, t3, w3)" "connections t3 demo_cid = Some 1"
      "conn_chans w3 1 = Some (unbounded_channel\<lparr>buffer :=
         [new_with_data demo_sid [5], new_with_data demo_sid [6]]\<rparr>)" "inbound w3 = inbound ?w3"
    using demo_step3 [of ?w3 unbounded_channel demo_addressing] s2(2) by auto
  show ?thesis
    using s2 s3
    by (simp add: transport_poll_loop_chan transport_poll_loop.simps [of _ _ demo_transport]
        transport_poll_loop.simps [of _ _ demo_transport2] transport_poll_loop.simps [of _ _ demo_transport3]
        transport_poll_loop.simps [of _ _ t3] chan_poll_recv_def demo_arrivals_def demo_step1
        unbounded_channel_def)
qed

theorem transport_delivers_in_order_witness:
  "\<exists>t' w' ch. transport_poll demo_addressing 0 demo_transport (demo_node_net demo_arrivals) = (Pending, t', w') \<and>
     connections t' demo_cid = Some 1 \<and> conn_chans w' 1 = Some ch \<and>
     buffer ch = map tm_message [demo_data_message 1 [5], demo_data_message 2 [6]]"
proof -
  obtain t' w' where p: "transport_poll demo_addressing 0 demo_transport (demo_node_net demo_arrivals) =
      (Pending, t', w')" "connections t' demo_cid = Some 1"
      "conn_chans w' 1 = Some (unbounded_channel\<lparr>buffer :=
         [new_with_data demo_sid [5], new_with_data demo_sid [6]]\<rparr>)"
    using demo_poll by blast
  have "(\<lambda>_. []) demo_cid @ buffer (unbounded_channel\<lparr>buffer :=
         [new_with_data demo_sid [5], new_with_data demo_sid [6]]\<rparr>) =
      map tm_message [demo_data_message 1 [5], demo_data_message 2 [6]]"
    by (rule transport_delivers_in_order [OF node_ok_start _ _ p, of demo_arrivals])
      (use demo_arrivals_in_protocol in \<open>auto simp: demo_arrivals_def numbered_def\<close>)
  then show ?thesis using p by auto
qed

end
