(* ===== verification/Handshake.thy ===== *)
theory Handshake
  imports Delivery
begin

text \<open>
  How connections come to be: dialling, the connection request and response, the futures that hand
  the connection out, timeouts, the transport's own events and the address formats.
\<close>

section \<open>Addresses\<close>

text \<open>
  What the address formats of the two crates document: printing and parsing a Nym address are
  inverse, and a multiaddress made from a printed Nym address consists of that one Nym component.
\<close>

definition addressing_ok :: "('k, 'p, 'r, 'm, 'x) addressing \<Rightarrow> bool" where
  "addressing_ok A \<longleftrightarrow>
     (\<forall>r. Recipient_from_str A (Recipient_display A r) = Inr r) \<and>
     (\<forall>r m. Multiaddr_from_str A (''/nym/'' @ Recipient_display A r) = Inr m \<longrightarrow>
        Multiaddr_pop A m = Some (Nym (Recipient_display A r)))"

lemma demo_addressing_ok: "addressing_ok demo_addressing"
proof -
  have "Recipient_from_str demo_addressing (Recipient_display demo_addressing r) = Inr r" for r
    using unsigned_less [of r] by (simp add: demo_addressing_def list_all_iff)
  then show ?thesis by (simp add: addressing_ok_def demo_addressing_def)
qed

lemma demo_display [simp]:
  "Recipient_display demo_addressing 3 = ''xxx''" "Recipient_display demo_addressing 4 = ''xxxx''"
proof -
  have "replicate 3 CHR ''x'' = ''xxx''" "replicate 4 CHR ''x'' = ''xxxx''"
    by (simp_all add: numeral_eq_Suc)
  then show "Recipient_display demo_addressing 3 = ''xxx''" "Recipient_display demo_addressing 4 = ''xxxx''"
    by (simp_all add: demo_addressing_def)
qed

lemma demo_Multiaddr [simp]:
  "Multiaddr_from_str demo_addressing (''/nym/'' @ s) = Inr (''/nym/'' @ s)"
  by (simp add: demo_addressing_def)

text \<open>The multiaddress a node listens on, given to \<open>dial\<close>, leads to the node's own Nym address.\<close>

lemma address_roundtrip:
  assumes "addressing_ok A" and "nym_address_to_multiaddress A r = Ok m"
  shows "multiaddress_to_nym_address A m = Ok r"
  using assms
  by (auto simp: addressing_ok_def nym_address_to_multiaddress_def multiaddress_to_nym_address_def
      outcome_simps)

section \<open>Start\<close>

text \<open>
  (C34) A new transport: it listens on the multiaddress of the address the Nym client gave, its first
  event announces that address, the handshake timeout is the given one or five seconds, and it has no
  connections, so that the delivery invariant holds.
\<close>

theorem new_transport_ready:
  assumes "new_maybe_with_notify_inbound A api lid conn kp notify d w = (Ready (Ok (t, task)), w')"
  shows "nym_address_to_multiaddress A (self_address t) = Ok (listen_addr t) \<and>
    transport_poll A cx t v =
      (Ready (Ok (NewAddress (listener_id t) (listen_addr t))), t\<lparr>poll_chan := unbounded_channel\<rparr>, v) \<and>
    handshake_timeout t = (case d of None \<Rightarrow> 5000000000 | Some k \<Rightarrow> k) \<and>
    node_ok (\<lambda>_. []) [] t w' \<and> inbound w' = unbounded_channel \<and> outbound w' = unbounded_channel"
proof -
  obtain me where i: "initialize_mixnet api conn notify w = (Ready (Ok (me, task)), w')"
      and n: "nym_address_to_multiaddress A me = Ok (listen_addr t)" "self_address t = me"
      "poll_chan t = unbounded_channel\<lparr>buffer := [NewAddress (listener_id t) (listen_addr t)]\<rparr>"
      "connections t = Map.empty" "message_queues t = Map.empty"
      "handshake_timeout t = (case d of None \<Rightarrow> from_secs DEFAULT_HANDSHAKE_TIMEOUT_SECS | Some k \<Rightarrow> k)"
    using assms
    by (auto simp: new_maybe_with_notify_inbound_def split: prod.splits poll.splits outcome.splits)
  then obtain ws where ws: "conn = Inr ws" by (cases conn) (auto simp: initialize_mixnet_def)
  have "w' = w\<lparr>inbound := unbounded_channel, outbound := unbounded_channel\<rparr>"
    using initialize_mixnet_Ok [OF i [unfolded ws]] by simp
  then show ?thesis
    using n node_ok_start [of t]
    by (auto simp: transport_poll_def chan_poll_recv_def from_secs_def DEFAULT_HANDSHAKE_TIMEOUT_SECS_def
        unbounded_channel_def split: option.splits)
qed

theorem new_transport_ready_witness:
  "\<exists>t task w'. NymTransport_new demo_addressing demo_api 0 (Inr (demo_ws [Inr (Text [1, 4])])) 1 demo_mix_net =
      (Ready (Ok (t, task)), w') \<and>
    transport_poll demo_addressing 9 t (demo_node_net []) =
      (Ready (Ok (NewAddress 0 ''/nym/xxxx'')), t\<lparr>poll_chan := unbounded_channel\<rparr>, demo_node_net []) \<and>
    handshake_timeout t = 5000000000"
proof -
  have "nym_address_to_multiaddress demo_addressing 4 = Ok ''/nym/xxxx''"
    using demo_Multiaddr [of "''xxxx''"] by (simp add: nym_address_to_multiaddress_def)
  then obtain t :: "(u8, u8, string, unit) NymTransport" and task w' where
    t: "new_maybe_with_notify_inbound demo_addressing demo_api 0 (Inr (demo_ws [Inr (Text [1, 4])])) 1 None None
        demo_mix_net = (Ready (Ok (t, task)), w')" "listener_id t = 0" "listen_addr t = ''/nym/xxxx''"
    by (simp add: new_maybe_with_notify_inbound_def initialize_mixnet_def get_self_address_def
        send_poll_def flush_poll_def parse_nym_message_def demo_ws_def demo_api_def)
  show ?thesis
    using t new_transport_ready [OF t(1), of 9 "demo_node_net []"]
    by (auto simp: NymTransport_new_def)
qed

section \<open>Dialling\<close>

text \<open>The dial future's polls, in one equation each.\<close>

lemma clock_ok_new: "clock_ok c \<Longrightarrow> 0 < d \<Longrightarrow> \<not> fired c (time c + d)"
  by (auto simp: clock_ok_def)

lemma dial_poll_start:
  assumes "rx_open (outbound w)" and "dial_shots w shot = Some Waiting" and "0 < d" and "clock_ok now"
  shows "dial_poll now (DialStart msg recipient wk d shot) w =
    (Pending, DialWaiting (time now + d) shot, wake_taken wk
      (w\<lparr>outbound := (outbound w)\<lparr>buffer := buffer (outbound w) @
          [\<lparr>om_message = ConnectionRequest msg, om_recipient = recipient\<rparr>]\<rparr>\<rparr>))"
  using assms clock_ok_new [OF assms(4,3)]
  by (cases wk) (simp_all add: dial_poll_def dial_wait_def wake_taken_def fun_upd_idem)

definition demo_clock :: "nat \<Rightarrow> clock" where
  "demo_clock n = \<lparr>time = n, fired = (\<lambda>d. d \<le> n)\<rparr>"

lemma demo_clock_simps [simp]: "clock_ok (demo_clock n)" "time (demo_clock n) = n" "fired (demo_clock n) d = (d \<le> n)"
  by (simp_all add: demo_clock_def clock_ok_def)

text \<open>
  (C18) Dialling, every branch.  A multiaddress that is not a Nym address is refused and changes
  nothing.  Otherwise the transport remembers the dial under a new identifier, and the first poll of
  the future sends one connection request with our address to the remote node and then waits.
\<close>

theorem dial_behaviour:
  assumes "rx_open (outbound w)" and "0 < handshake_timeout t" and "clock_ok now"
    and "pending_dials t (ConnectionId_generate fill) = None"
  shows "(case multiaddress_to_nym_address A addr of
      Err e \<Rightarrow> dial A fill t addr w = (Err e, t, w)
    | Panic p \<Rightarrow> dial A fill t addr w = (Panic p, t, w) \<and> Multiaddr_pop A addr = None
    | Ok recipient \<Rightarrow>
        (\<exists>f w1. dial A fill t addr w =
            (Ok f, t\<lparr>pending_dials := (pending_dials t)(ConnectionId_generate fill \<mapsto>
                      PendingConnection_new recipient (fresh w))\<rparr>, w1) \<and>
          dial_shots w1 (fresh w) = Some Waiting \<and> buffer (outbound w1) = buffer (outbound w) \<and>
          (\<exists>w2. dial_poll now f w1 = (Pending, DialWaiting (time now + handshake_timeout t) (fresh w), w2) \<and>
             dial_shots w2 = dial_shots w1 \<and>
             buffer (outbound w2) = buffer (outbound w) @
               [\<lparr>om_message = ConnectionRequest
                   \<lparr>cm_peer_id = peer_id A t, cm_id = ConnectionId_generate fill,
                    cm_recipient = Some (self_address t)\<rparr>,
                 om_recipient = recipient\<rparr>])))"
proof (cases "multiaddress_to_nym_address A addr")
  case (Ok recipient)
  then show ?thesis
    using assms
    by (simp add: dial_def new_dial_shot_def drop_pending_def peer_id_def Let_def dial_poll_start)
next
  case (Panic p)
  then have "Multiaddr_pop A addr = None"
    by (auto simp: multiaddress_to_nym_address_def dest!: arg_cong [of _ _ panics]
        split: option.splits protocol.splits)
  with Panic show ?thesis by (simp add: dial_def)
qed (simp add: dial_def)

lemma demo_to_nym: "multiaddress_to_nym_address demo_addressing ''/nym/xxx'' = Ok 3"
  by (simp add: multiaddress_to_nym_address_def demo_addressing_def)

theorem dial_behaviour_witness:
  "\<exists>f t1 w1 w2. (dial demo_addressing (\<lambda>n. replicate n 8) demo_transport ''/nym/xxx'' (demo_node_net [])) =
      ((Ok f :: ((u8, u8) DialFuture, unit error) outcome), t1, w1) \<and>
    (dial_poll (demo_clock 100) f w1 :: (u8 \<times> (u8, u8) Connection, unit error) outcome poll \<times> _) =
      (Pending, DialWaiting 5000000100 1, w2) \<and>
    buffer (outbound w2) =
      [\<lparr>om_message = ConnectionRequest
          \<lparr>cm_peer_id = 1, cm_id = ConnectionId (replicate 32 8), cm_recipient = Some 4\<rparr>,
        om_recipient = 3\<rparr>]"
proof -
  have "ConnectionId_generate (\<lambda>n. replicate n 8) = ConnectionId (replicate 32 8)"
    by (simp add: ConnectionId_generate_def)
  moreover have "handshake_timeout demo_transport = 5000000000" "self_address demo_transport = 4"
      "peer_id demo_addressing demo_transport = 1"
    by (simp_all add: demo_transport_def from_secs_def peer_id_def demo_addressing_def)
  moreover have "pending_dials demo_transport (ConnectionId (replicate 32 8)) = None"
    by (simp add: demo_cid_def)
  ultimately show ?thesis
    using dial_behaviour [of "demo_node_net []" demo_transport "demo_clock 100" "\<lambda>n. replicate n 8" demo_addressing "''/nym/xxx''"]
    by (simp add: demo_to_nym) blast
qed

lemma conn_inv_made: "conn_inv (conn_made peer recipient cid w) w'"
  by (simp add: conn_inv_def cells_ok_def)

text \<open>
  (C16) A connection request, every branch.  Without a return address, or for a known connection, it is
  refused and changes nothing.  An accepted request enters the connection, sends one response to the
  return address, moves the messages that were waiting for it into its channel in order, and gives out
  the connection, with its invariant, through the upgrade of an \<open>Incoming\<close> event.  When the response
  cannot be sent because the mixnet task is gone, the request fails only after the connection has been
  entered: the transport is left with a connection whose receiver has been dropped, and the waiting
  messages are gone with it.
\<close>

theorem connection_request_behaviour:
  fixes t :: "('k, 'r, 'm, 'x) NymTransport"
  assumes "conn_ok [] ms (cm_id msg) t w" and "in_protocol ms"
  shows "(case cm_recipient msg of
      None \<Rightarrow> handle_inbound A t (ConnectionRequest msg) w = (Err NoneRecipientInConnectionRequest, t, w)
    | Some recipient \<Rightarrow>
        if connections t (cm_id msg) \<noteq> None
        then handle_inbound A t (ConnectionRequest msg) w = (Err ConnectionIDExists, t, w)
        else if \<not> rx_open (outbound w)
        then
          (\<exists>t' w' a ch out. handle_inbound A t (ConnectionRequest msg) w =
              (Err (OutboundSendError ChannelClosed), t', w') \<and> outbound w' = outbound w \<and>
            connections t' = (connections t)(cm_id msg \<mapsto> a) \<and> conn_chans w' a = Some ch \<and>
            \<not> rx_open ch \<and> buffer ch = [] \<and> sequenced True ms out (queue_for t' (cm_id msg)))
        else
          (\<exists>u t' w' out conn. handle_inbound A t (ConnectionRequest msg) w =
              (Ok (ConnectionRequestEvent u), t', w') \<and>
            fst (Upgrade_poll u w' :: ('p \<times> ('p, 'r) Connection, 'x error) outcome poll \<times> _) =
              Ready (Ok (cm_peer_id msg, conn)) \<and>
            c_peer_id conn = cm_peer_id msg \<and> c_remote_recipient conn = recipient \<and>
            c_id conn = cm_id msg \<and> conn_inv conn w' \<and>
            connections t' (cm_id msg) = Some (c_inbound_rx conn) \<and>
            inbox conn w' = map tm_message out \<and> sequenced True ms out (queue_for t' (cm_id msg)) \<and>
            nonces w' (c_message_nonce conn) = Some 1 \<and>
            buffer (outbound w') = buffer (outbound w) @
              [\<lparr>om_message = ConnectionResponse
                  \<lparr>cm_peer_id = peer_id A t, cm_id = cm_id msg, cm_recipient = None\<rparr>,
                om_recipient = recipient\<rparr>]))"
proof (cases "cm_recipient msg")
  case (Some recipient)
  show ?thesis
  proof (cases "connections t (cm_id msg)")
    case None
    obtain q1 where q1: "set_connection_message_received (queue_for t (cm_id msg)) = (Ok q1 :: (MessageQueue, 'x error) outcome)"
        "sequenced True ms (fst (pop_all q1)) (snd (pop_all q1))"
      using connected_ok [OF None assms(1,2)] by blast
    then have ex: "\<exists>out. map tm_message (fst (pop_all q1)) = map tm_message out \<and>
        sequenced True ms out (snd (pop_all q1))" by blast
    have [simp]: "upgrade_shots (flushed_to q1 w) = upgrade_shots w" "nonces (flushed_to q1 w) (Suc (fresh w)) = Some 1"
      by (simp_all add: flushed_to_def)
    note accepted = handle_inbound_def connection_request_accepted [OF Some None q1(1)] Let_def queue_for_def
    show ?thesis
    proof (cases "rx_open (outbound w)")
      case True
      then show ?thesis
        using Some None ex
        by (simp add: accepted new_upgrade_shot_def send_upgrade_def Upgrade_new_def Upgrade_poll_def
            conn_inv_made inbox_def)
    next
      case False
      have "\<exists>out. sequenced True ms out (snd (pop_all q1))" using ex by blast
      then show ?thesis
        using Some None False
        by (simp add: accepted Connection_drop_made chan_drop_rx_def) (auto intro: exI [of _ "fresh w"])
    qed
  qed (use Some in \<open>simp add: handle_inbound_def handle_connection_request_def\<close>)
qed (simp add: handle_inbound_def handle_connection_request_def)

theorem connection_request_behaviour_witness:
  "\<exists>u t' w' conn. handle_inbound demo_addressing demo_transport (ConnectionRequest demo_request) (demo_node_net []) =
      (Ok (ConnectionRequestEvent u), t', w') \<and>
    fst (Upgrade_poll u w' :: (u8 \<times> (u8, u8) Connection, unit error) outcome poll \<times> _) = Ready (Ok (2, conn)) \<and>
    c_remote_recipient conn = 3 \<and> connections t' demo_cid = Some (c_inbound_rx conn) \<and>
    buffer (outbound w') =
      [\<lparr>om_message = ConnectionResponse \<lparr>cm_peer_id = 1, cm_id = demo_cid, cm_recipient = None\<rparr>,
        om_recipient = 3\<rparr>]"
proof -
  have "conn_ok [] [] (cm_id demo_request) demo_transport (demo_node_net [])"
    by (simp add: conn_ok_def mq.ok_init)
  moreover have "peer_id demo_addressing demo_transport = 1"
    by (simp add: demo_transport_def peer_id_def demo_addressing_def)
  ultimately show ?thesis
    using connection_request_behaviour [of "[]" demo_request demo_transport "demo_node_net []" demo_addressing]
    by (simp add: in_protocol_def) blast
qed

text \<open>
  (C17) A connection response, every branch.  For a known connection, or without a pending dial, it is
  refused and changes nothing.  Otherwise the dial is no longer pending and the connection is entered;
  when the dial still waits it receives the connection, with the messages that were queued for it in
  its channel; when it has timed out, the transport answers with an error and is left with a
  connection whose receiver is gone.
\<close>

theorem connection_response_behaviour:
  fixes t :: "('k, 'r, 'm, 'x) NymTransport"
  assumes "conn_ok [] ms (cm_id msg) t w" and "in_protocol ms"
  shows "(if connections t (cm_id msg) \<noteq> None
      then handle_inbound A t (ConnectionResponse msg) w = (Err ConnectionAlreadyEstablished, t, w)
      else case pending_dials t (cm_id msg) of
        None \<Rightarrow> handle_inbound A t (ConnectionResponse msg) w = (Err NoConnectionForResponse, t, w)
      | Some pc \<Rightarrow>
          if dial_shots w (pc_connection_tx pc) = Some Waiting
          then (\<exists>t' w' conn out. handle_inbound A t (ConnectionResponse msg) w = (Ok ConnectionResponseEvent, t', w') \<and>
             pending_dials t' = (pending_dials t)(cm_id msg := None) \<and>
             dial_shots w' (pc_connection_tx pc) = Some (Sent conn) \<and>
             c_peer_id conn = cm_peer_id msg \<and> c_remote_recipient conn = pc_remote_recipient pc \<and>
             c_id conn = cm_id msg \<and> conn_inv conn w' \<and>
             connections t' (cm_id msg) = Some (c_inbound_rx conn) \<and>
             inbox conn w' = map tm_message out \<and> sequenced True ms out (queue_for t' (cm_id msg)))
          else (\<exists>t' w'. handle_inbound A t (ConnectionResponse msg) w = (Err ConnectionSendError, t', w') \<and>
             pending_dials t' = (pending_dials t)(cm_id msg := None) \<and>
             (\<exists>a ch. connections t' (cm_id msg) = Some a \<and> conn_chans w' a = Some ch \<and> \<not> rx_open ch)))"
proof (cases "connections t (cm_id msg) \<noteq> None \<or> pending_dials t (cm_id msg) = None")
  case True
  then show ?thesis by (auto simp: handle_inbound_def handle_connection_response_def)
next
  case False
  then obtain pc where new: "connections t (cm_id msg) = None" "pending_dials t (cm_id msg) = Some pc"
    by auto
  obtain q1 where q1: "set_connection_message_received (queue_for t (cm_id msg)) = (Ok q1 :: (MessageQueue, 'x error) outcome)"
      "sequenced True ms (fst (pop_all q1)) (snd (pop_all q1))"
    using connected_ok [OF new(1) assms] by blast
  then have ex: "\<exists>out. map tm_message (fst (pop_all q1)) = map tm_message out \<and>
      sequenced True ms out (snd (pop_all q1))" by blast
  have [simp]: "pending_dials (connected cid a q1 t1) = pending_dials t1" for cid a t1
    by (simp add: connected_def)
  show ?thesis
    using new ex
    by (cases "dial_shots w (pc_connection_tx pc) = Some Waiting")
      (simp_all add: handle_inbound_def connection_response_resolved [OF new q1(1)] Let_def conn_inv_made
        Connection_drop_made chan_drop_rx_def queue_for_def inbox_def)
qed

theorem connection_response_behaviour_witness:
  "\<exists>t' w' conn. handle_inbound demo_addressing demo_transport (ConnectionResponse demo_response) (demo_node_net []) =
      (Ok ConnectionResponseEvent, t', w') \<and> dial_shots w' 0 = Some (Sent conn) \<and>
    c_peer_id conn = 2 \<and> c_remote_recipient conn = 3 \<and> connections t' demo_cid = Some (c_inbound_rx conn)"
proof -
  have "conn_ok [] [] (cm_id demo_response) demo_transport (demo_node_net [])"
    by (simp add: conn_ok_def mq.ok_init)
  then show ?thesis
    using connection_response_behaviour [of "[]" demo_response demo_transport "demo_node_net []" demo_addressing]
    by (simp add: in_protocol_def) blast
qed

text \<open>
  (C35) A peer can crash the node: a transport message with nonce 0 for an identifier that is not known
  yet is answered with an error, but advances the queue's expected nonce, and the connection request
  with that identifier that follows makes the transport panic.
\<close>

theorem nonce_zero_crashes:
  fixes t :: "('k, 'r, 'm, 'x) NymTransport"
  assumes "connections t (tm_id m) = None" and "message_queues t (tm_id m) = None"
    and "tm_nonce m = 0" and "cm_id req = tm_id m" and "cm_recipient req = Some recipient"
  shows "\<exists>t1 t2 w2. handle_inbound A t (TransportMsg m) w = (Err NoConnectionForTransportMessage, t1, w) \<and>
    handle_inbound A t1 (ConnectionRequest req) w = (Panic ''connection message received twice'', t2, w2)"
proof -
  let ?t1 = "set_queue (tm_id m) \<lparr>next_expected_nonce = 1, queue = []\<rparr> t"
  have "try_push (queue_for t (tm_id m)) m = (Some m, \<lparr>next_expected_nonce = 1, queue = []\<rparr>)"
    using assms by (simp add: queue_for_def try_push_def MessageQueue_new_def)
  then have "handle_inbound A t (TransportMsg m) w = (Err NoConnectionForTransportMessage, ?t1, w)"
    using assms(1) by (simp add: handle_inbound_def transport_message_unknown)
  moreover have "handle_inbound A ?t1 (ConnectionRequest req) w =
      (Panic ''connection message received twice'',
       ?t1\<lparr>connections := (connections t)(tm_id m \<mapsto> fresh w)\<rparr>, with_conn w)"
    using assms
    by (simp add: handle_inbound_def handle_connection_request_def create_connection_types_eq
        initiation_panics [of _ _ "fresh w"] queue_for_def)
  ultimately show ?thesis by blast
qed

theorem nonce_zero_crashes_witness:
  "\<exists>t1 t2 w2. handle_inbound demo_addressing demo_transport (TransportMsg (demo_data_message 0 [1])) (demo_node_net []) =
      (Err NoConnectionForTransportMessage, t1, demo_node_net []) \<and>
    handle_inbound demo_addressing t1 (ConnectionRequest demo_request) (demo_node_net []) =
      (Panic ''connection message received twice'', t2, w2)"
  by (rule nonce_zero_crashes [of _ _ _ 3]) simp_all

text \<open>
  (C36) A dial that has timed out leaves its entry in \<open>pending_dials\<close>, and the late response then does
  harm: the transport reports an error and keeps a connection without a receiver, so that every
  further message that is due for that connection is reported as an error too, and a new response is
  refused as already established.
\<close>

theorem late_response:
  fixes t :: "('k, 'r, 'm, 'x) NymTransport"
  assumes "pending_dials t (cm_id msg) = Some pc" and "connections t (cm_id msg) = None"
    and "dial_shots w (pc_connection_tx pc) = Some Waiting"
    and "message_queues t (cm_id msg) = None" and "fired now deadline"
    and "tm_id m = cm_id msg" and "tm_nonce m = 1"
  shows "\<exists>w1 t2 w2 t3.
    dial_poll now (DialWaiting deadline (pc_connection_tx pc)) w =
      ((Ready (Err DialTimeout) :: ('p \<times> ('p, 'r) Connection, 'x error) outcome poll), DialDone, w1) \<and>
    handle_inbound A t (ConnectionResponse msg) w1 = (Err ConnectionSendError, t2, w2) \<and>
    handle_inbound A t2 (TransportMsg m) w2 = (Err (InboundSendError ChannelClosed), t3, w2) \<and>
    handle_inbound A t3 (ConnectionResponse msg) w2 = (Err ConnectionAlreadyEstablished, t3, w2)"
proof -
  let ?w1 = "w\<lparr>dial_shots := (dial_shots w)(pc_connection_tx pc \<mapsto> RxDropped)\<rparr>"
  let ?q1 = "\<lparr>next_expected_nonce = 1, queue = []\<rparr> :: MessageQueue"
  let ?t2 = "connected (cm_id msg) (fresh w) ?q1 (t\<lparr>pending_dials := (pending_dials t)(cm_id msg := None)\<rparr>)"
  let ?w2 = "Connection_drop (conn_made (cm_peer_id msg) (pc_remote_recipient pc) (cm_id msg) ?w1) (flushed_to ?q1 ?w1)"
  have "dial_poll now (DialWaiting deadline (pc_connection_tx pc)) w =
      ((Ready (Err DialTimeout) :: ('p \<times> ('p, 'r) Connection, 'x error) outcome poll), DialDone, ?w1)"
    using assms(3,5) by (simp add: dial_poll_def dial_wait_def)
  moreover have "handle_inbound A t (ConnectionResponse msg) ?w1 = (Err ConnectionSendError, ?t2, ?w2)"
    using assms(1-4)
    by (simp add: handle_inbound_def connection_response_resolved [of t msg pc ?q1] queue_for_def
        MessageQueue_new_def set_connection_message_received_def Let_def)
  moreover have q: "pop_all ?q1 = ([], ?q1)" by (subst pop_all.simps) (simp add: pop_def)
  have "handle_inbound A ?t2 (TransportMsg m) ?w2 =
      (Err (InboundSendError ChannelClosed), set_queue (cm_id msg) \<lparr>next_expected_nonce = 2, queue = []\<rparr> ?t2, ?w2)"
  proof -
    have "try_push (queue_for ?t2 (tm_id m)) m = (Some m, \<lparr>next_expected_nonce = 2, queue = []\<rparr>)"
      using assms(6,7) by (simp add: queue_for_def try_push_def q)
    moreover have "conn_chans ?w2 (fresh w) = Some (chan_drop_rx unbounded_channel)"
      by (simp add: Connection_drop_made q unbounded_channel_def)
    ultimately show ?thesis
      using assms(6)
      by (simp add: handle_inbound_def transport_message_closed [of _ _ m _ "fresh w"] chan_drop_rx_def)
  qed
  moreover have "handle_inbound A (set_queue (cm_id msg) \<lparr>next_expected_nonce = 2, queue = []\<rparr> ?t2)
      (ConnectionResponse msg) ?w2 =
    (Err ConnectionAlreadyEstablished, set_queue (cm_id msg) \<lparr>next_expected_nonce = 2, queue = []\<rparr> ?t2, ?w2)"
    by (simp add: handle_inbound_def handle_connection_response_def)
  ultimately show ?thesis by blast
qed

theorem late_response_witness:
  "\<exists>w1 t2 w2 t3.
    dial_poll (demo_clock 7) (DialWaiting 6 0) (demo_node_net []) =
      ((Ready (Err DialTimeout) :: (u8 \<times> (u8, u8) Connection, unit error) outcome poll), DialDone, w1) \<and>
    handle_inbound demo_addressing demo_transport (ConnectionResponse demo_response) w1 = (Err ConnectionSendError, t2, w2) \<and>
    handle_inbound demo_addressing t2 (TransportMsg (demo_data_message 1 [5])) w2 =
      (Err (InboundSendError ChannelClosed), t3, w2) \<and>
    handle_inbound demo_addressing t3 (ConnectionResponse demo_response) w2 = (Err ConnectionAlreadyEstablished, t3, w2)"
  using late_response [of demo_transport demo_response "\<lparr>pc_remote_recipient = 3, pc_connection_tx = 0\<rparr>"
      "demo_node_net []" "demo_clock 7" 6 "demo_data_message 1 [5]" demo_addressing]
  by simp

end
