(* ===== verification/Node.thy ===== *)
theory Node
  imports Handshake
begin

text \<open>
  A whole node: the transport, the connections, substreams and futures its user holds, and the shared
  cells.  Everything the user, the executor and the mixnet task can do to it is an action; a node
  runs by any sequence of actions.  The logs record what the mixnet task took from the outbound
  channel, what the transport has handled, and what every connection took from its channel.
\<close>

section \<open>State and actions\<close>

record ('k, 'p, 'r, 'm, 'x) node =
  n_t :: "('k, 'r, 'm, 'x) NymTransport"
  n_w :: "('p, 'r) node_net"
  n_conns :: "('p, 'r) Connection list"
  n_subs :: "'r Substream list"
  n_dials :: "('p, 'r) DialFuture list"
  n_ups :: "Upgrade list"
  n_sent :: "('p, 'r) OutboundMessage list"
  n_seen :: "('p, 'r) Message list"
  n_taken :: "ConnectionId \<Rightarrow> SubstreamMessage list"

datatype ('p, 'r, 'm) action =
    Poll nat
  | RemoveListener nat
  | Dial "nat \<Rightarrow> u8 list" 'm
  | DialPoll clock nat
  | UpgradePoll nat
  | ConnPoll nat nat
  | ConnOpen "nat \<Rightarrow> u8 list" nat
  | ConnAccept nat
  | ConnClosed nat
  | Read nat nat
  | Write nat "u8 list"
  | Flush nat
  | CloseSub nat
  | DropSub nat
  | DropConn nat
  | Arrive "('p, 'r) Message"
  | MixTake
  | DropDial nat
  | DropUpgrade nat

fun the_message :: "('p, 'r) InboundMessage \<Rightarrow> ('p, 'r) Message" where
  "the_message (InboundMessage m) = m"

text \<open>The elements that were taken from the front of a list.\<close>

definition taken_from :: "'a list \<Rightarrow> 'a list \<Rightarrow> 'a list" where
  "taken_from old new = take (length old - length new) old"

lemma taken_from_append [simp]: "taken_from (xs @ ys) ys = xs"
  by (simp add: taken_from_def)

definition node_poll ::
    "('k, 'p, 'r, 'm, 'x) addressing \<Rightarrow> nat \<Rightarrow> ('k, 'p, 'r, 'm, 'x) node \<Rightarrow> ('k, 'p, 'r, 'm, 'x) node" where
  "node_poll A cx n =
     (case transport_poll A cx (n_t n) (n_w n) of
        (r, t1, w1) \<Rightarrow>
          n\<lparr>n_t := t1, n_w := w1,
            n_ups := n_ups n @ (case r of Ready (Ok (Incoming _ u _ _)) \<Rightarrow> [u] | _ \<Rightarrow> []),
            n_seen := n_seen n @
              map the_message (taken_from (buffer (inbound (n_w n))) (buffer (inbound w1)))\<rparr>)"

definition node_dial ::
    "('k, 'p, 'r, 'm, 'x) addressing \<Rightarrow> (nat \<Rightarrow> u8 list) \<Rightarrow> 'm \<Rightarrow> ('k, 'p, 'r, 'm, 'x) node \<Rightarrow>
     ('k, 'p, 'r, 'm, 'x) node" where
  "node_dial A fill addr n =
     (case dial A fill (n_t n) addr (n_w n) of
        (r, t1, w1) \<Rightarrow>
          n\<lparr>n_t := t1, n_w := w1,
            n_dials := n_dials n @ (case r of Ok f \<Rightarrow> [f] | _ \<Rightarrow> [])\<rparr>)"

definition node_dial_poll :: "clock \<Rightarrow> nat \<Rightarrow> ('k, 'p, 'r, 'm, 'x) node \<Rightarrow> ('k, 'p, 'r, 'm, 'x) node" where
  "node_dial_poll now i n =
     (case (dial_poll now (n_dials n ! i) (n_w n) ::
              ('p \<times> ('p, 'r) Connection, 'x error) outcome poll \<times> _) of
        (r, f, w1) \<Rightarrow>
          n\<lparr>n_dials := (n_dials n)[i := f], n_w := w1,
            n_conns := n_conns n @ (case r of Ready (Ok (p, c)) \<Rightarrow> [c] | _ \<Rightarrow> [])\<rparr>)"

definition node_upgrade_poll :: "nat \<Rightarrow> ('k, 'p, 'r, 'm, 'x) node \<Rightarrow> ('k, 'p, 'r, 'm, 'x) node" where
  "node_upgrade_poll i n =
     (case (Upgrade_poll (n_ups n ! i) (n_w n) ::
              ('p \<times> ('p, 'r) Connection, 'x error) outcome poll \<times> _) of
        (r, w1) \<Rightarrow>
          n\<lparr>n_w := w1, n_conns := n_conns n @ (case r of Ready (Ok (p, c)) \<Rightarrow> [c] | _ \<Rightarrow> [])\<rparr>)"

definition node_conn_poll :: "nat \<Rightarrow> nat \<Rightarrow> ('k, 'p, 'r, 'm, 'x) node \<Rightarrow> ('k, 'p, 'r, 'm, 'x) node" where
  "node_conn_poll cx i n =
     (let c = n_conns n ! i
      in case (conn_poll cx c (n_w n) :: (unit, 'x error) outcome poll \<times> _) of
           (r, c1, w1) \<Rightarrow>
             n\<lparr>n_conns := (n_conns n)[i := c1], n_w := w1,
               n_taken := (n_taken n)(c_id c := n_taken n (c_id c) @
                 taken_from (inbox c (n_w n)) (inbox c1 w1))\<rparr>)"

definition node_conn_open ::
    "(nat \<Rightarrow> u8 list) \<Rightarrow> nat \<Rightarrow> ('k, 'p, 'r, 'm, 'x) node \<Rightarrow> ('k, 'p, 'r, 'm, 'x) node" where
  "node_conn_open fill i n =
     (case (conn_poll_outbound fill (n_conns n ! i) (n_w n) ::
              ('r Substream, 'x error) outcome poll \<times> _) of
        (r, c1, w1) \<Rightarrow>
          n\<lparr>n_conns := (n_conns n)[i := c1], n_w := w1,
            n_subs := n_subs n @ (case r of Ready (Ok s) \<Rightarrow> [s] | _ \<Rightarrow> [])\<rparr>)"

definition node_conn_accept :: "nat \<Rightarrow> ('k, 'p, 'r, 'm, 'x) node \<Rightarrow> ('k, 'p, 'r, 'm, 'x) node" where
  "node_conn_accept i n =
     (case (conn_poll_inbound (n_conns n ! i) :: ('r Substream, 'x error) outcome poll \<times> _) of
        (r, c1) \<Rightarrow>
          n\<lparr>n_conns := (n_conns n)[i := c1],
            n_subs := n_subs n @ (case r of Ready (Ok s) \<Rightarrow> [s] | _ \<Rightarrow> [])\<rparr>)"

definition node_conn_closed :: "nat \<Rightarrow> ('k, 'p, 'r, 'm, 'x) node \<Rightarrow> ('k, 'p, 'r, 'm, 'x) node" where
  "node_conn_closed i n =
     (case (conn_poll_close (n_conns n ! i) :: (unit, 'x error) outcome poll \<times> _) of
        (r, c1) \<Rightarrow> n\<lparr>n_conns := (n_conns n)[i := c1]\<rparr>)"

text \<open>The four operations of a substream, which change it and the cells.\<close>

definition node_sub ::
    "nat \<Rightarrow> ('r Substream \<Rightarrow> ('p, 'r) node_net \<Rightarrow> 'r Substream \<times> ('p, 'r) node_net) \<Rightarrow>
     ('k, 'p, 'r, 'm, 'x) node \<Rightarrow> ('k, 'p, 'r, 'm, 'x) node" where
  "node_sub i f n =
     (case f (n_subs n ! i) (n_w n) of (s, w1) \<Rightarrow> n\<lparr>n_subs := (n_subs n)[i := s], n_w := w1\<rparr>)"

fun drop_nth :: "nat \<Rightarrow> 'a list \<Rightarrow> 'a list" where
  "drop_nth i xs = take i xs @ drop (Suc i) xs"

fun node_do ::
    "('k, 'p, 'r, 'm, 'x) addressing \<Rightarrow> ('p, 'r, 'm) action \<Rightarrow> ('k, 'p, 'r, 'm, 'x) node \<Rightarrow>
     ('k, 'p, 'r, 'm, 'x) node" where
  "node_do A (Poll cx) n = node_poll A cx n"
| "node_do A (RemoveListener lid) n = n\<lparr>n_t := snd (remove_listener (n_t n) lid)\<rparr>"
| "node_do A (Dial fill addr) n = node_dial A fill addr n"
| "node_do A (DialPoll now i) n = node_dial_poll now i n"
| "node_do A (UpgradePoll i) n = node_upgrade_poll i n"
| "node_do A (ConnPoll cx i) n = node_conn_poll cx i n"
| "node_do A (ConnOpen fill i) n = node_conn_open fill i n"
| "node_do A (ConnAccept i) n = node_conn_accept i n"
| "node_do A (ConnClosed i) n = node_conn_closed i n"
| "node_do A (Read i len) n = node_sub i (\<lambda>s w. snd (snd (poll_read (replicate len 0) s w))) n"
| "node_do A (Write i buf) n = node_sub i (\<lambda>s w. snd (poll_write buf s w)) n"
| "node_do A (Flush i) n = node_sub i (\<lambda>s w. snd (poll_flush s w)) n"
| "node_do A (CloseSub i) n = node_sub i (\<lambda>s w. snd (poll_close s w)) n"
| "node_do A (DropSub i) n =
     n\<lparr>n_subs := drop_nth i (n_subs n), n_w := Substream_drop (n_subs n ! i) (n_w n)\<rparr>"
| "node_do A (DropConn i) n =
     n\<lparr>n_conns := drop_nth i (n_conns n), n_w := Connection_drop (n_conns n ! i) (n_w n)\<rparr>"
| "node_do A (Arrive m) n =
     n\<lparr>n_w := (n_w n)\<lparr>inbound := snd (chan_send (inbound (n_w n)) (InboundMessage m))\<rparr>\<rparr>"
| "node_do A MixTake n =
     (case chan_poll_recv (outbound (n_w n)) of
        (Ready (Some m), ch) \<Rightarrow> n\<lparr>n_w := (n_w n)\<lparr>outbound := ch\<rparr>, n_sent := n_sent n @ [m]\<rparr>
      | _ \<Rightarrow> n)"
| "node_do A (DropDial i) n =
     n\<lparr>n_dials := drop_nth i (n_dials n), n_w := DialFuture_drop (n_dials n ! i) (n_w n)\<rparr>"
| "node_do A (DropUpgrade i) n =
     n\<lparr>n_ups := drop_nth i (n_ups n), n_w := Upgrade_drop (n_ups n ! i) (n_w n)\<rparr>"

text \<open>
  What a well-behaved environment does: it uses the futures, connections and substreams it has, does
  not close a closed substream again, the random generator fills the whole buffer of an identifier,
  and the messages that arrive are what the parser accepts and have been numbered by a sender that has
  not used up its nonces.
\<close>

fun allowed :: "('p, 'r, 'm) action \<Rightarrow> ('k, 'p, 'r, 'm, 'x) node \<Rightarrow> bool" where
  "allowed (DialPoll now i) n = (i < length (n_dials n))"
| "allowed (UpgradePoll i) n = (i < length (n_ups n))"
| "allowed (ConnPoll cx i) n = (i < length (n_conns n))"
| "allowed (ConnOpen fill i) n = (i < length (n_conns n) \<and> length (fill 32) = 32)"
| "allowed (ConnAccept i) n = (i < length (n_conns n))"
| "allowed (ConnClosed i) n = (i < length (n_conns n))"
| "allowed (Read i len) n = (i < length (n_subs n))"
| "allowed (Write i buf) n = (i < length (n_subs n))"
| "allowed (Flush i) n = (i < length (n_subs n))"
| "allowed (CloseSub i) n = (i < length (n_subs n) \<and> \<not> closed (n_subs n ! i))"
| "allowed (DropSub i) n = (i < length (n_subs n))"
| "allowed (DropConn i) n = (i < length (n_conns n))"
| "allowed (DropDial i) n = (i < length (n_dials n))"
| "allowed (DropUpgrade i) n = (i < length (n_ups n))"
| "allowed (Dial fill addr) n = (length (fill 32) = 32)"
| "allowed (Arrive m) n = (in_protocol_all [m] \<and> Message_valid m)"
| "allowed _ n = True"

definition node_new :: "('k, 'r, 'm, 'x) NymTransport \<Rightarrow> ('p, 'r) node_net \<Rightarrow> ('k, 'p, 'r, 'm, 'x) node" where
  "node_new t w = \<lparr>n_t = t, n_w = w, n_conns = [], n_subs = [], n_dials = [], n_ups = [], n_sent = [],
     n_seen = [], n_taken = (\<lambda>_. [])\<rparr>"

text \<open>A node as a program starts it: a new transport, and no cells but the two mixnet channels.\<close>

definition node_start :: "('k, 'p, 'r, 'm, 'x) node \<Rightarrow> bool" where
  "node_start n \<longleftrightarrow>
     connections (n_t n) = Map.empty \<and> message_queues (n_t n) = Map.empty \<and>
     pending_dials (n_t n) = Map.empty \<and>
     n = node_new (n_t n) (n_w n) \<and>
     inbound (n_w n) = unbounded_channel \<and> outbound (n_w n) = unbounded_channel \<and>
     conn_chans (n_w n) = Map.empty \<and>
     dial_shots (n_w n) = Map.empty \<and> upgrade_shots (n_w n) = Map.empty"

inductive reachable :: "('k, 'p, 'r, 'm, 'x) addressing \<Rightarrow> ('k, 'p, 'r, 'm, 'x) node \<Rightarrow> bool"
  for A where
  start: "node_start n \<Longrightarrow> reachable A n"
| step: "reachable A n \<Longrightarrow> allowed a n \<Longrightarrow> reachable A (node_do A a n)"

section \<open>What an operation puts on the outbound channel\<close>

text \<open>
  \<open>emits cid a w w'\<close>: between \<open>w\<close> and \<open>w'\<close> some transport messages of connection \<open>cid\<close> were sent,
  numbered on from the counter at \<open>a\<close>, which has advanced by their number; no other counter changed.
\<close>

definition emits ::
    "ConnectionId \<Rightarrow> addr \<Rightarrow> ('p, 'r, 'z) net_scheme \<Rightarrow> ('p, 'r, 'z) net_scheme \<Rightarrow> bool" where
  "emits cid a w w' \<longleftrightarrow>
     (\<exists>n outs ts. nonces w a = Some n \<and>
        outbound w' = (outbound w)\<lparr>buffer := buffer (outbound w) @ outs\<rparr> \<and>
        map om_message outs = map TransportMsg ts \<and> (\<forall>m\<in>set ts. tm_id m = cid) \<and>
        map tm_nonce ts = map (\<lambda>i. n + of_nat i) [0..<length ts] \<and>
        nonces w' = (nonces w)(a \<mapsto> n + of_nat (length ts))) \<and>
     net.more w' = net.more w \<and> fresh w \<le> fresh w'"

lemma emits_none:
  "nonces w a = Some n \<Longrightarrow> outbound w' = outbound w \<Longrightarrow> nonces w' = nonces w \<Longrightarrow>
   net.more w' = net.more w \<Longrightarrow> fresh w \<le> fresh w' \<Longrightarrow> emits cid a w w'"
  unfolding emits_def
  by (intro conjI exI [of _ n] exI [of _ "[]"]) (simp_all add: fun_upd_idem)

lemma emits_one:
  "nonces w a = Some n \<Longrightarrow> om_message o' = TransportMsg m \<Longrightarrow> tm_id m = cid \<Longrightarrow> tm_nonce m = n \<Longrightarrow>
   outbound w' = (outbound w)\<lparr>buffer := buffer (outbound w) @ [o']\<rparr> \<Longrightarrow>
   nonces w' = (nonces w)(a \<mapsto> n + 1) \<Longrightarrow> net.more w' = net.more w \<Longrightarrow> fresh w \<le> fresh w' \<Longrightarrow>
   emits cid a w w'"
  unfolding emits_def
  by (intro conjI exI [of _ n] exI [of _ "[o']"] exI [of _ "[m]"]) simp_all

lemma emits_nonce: "emits cid a w w' \<Longrightarrow> nonces w' a \<noteq> None"
  by (auto simp: emits_def)

lemma emits_open: "emits cid a w w' \<Longrightarrow> rx_open (outbound w') = rx_open (outbound w)"
  by (auto simp: emits_def)

lemma emits_trans:
  assumes "emits cid a w w1" and "emits cid a w1 w2"
  shows "emits cid a w w2"
proof -
  obtain n outs ts where 1: "nonces w a = Some n"
      "outbound w1 = (outbound w)\<lparr>buffer := buffer (outbound w) @ outs\<rparr>"
      "map om_message outs = map TransportMsg ts" "\<forall>m\<in>set ts. tm_id m = cid"
      "map tm_nonce ts = map (\<lambda>i. n + of_nat i) [0..<length ts]"
      "nonces w1 = (nonces w)(a \<mapsto> n + of_nat (length ts))"
    using assms(1) by (auto simp: emits_def)
  obtain outs' ts' where 2:
      "outbound w2 = (outbound w1)\<lparr>buffer := buffer (outbound w1) @ outs'\<rparr>"
      "map om_message outs' = map TransportMsg ts'" "\<forall>m\<in>set ts'. tm_id m = cid"
      "map tm_nonce ts' = map (\<lambda>i. n + of_nat (length ts) + of_nat i) [0..<length ts']"
      "nonces w2 = (nonces w1)(a \<mapsto> n + of_nat (length ts) + of_nat (length ts'))"
    using assms(2) 1(6) by (auto simp: emits_def)
  have "map (\<lambda>i. n + of_nat (length ts) + of_nat i) [0..<length ts'] =
      map (\<lambda>i. n + of_nat i) [length ts..<length ts + length ts']"
    by (intro nth_equalityI) (simp_all add: algebra_simps)
  then have "map tm_nonce (ts @ ts') = map (\<lambda>i. n + of_nat i) [0..<length (ts @ ts')]"
    using 1(5) 2(4) by (simp add: upt_add_eq_append [of 0 "length ts" "length ts'", simplified])
  moreover have "net.more w2 = net.more w" "fresh w \<le> fresh w2" using assms by (auto simp: emits_def)
  ultimately show ?thesis
    unfolding emits_def using 1 2
    by (intro conjI exI [of _ n] exI [of _ "outs @ outs'"] exI [of _ "ts @ ts'"])
      (auto simp: algebra_simps)
qed

text \<open>The operations of a substream.\<close>

lemma try_recv_close_more [simp]: "net.more (snd (try_recv_close w a)) = net.more w"
  by (simp add: try_recv_close_def split: option.splits prod.splits)

lemma poll_recv_data_more [simp]:
  "net.more (snd (poll_recv_data w a)) = net.more w" "woken (snd (poll_recv_data w a)) = woken w"
  by (simp_all add: poll_recv_data_def split: prod.splits)

lemma poll_write_emits:
  assumes "nonces w (ss_message_nonce s) = Some n" and "rx_open (outbound w)"
    and "poll_write buf s w = (r, s', w')"
  shows "emits (ss_connection_id s) (ss_message_nonce s) w w'"
proof (cases "live s w")
  case True
  then show ?thesis
    using assms
    by (auto simp: poll_write_def check_closed_eq fetch_add_nonce_def intro!: emits_one)
qed (use assms in \<open>auto simp: poll_write_def check_closed_eq intro!: emits_none\<close>)

lemma poll_close_emits:
  assumes "nonces w (ss_message_nonce s) = Some n" and "rx_open (outbound w)" and "\<not> closed s"
    and "poll_close s w = (r, s', w')"
  shows "emits (ss_connection_id s) (ss_message_nonce s) w w'"
  using assms by (auto simp: poll_close_def fetch_add_nonce_def intro!: emits_one)

lemma poll_read_quiet:
  assumes "poll_read buf s w = (r, buf', s', w')"
  shows "outbound w' = outbound w \<and> nonces w' = nonces w \<and> conn_chans w' = conn_chans w \<and>
    net.more w' = net.more w \<and> fresh w' = fresh w"
proof -
  have "w' = snd (try_recv_close w (close_rx s)) \<or>
      w' = snd (poll_recv_data (snd (try_recv_close w (close_rx s))) (inbound_rx s))"
    using assms
    by (auto simp: poll_read_def check_closed_eq split: if_splits prod.splits outcome.splits poll.splits
        option.splits)
  then show ?thesis by auto
qed

lemma poll_flush_quiet:
  assumes "poll_flush s w = (r, s', w')"
  shows "w' = snd (try_recv_close w (close_rx s))"
  using assms by (auto simp: poll_flush_def check_closed_eq split: if_splits)

definition same_sub :: "'r Substream \<Rightarrow> 'r Substream \<Rightarrow> bool" where
  "same_sub s s' \<longleftrightarrow> ss_connection_id s' = ss_connection_id s \<and> ss_message_nonce s' = ss_message_nonce s"

lemma sub_ops_same:
  "poll_write buf s w = (r, s', w') \<Longrightarrow> same_sub s s'"
  "poll_close s w = (r1, s', w') \<Longrightarrow> same_sub s s'"
  "poll_flush s w = (r1, s', w') \<Longrightarrow> same_sub s s'"
  "poll_read buf s w = (r, buf', s', w') \<Longrightarrow> same_sub s s'"
  by (auto simp: same_sub_def poll_write_def poll_close_def poll_flush_def poll_read_def check_closed_eq
      Let_def split: if_splits prod.splits outcome.splits poll.splits option.splits)

lemma sub_ops_conn_chans:
  "poll_write buf s w = (r, s', w') \<Longrightarrow> conn_chans w' = conn_chans w"
  "poll_close s w = (r1, s', w') \<Longrightarrow> conn_chans w' = conn_chans w"
  by (auto simp: poll_write_def poll_close_def check_closed_eq fetch_add_nonce_def send_outbound_def
      Let_def split: if_splits prod.splits outcome.splits)

text \<open>The operations of a connection.\<close>

definition made_by :: "('p, 'r) Connection \<Rightarrow> 'r Substream \<Rightarrow> bool" where
  "made_by c s \<longleftrightarrow> ss_connection_id s = c_id c \<and> ss_message_nonce s = c_message_nonce c"

definition same_conn :: "('p, 'r) Connection \<Rightarrow> ('p, 'r) Connection \<Rightarrow> bool" where
  "same_conn c c' \<longleftrightarrow> c_id c' = c_id c \<and> c_message_nonce c' = c_message_nonce c \<and>
     c_inbound_rx c' = c_inbound_rx c \<and>
     (\<forall>s\<in>set (buffer (inbound_open c')). s \<in> set (buffer (inbound_open c)) \<or> made_by c s)"

lemma same_conn_refl [simp]: "same_conn c c"
  by (simp add: same_conn_def)

lemma same_conn_trans: "same_conn c c1 \<Longrightarrow> same_conn c1 c2 \<Longrightarrow> same_conn c c2"
  by (auto simp: same_conn_def made_by_def)

lemma with_cells_more [simp]:
  "net.more (with_cells c w) = net.more w" "fresh (with_cells c w) = Suc (Suc (fresh w))"
  by (simp_all add: with_cells_def)

lemma Substream_drop_frame [simp]:
  "outbound (Substream_drop s w) = outbound w" "nonces (Substream_drop s w) = nonces w"
  "conn_chans (Substream_drop s w) = conn_chans w" "fresh (Substream_drop s w) = fresh w"
  "net.more (Substream_drop s w) = net.more w"
  by (simp_all add: Substream_drop_def)

lemma made_by_substream_made [simp]: "made_by c (substream_made c sid w)"
  by (simp add: made_by_def substream_made_def Substream_new_def)

lemma handle_close_quiet:
  assumes "handle_close c sid w = (r, c', w')"
  shows "outbound w' = outbound w \<and> nonces w' = nonces w \<and> net.more w' = net.more w \<and>
    fresh w' = fresh w \<and> same_conn c c'"
  using assms
  by (auto simp: handle_close_def send_close_signal_def Let_def same_conn_def
      split: option.splits prod.splits outcome.splits)

lemma conn_handle_emits:
  assumes "nonces w (c_message_nonce c) = Some n" and "rx_open (outbound w)"
    and "conn_handle c m w = (r, c', w')"
  shows "emits (c_id c) (c_message_nonce c) w w' \<and> same_conn c c'"
proof (cases "sm_message_type m")
  case OpenRequest
  show ?thesis
  proof (cases "substream_inbound_txs c (sm_substream_id m)")
    case None
    then show ?thesis
      using assms OpenRequest
      by (cases "rx_open (inbound_open c)")
        (auto simp: conn_handle_def new_substream_eq send_substream_control_eq Let_def same_conn_def
          conn_out_def intro!: emits_one)
  qed (use assms OpenRequest in \<open>auto simp: conn_handle_def new_substream_exists intro!: emits_none\<close>)
next
  case OpenResponse
  then show ?thesis using assms by (auto simp: conn_handle_def same_conn_def intro!: emits_none)
next
  case Close
  then show ?thesis
    using assms handle_close_quiet [of c "sm_substream_id m" w r c' w']
    by (auto simp: conn_handle_def intro!: emits_none)
next
  case (Data d)
  then show ?thesis
    using assms
    by (auto simp: conn_handle_def send_data_def intro!: emits_none split: option.splits prod.splits)
qed

lemma msg_taken_more [simp]: "net.more (msg_taken c w) = net.more w"
  by (simp add: msg_taken_def poll_recv_conn_def split: prod.splits)

lemma msg_taken_others: "b \<noteq> c_inbound_rx c \<Longrightarrow> conn_chans (msg_taken c w) b = conn_chans w b"
  by (simp add: msg_taken_def poll_recv_conn_def cell_poll_recv_def split: option.splits prod.splits)

lemma msg_taken_own:
  "inbox c w = m # ms \<Longrightarrow> conn_chans w (c_inbound_rx c) = Some ch \<Longrightarrow>
   conn_chans (msg_taken c w) (c_inbound_rx c) = Some (ch\<lparr>buffer := ms\<rparr>) \<and> buffer ch = m # ms"
  by (auto simp: inbox_def msg_taken_def poll_recv_conn_def cell_poll_recv_def chan_poll_recv_def)

lemma inbox_Some: "inbox c w \<noteq> [] \<Longrightarrow> \<exists>ch. conn_chans w (c_inbound_rx c) = Some ch"
  by (cases "conn_chans w (c_inbound_rx c)") (auto simp: inbox_def)

text \<open>A poll of a connection takes messages from the front of its channel and leaves the others.\<close>

definition takes_from :: "('p, 'r) Connection \<Rightarrow> ('p, 'r, 'z) net_scheme \<Rightarrow> ('p, 'r, 'z) net_scheme \<Rightarrow> bool" where
  "takes_from c w w' \<longleftrightarrow>
     (\<forall>b. b \<noteq> c_inbound_rx c \<longrightarrow> conn_chans w' b = conn_chans w b) \<and>
     (case conn_chans w (c_inbound_rx c) of
        None \<Rightarrow> conn_chans w' (c_inbound_rx c) = None
      | Some ch \<Rightarrow>
          (\<exists>xs ys. buffer ch = xs @ ys \<and> conn_chans w' (c_inbound_rx c) = Some (ch\<lparr>buffer := ys\<rparr>)))"

lemma conn_poll_effect:
  fixes r :: "(unit, 'x error) outcome poll"
  shows "nonces w (c_message_nonce c) = Some n \<Longrightarrow> rx_open (outbound w) \<Longrightarrow>
   conn_poll cx c w = (r, c', w') \<Longrightarrow>
   emits (c_id c) (c_message_nonce c) w w' \<and> same_conn c c' \<and> takes_from c w w'"
proof (induction "inbox c w" arbitrary: c w n)
  case Nil
  then have "takes_from c w w"
    by (auto simp: takes_from_def inbox_def split: option.splits)
  with Nil show ?case by (auto simp: conn_poll_Nil same_conn_def intro!: emits_none)
next
  case (Cons m ms)
  note inb = Cons.hyps(2) [symmetric]
  obtain ch where ch: "conn_chans w (c_inbound_rx c) = Some ch" using inbox_Some [of c w] inb by auto
  note taken = msg_taken_own [OF inb ch]
  obtain r2 :: "(unit, 'x error) outcome" and c2 w2
    where h: "conn_handle c m (msg_taken c w) = (r2, c2, w2)"
    using prod_cases3 by blast
  have eff: "emits (c_id c) (c_message_nonce c) (msg_taken c w) w2" "same_conn c c2"
    using conn_handle_emits [OF _ _ h] Cons.prems(1,2) by auto
  have em: "emits (c_id c) (c_message_nonce c) w w2"
    using eff(1) Cons.prems(1) emits_none [of w _ n "msg_taken c w"] emits_trans by fastforce
  have chans: "conn_chans w2 = conn_chans (msg_taken c w)" using conn_handle_frame [OF h] by simp
  have ms: "ms = inbox c2 w2"
    using inbox_Cons [OF inb] inbox_conn_handle [OF h] by simp
  have eq: "(case (r2, c2, w2) of
         (Ok _, c2, w2) \<Rightarrow> conn_poll cx c2 w2
       | (Err e, c2, w2) \<Rightarrow> (Ready (Err e), c2, w2)
       | (Panic p, c2, w2) \<Rightarrow> (Ready (Panic p), c2, w2)) = (r, c', w')"
    using Cons.prems(3) by (simp add: conn_poll_Cons [OF inb] h)
  have step: "takes_from c w w2"
    using chans taken ch msg_taken_others [of _ c w] by (auto simp: takes_from_def intro: exI [of _ "[m]"])
  show ?case
  proof (cases r2)
    case (Ok u)
    then have rest: "conn_poll cx c2 w2 = (r, c', w')" using eq by simp
    obtain n2 where "nonces w2 (c_message_nonce c2) = Some n2"
      using emits_nonce [OF em] eff(2) by (auto simp: same_conn_def)
    then have IH: "emits (c_id c2) (c_message_nonce c2) w2 w'" "same_conn c2 c'" "takes_from c2 w2 w'"
      using Cons.hyps(1) [OF ms _ _ rest] emits_open [OF em] Cons.prems(2) by auto
    have "takes_from c w w'"
      using IH(3) chans taken ch msg_taken_others [of _ c w] eff(2)
      by (auto simp: takes_from_def same_conn_def) (metis append_Cons)
    then show ?thesis
      using IH em eff(2) emits_trans [OF em] same_conn_trans [OF eff(2)] by (auto simp: same_conn_def)
  qed (use eq em eff(2) step in auto)
qed

end
