(* ===== verification/Node_Invariant.thy ===== *)
theory Node_Invariant
  imports Node
begin

text \<open>
  The invariant of a whole node: what its connections have sent is numbered from 1 without gaps, what
  they have received is what the delivery invariant says, and everything the user, the dial futures
  and the upgrades hold belongs to a connection the transport knows.  Every action keeps it.
\<close>

section \<open>What the transport's operations do to the connections and counters\<close>

text \<open>A substream and a connection that belong to an entry of the transport's \<open>connections\<close>.\<close>

definition sub_of :: "('k, 'r, 'm, 'x) NymTransport \<Rightarrow> 'r Substream \<Rightarrow> bool" where
  "sub_of t s \<longleftrightarrow> (\<exists>a. connections t (ss_connection_id s) = Some a \<and> ss_message_nonce s = Suc a)"

definition conn_of :: "('k, 'r, 'm, 'x) NymTransport \<Rightarrow> ('p, 'r) Connection \<Rightarrow> bool" where
  "conn_of t c \<longleftrightarrow> connections t (c_id c) = Some (c_inbound_rx c) \<and>
     c_message_nonce c = Suc (c_inbound_rx c) \<and> (\<forall>s\<in>set (buffer (inbound_open c)). sub_of t s)"

text \<open>The connections that wait in the oneshot channels of dials and upgrades.\<close>

definition in_shots :: "('p, 'r, 'z) node_net_scheme \<Rightarrow> ('p, 'r) Connection set" where
  "in_shots w = {c. \<exists>a. dial_shots w a = Some (Sent c)} \<union> {c. \<exists>a p. upgrade_shots w a = Some (Sent (p, c))}"

text \<open>
  \<open>silent t w t' w'\<close>: connections were at most added, each with a new counter at 1; nothing was sent
  but connection messages; and what was put into a oneshot channel belongs to the transport.
\<close>

definition silent ::
    "('k, 'r, 'm, 'x) NymTransport \<Rightarrow> ('p, 'r, 'z) node_net_scheme \<Rightarrow>
     ('k, 'r, 'm, 'x) NymTransport \<Rightarrow> ('p, 'r, 'z) node_net_scheme \<Rightarrow> bool" where
  "silent t w t' w' \<longleftrightarrow>
     connections t \<subseteq>\<^sub>m connections t' \<and>
     (\<forall>cid a. connections t cid = None \<longrightarrow> connections t' cid = Some a \<longrightarrow>
        fresh w \<le> a \<and> Suc a < fresh w' \<and> nonces w' (Suc a) = Some 1) \<and>
     (\<forall>b\<le>fresh w. nonces w' b = nonces w b) \<and>
     (\<exists>outs. outbound w' = (outbound w)\<lparr>buffer := buffer (outbound w) @ outs\<rparr> \<and>
        (\<forall>cid. transport_of cid outs = [])) \<and>
     fresh w \<le> fresh w' \<and>
     (\<forall>c\<in>in_shots w'. c \<in> in_shots w \<or> conn_of t' c)"

lemma map_le_Some: "m \<subseteq>\<^sub>m m' \<Longrightarrow> m k = Some v \<Longrightarrow> m' k = Some v"
  by (force simp: map_le_def)

lemma sub_of_mono: "sub_of t s \<Longrightarrow> connections t \<subseteq>\<^sub>m connections t' \<Longrightarrow> sub_of t' s"
  unfolding sub_of_def by (blast intro: map_le_Some)

lemma conn_of_mono: "conn_of t c \<Longrightarrow> connections t \<subseteq>\<^sub>m connections t' \<Longrightarrow> conn_of t' c"
  unfolding conn_of_def by (blast intro: map_le_Some sub_of_mono)

lemma silent_quiet:
  assumes "connections t' = connections t" and "outbound w' = outbound w" and "nonces w' = nonces w"
    and "fresh w \<le> fresh w'" and "in_shots w' \<subseteq> in_shots w"
  shows "silent t w t' w'"
  using assms by (auto simp: silent_def intro: exI [of _ "[]"])

lemma silent_trans:
  assumes "silent t w t1 w1" and "silent t1 w1 t2 w2"
  shows "silent t w t2 w2"
proof -
  note a = assms [unfolded silent_def]
  have le: "connections t \<subseteq>\<^sub>m connections t1" "connections t1 \<subseteq>\<^sub>m connections t2"
    "fresh w \<le> fresh w1" "fresh w1 \<le> fresh w2"
    using a by simp_all
  have new: "fresh w \<le> b \<and> Suc b < fresh w2 \<and> nonces w2 (Suc b) = Some 1"
    if "connections t cid = None" "connections t2 cid = Some b" for cid b
  proof (cases "connections t1 cid")
    case None
    then have "fresh w1 \<le> b \<and> Suc b < fresh w2 \<and> nonces w2 (Suc b) = Some 1" using a that by blast
    then show ?thesis using le(3) by simp
  next
    case (Some b')
    then have "b' = b" using map_le_Some [OF le(2)] that(2) by force
    with Some that(1) a have "fresh w \<le> b \<and> Suc b < fresh w1 \<and> nonces w1 (Suc b) = Some 1" by blast
    then show ?thesis using a le(4) by simp
  qed
  obtain o1 o2 where "outbound w1 = (outbound w)\<lparr>buffer := buffer (outbound w) @ o1\<rparr>"
      "outbound w2 = (outbound w1)\<lparr>buffer := buffer (outbound w1) @ o2\<rparr>"
      "\<forall>cid. transport_of cid o1 = []" "\<forall>cid. transport_of cid o2 = []"
    using a by blast
  then have "\<exists>outs. outbound w2 = (outbound w)\<lparr>buffer := buffer (outbound w) @ outs\<rparr> \<and>
      (\<forall>cid. transport_of cid outs = [])"
    by (intro exI [of _ "o1 @ o2"]) simp
  moreover have "c \<in> in_shots w \<or> conn_of t2 c" if "c \<in> in_shots w2" for c
    using a that conn_of_mono le(2) by blast
  ultimately show ?thesis
    using a le new map_le_trans [OF le(1,2)] by (auto simp: silent_def)
qed

lemma more_shots:
  "net.more w' = net.more w \<Longrightarrow>
   inbound w' = inbound w \<and> dial_shots w' = dial_shots w \<and> upgrade_shots w' = upgrade_shots w"
  by (cases w; cases w') simp

lemma more_in_shots: "net.more w' = net.more w \<Longrightarrow> in_shots w' = in_shots w"
  using more_shots [of w' w] by (simp add: in_shots_def)

text \<open>Sending to a connection's channel touches nothing else.\<close>

lemma send_conn_only: "send_conn w a x = (r, w') \<Longrightarrow> \<exists>m. w' = w\<lparr>conn_chans := m\<rparr>"
  by (auto simp: send_conn_def split: prod.splits)

lemma drain_queue_only:
  "drain_queue q a w = ((r :: (unit, 'x error) outcome), q', w') \<Longrightarrow> \<exists>m. w' = w\<lparr>conn_chans := m\<rparr>"
proof (induction q a w arbitrary: r q' w' rule: drain_queue.induct)
  case (1 q a w)
  obtain p q1 where p: "pop q = (p, q1)" by fastforce
  show ?case
  proof (cases p)
    case None
    then show ?thesis using 1(2) p by (auto simp: drain_queue.simps [of q] intro: exI [of _ "conn_chans w"])
  next
    case (Some m)
    obtain s w1 where s: "send_conn w a (tm_message m) = (s, w1)" by fastforce
    then obtain m1 where m1: "w1 = w\<lparr>conn_chans := m1\<rparr>" using send_conn_only by blast
    show ?thesis
    proof (cases s)
      case (Ok u)
      then have "drain_queue q1 a w1 = (r, q', w')" using 1(2) p Some s by (simp add: drain_queue.simps [of q])
      then obtain m2 where "w' = w1\<lparr>conn_chans := m2\<rparr>"
        using "1.IH" [OF p [symmetric] Some s [symmetric] Ok] by blast
      with m1 show ?thesis by auto
    qed (use 1(2) p Some s m1 in \<open>auto simp: drain_queue.simps [of q]\<close>)
  qed
qed

lemma transport_message_silent:
  assumes "handle_transport_message t m w = (r, t', w')"
  shows "silent t w t' w'"
proof -
  have "connections t' = connections t \<and> outbound w' = outbound w \<and> nonces w' = nonces w \<and>
      fresh w' = fresh w \<and> dial_shots w' = dial_shots w \<and> upgrade_shots w' = upgrade_shots w"
    using assms
    by (auto simp: handle_transport_message_def Let_def
        split: option.splits outcome.splits prod.splits dest!: drain_queue_only send_conn_only)
  then show ?thesis
    by (auto intro!: silent_quiet simp: in_shots_def)
qed

text \<open>Entering a connection: the new cells, and whatever the queue had ready.\<close>

lemma initiation_only:
  assumes "handle_message_queue_on_connection_initiation t cid w = (r, t', w')"
  shows "connections t' = connections t \<and> (\<exists>m. w' = w\<lparr>conn_chans := m\<rparr>)"
  using assms
  by (auto simp: handle_message_queue_on_connection_initiation_def Let_def
      split: option.splits outcome.splits prod.splits
      dest!: drain_queue_only intro: exI [of _ "conn_chans w"])

lemma Connection_drop_frame [simp]:
  "outbound (Connection_drop c w) = outbound w" "nonces (Connection_drop c w) = nonces w"
  "fresh (Connection_drop c w) = fresh w" "net.more (Connection_drop c w) = net.more w"
proof -
  have "outbound (fold Substream_drop ss v) = outbound v \<and> nonces (fold Substream_drop ss v) = nonces v \<and>
      fresh (fold Substream_drop ss v) = fresh v \<and> net.more (fold Substream_drop ss v) = net.more v"
    for ss and v :: "('a, 'b, 'c) net_scheme"
    by (induction ss arbitrary: v) simp_all
  then show "outbound (Connection_drop c w) = outbound w" "nonces (Connection_drop c w) = nonces w"
      "fresh (Connection_drop c w) = fresh w" "net.more (Connection_drop c w) = net.more w"
    by (simp_all add: Connection_drop_def)
qed

lemma Connection_drop_shots [simp]:
  "in_shots (Connection_drop c w) = in_shots w"
  "dial_shots (Connection_drop c w) = dial_shots w"
  "upgrade_shots (Connection_drop c w) = upgrade_shots w"
  using more_shots [of "Connection_drop c w" w] by (simp_all add: in_shots_def)

lemma in_shots_frame [simp]:
  "in_shots (wake_taken k w) = in_shots w"
  "in_shots (with_conn w) = in_shots w" "in_shots (w\<lparr>conn_chans := m\<rparr>) = in_shots w"
  "in_shots (w\<lparr>outbound := ob\<rparr>) = in_shots w" "in_shots (w\<lparr>nonces := ns\<rparr>) = in_shots w"
  "in_shots (w\<lparr>fresh := k'\<rparr>) = in_shots w" "in_shots (w\<lparr>inbound := ib\<rparr>) = in_shots w"
  by (simp_all add: wake_taken_def in_shots_def split: option.splits)

lemma dropped_tx_Sent: "oneshot_drop_tx s = Sent x \<longleftrightarrow> s = Sent x"
  by (cases s) auto

lemma in_shots_dial:
  "(\<And>c. s = Some (Sent c) \<Longrightarrow> c \<in> C \<or> dial_shots w a = Some (Sent c)) \<Longrightarrow>
   in_shots (w\<lparr>dial_shots := (dial_shots w)(a := s)\<rparr>) \<subseteq> in_shots w \<union> C"
  unfolding in_shots_def by (force split: if_splits)

lemma in_shots_upgrade:
  "(\<And>p c. s = Some (Sent (p, c)) \<Longrightarrow> c \<in> C \<or> upgrade_shots w a = Some (Sent (p, c))) \<Longrightarrow>
   in_shots (w\<lparr>upgrade_shots := (upgrade_shots w)(a := s)\<rparr>) \<subseteq> in_shots w \<union> C"
  unfolding in_shots_def by (force split: if_splits)

lemma send_dial_eq:
  "send_dial w a conn =
     (if dial_shots w a = Some Waiting then (Ok (), w\<lparr>dial_shots := (dial_shots w)(a \<mapsto> Sent conn)\<rparr>)
      else (Err conn, w))"
  by (cases "dial_shots w a"; cases "the (dial_shots w a)") (auto simp: send_dial_def fun_upd_idem)

lemma conn_of_made:
  "connections t cid = Some (fresh w) \<Longrightarrow> conn_of t (conn_made peer recipient cid w)"
  by (simp add: conn_of_def)

text \<open>
  Whatever is done to the cells of a new connection later, it is silent as long as the counters and
  the outbound channel are left alone but for a connection message.
\<close>

lemma silent_connected:
  assumes "connections t cid = None" and "connections t' = (connections t)(cid \<mapsto> fresh w)"
    and "nonces w' = (nonces w)(Suc (fresh w) \<mapsto> 1)" and "Suc (Suc (fresh w)) \<le> fresh w'"
    and "outbound w' = (outbound w)\<lparr>buffer := buffer (outbound w) @ outs\<rparr>"
    and "\<forall>cid. transport_of cid outs = []"
    and "in_shots w' \<subseteq> in_shots w \<union> {conn_made peer recipient cid w}"
  shows "silent t w t' w'"
proof -
  have "conn_of t' (conn_made peer recipient cid w)" using assms(2) by (simp add: conn_of_made)
  then show ?thesis
    using assms by (auto simp: silent_def map_le_def intro!: exI [of _ outs] split: if_splits)
qed

lemma connection_request_silent:
  assumes "handle_connection_request A t msg w = (r, t', w')"
  shows "silent t w t' w' \<and> (\<forall>conn. r = Ok conn \<longrightarrow> conn_of t' conn)"
proof (cases "cm_recipient msg = None \<or> connections t (cm_id msg) \<noteq> None")
  case True
  then show ?thesis
    using assms by (auto simp: handle_connection_request_def silent_quiet split: option.splits)
next
  case False
  then obtain recipient where new: "cm_recipient msg = Some recipient" "connections t (cm_id msg) = None"
    by auto
  let ?conn = "conn_made (cm_peer_id msg) recipient (cm_id msg) w"
  obtain r1 t1 w1 where i: "handle_message_queue_on_connection_initiation
      (t\<lparr>connections := (connections t)(cm_id msg \<mapsto> fresh w)\<rparr>) (cm_id msg) (with_conn w) = (r1, t1, w1)"
    using prod_cases3 by blast
  obtain m where t1: "connections t1 = (connections t)(cm_id msg \<mapsto> fresh w)"
      and w1: "w1 = (with_conn w)\<lparr>conn_chans := m\<rparr>"
    using initiation_only [OF i] by auto
  have out: "connections t' = (connections t)(cm_id msg \<mapsto> fresh w) \<and>
      nonces w' = (nonces w)(Suc (fresh w) \<mapsto> 1) \<and> fresh w' = Suc (Suc (fresh w)) \<and>
      in_shots w' = in_shots w \<and> (\<forall>conn. r = Ok conn \<longrightarrow> conn = ?conn) \<and>
      (\<exists>outs. outbound w' = (outbound w)\<lparr>buffer := buffer (outbound w) @ outs\<rparr> \<and>
        (\<forall>cid. transport_of cid outs = []))"
    using assms new i t1 w1
    by (cases r1; cases "rx_open (outbound w)")
      (auto simp: handle_connection_request_def create_connection_types_eq Let_def
        intro: exI [of _ "[]"])
  then obtain outs where "outbound w' = (outbound w)\<lparr>buffer := buffer (outbound w) @ outs\<rparr>"
      "\<forall>cid. transport_of cid outs = []" by blast
  with out new(2) have "silent t w t' w'" by (intro silent_connected) auto
  with out show ?thesis by (auto simp: conn_of_made)
qed

lemma connection_response_silent:
  assumes "handle_connection_response t msg w = (r, t', w')"
  shows "silent t w t' w'"
proof (cases "connections t (cm_id msg) \<noteq> None \<or> pending_dials t (cm_id msg) = None")
  case True
  then show ?thesis
    using assms by (auto simp: handle_connection_response_def silent_quiet split: if_splits)
next
  case False
  then obtain pc where new: "connections t (cm_id msg) = None" "pending_dials t (cm_id msg) = Some pc"
    by auto
  let ?conn = "conn_made (cm_peer_id msg) (pc_remote_recipient pc) (cm_id msg) w"
  obtain r1 t1 w1 where i: "handle_message_queue_on_connection_initiation
      (t\<lparr>pending_dials := (pending_dials t)(cm_id msg := None),
         connections := (connections t)(cm_id msg \<mapsto> fresh w)\<rparr>) (cm_id msg) (with_conn w) = (r1, t1, w1)"
    using prod_cases3 by blast
  obtain m where t1: "connections t1 = (connections t)(cm_id msg \<mapsto> fresh w)"
      and w1: "w1 = (with_conn w)\<lparr>conn_chans := m\<rparr>"
    using initiation_only [OF i] by auto
  have out: "connections t' = (connections t)(cm_id msg \<mapsto> fresh w) \<and>
      nonces w' = (nonces w)(Suc (fresh w) \<mapsto> 1) \<and> fresh w' = Suc (Suc (fresh w)) \<and>
      outbound w' = outbound w \<and> in_shots w' \<subseteq> in_shots w \<union> {?conn}"
    using assms new i t1 w1
      in_shots_dial [where C = "{?conn}" and w = w1 and a = "pc_connection_tx pc" and s = "Some (Sent ?conn)"]
      in_shots_dial [where C = "{}" and w = w1 and a = "pc_connection_tx pc" and
        s = "map_option oneshot_drop_tx (dial_shots w1 (pc_connection_tx pc))"]
    by (cases r1)
      (auto simp: handle_connection_response_def create_connection_types_eq send_dial_eq
        dropped_tx_Sent Let_def split: if_splits)
  then show ?thesis using new(1) by (intro silent_connected [where outs = "[]"]) auto
qed

lemma new_upgrade_eq:
  "send_upgrade (snd (new_upgrade_shot w)) (fresh w) x =
     (Ok (), w\<lparr>upgrade_shots := (upgrade_shots w)(fresh w \<mapsto> Sent x), fresh := Suc (fresh w)\<rparr>)"
  by (simp add: send_upgrade_def new_upgrade_shot_def)

lemma silent_upgrade:
  assumes "silent t w t1 w1" and "conn_of t1 conn"
    and "w2 = w1\<lparr>upgrade_shots := (upgrade_shots w1)(a \<mapsto> Sent (p, conn)), fresh := Suc (fresh w1)\<rparr>"
  shows "silent t w t1 w2"
proof (rule silent_trans [OF assms(1)])
  have "in_shots w2 \<subseteq> in_shots w1 \<union> {conn}"
    using in_shots_upgrade [where C = "{conn}" and w = w1 and a = a and s = "Some (Sent (p, conn))"] assms(3)
    by simp
  then show "silent t1 w1 t1 w2"
    using assms(2,3) by (auto simp: silent_def intro!: exI [of _ "[]"])
qed

lemma handle_inbound_silent:
  assumes "handle_inbound A t m w = (r, t', w')"
  shows "silent t w t' w'"
proof (cases m)
  case (ConnectionRequest c)
  obtain r1 t1 w1 where h: "handle_connection_request A t c w = (r1, t1, w1)" using prod_cases3 by blast
  note s = connection_request_silent [OF h]
  show ?thesis
  proof (cases r1)
    case (Ok conn)
    have eqs: "t' = t1" "w' = w1\<lparr>upgrade_shots := (upgrade_shots w1)(fresh w1 \<mapsto> Sent (cm_peer_id c, conn)),
        fresh := Suc (fresh w1)\<rparr>"
      using assms ConnectionRequest h Ok new_upgrade_eq [of w1 "(cm_peer_id c, conn)"]
      by (auto simp: handle_inbound_def new_upgrade_shot_def Let_def)
    show ?thesis unfolding eqs(1) by (rule silent_upgrade [OF _ _ eqs(2)]) (use s Ok in auto)
  qed (use assms ConnectionRequest h s in \<open>auto simp: handle_inbound_def\<close>)
next
  case (ConnectionResponse c)
  then show ?thesis
    using assms by (auto simp: handle_inbound_def dest: connection_response_silent split: prod.splits)
next
  case (TransportMsg c)
  then show ?thesis
    using assms by (auto simp: handle_inbound_def dest: transport_message_silent split: prod.splits)
qed

lemma poll_loop_silent:
  "transport_poll_loop A cx t w = (r, t', w') \<Longrightarrow> silent t w t' w'"
proof (induction "length (buffer (inbound w))" arbitrary: t w rule: less_induct)
  case less
  note loop = transport_poll_loop.simps [of A cx t w]
  show ?case
  proof (cases "buffer (inbound w)")
    case Nil
    then show ?thesis
      using less(2) loop by (auto simp: chan_poll_recv_def intro!: silent_quiet split: if_splits)
  next
    case (Cons i ins)
    obtain m where i: "i = InboundMessage m" by (cases i)
    let ?w = "w\<lparr>inbound := (inbound w)\<lparr>buffer := ins\<rparr>\<rparr>"
    obtain r1 t1 w1 where h: "handle_inbound A t m ?w = (r1, t1, w1)" using prod_cases3 by blast
    have one: "silent t w t1 w1"
      by (rule silent_trans [OF _ handle_inbound_silent [OF h]]) (simp add: silent_quiet)
    have "length (buffer (inbound w1)) < length (buffer (inbound w))"
      using handle_inbound_inbound [OF h] Cons by simp
    then have rest: "transport_poll_loop A cx t1 w1 = (r, t', w') \<Longrightarrow> silent t w t' w'"
      using less(1) one silent_trans by blast
    show ?thesis
      using less(2) loop Cons i h one rest
      by (cases r1) (auto simp: chan_poll_recv_def split: InboundTransportEvent.splits)
  qed
qed

lemma transport_poll_silent:
  assumes "transport_poll A cx t w = (r, t', w')"
  shows "silent t w t' w'"
proof (cases "buffer (poll_chan t)")
  case Nil
  then show ?thesis using assms transport_poll_loop_chan [OF Nil] poll_loop_silent by metis
next
  case (Cons ev evs)
  then show ?thesis using assms by (auto simp: transport_poll_def chan_poll_recv_def intro: silent_quiet)
qed

text \<open>Dialling, and polling the futures of dials and upgrades; a connection they give was in a channel.\<close>

lemma dial_silent:
  assumes "dial A fill t addr w = (r, t', w')"
  shows "silent t w t' w' \<and> conn_chans w' = conn_chans w \<and> inbound w' = inbound w \<and>
    message_queues t' = message_queues t \<and> connections t' = connections t"
proof -
  have "in_shots w' \<subseteq> in_shots w"
    using assms
    by (auto simp: dial_def new_dial_shot_def drop_pending_def in_shots_def Let_def dropped_tx_Sent
        split: outcome.splits option.splits if_splits)
  with assms show ?thesis
    by (auto simp: dial_def new_dial_shot_def drop_pending_def Let_def
        intro!: silent_quiet split: outcome.splits option.splits)
qed

lemma in_shots_Sent:
  "dial_shots w a = Some (Sent c) \<Longrightarrow> c \<in> in_shots w"
  "upgrade_shots w a = Some (Sent (p, c)) \<Longrightarrow> c \<in> in_shots w"
  by (auto simp: in_shots_def)

lemma in_shots_gone:
  "(\<And>c. s \<noteq> Some (Sent c)) \<Longrightarrow> in_shots (w\<lparr>dial_shots := (dial_shots w)(a := s)\<rparr>) \<subseteq> in_shots w"
  "(\<And>x. u \<noteq> Some (Sent x)) \<Longrightarrow> in_shots (w\<lparr>upgrade_shots := (upgrade_shots w)(a := u)\<rparr>) \<subseteq> in_shots w"
  using in_shots_dial [where C = "{}" and s = s and w = w and a = a]
    in_shots_upgrade [where C = "{}" and s = u and w = w and a = a]
  by auto

lemma dial_wait_silent:
  assumes "dial_wait now deadline shot w = (r, f, w')"
  shows "silent t w t w' \<and> conn_chans w' = conn_chans w \<and> inbound w' = inbound w \<and> fresh w' = fresh w \<and>
    (\<forall>p c. r = Ready (Ok (p, c)) \<longrightarrow> c \<in> in_shots w)"
proof (cases "dial_shots w shot")
  case (Some s)
  then show ?thesis
    using assms
    by (cases s)
      (auto simp: dial_wait_def fun_upd_idem intro!: silent_quiet in_shots_gone intro: in_shots_Sent
        split: if_splits)
qed (use assms in \<open>auto simp: dial_wait_def silent_quiet\<close>)

lemma dial_poll_silent:
  assumes "dial_poll now f w = (r, f', w')" and "rx_open (outbound w)"
  shows "silent t w t w' \<and> conn_chans w' = conn_chans w \<and> inbound w' = inbound w \<and> fresh w' = fresh w \<and>
    (\<forall>p c. r = Ready (Ok (p, c)) \<longrightarrow> c \<in> in_shots w)"
proof (cases f)
  case (DialStart msg recipient waker timeout shot)
  let ?w = "wake_taken waker (w\<lparr>outbound := (outbound w)\<lparr>buffer := buffer (outbound w) @
      [\<lparr>om_message = ConnectionRequest msg, om_recipient = recipient\<rparr>]\<rparr>\<rparr>)"
  have "silent t w t ?w"
    by (auto simp: silent_def intro!: exI [of _ "[\<lparr>om_message = ConnectionRequest msg, om_recipient = recipient\<rparr>]"])
  moreover have "dial_wait now (time now + timeout) shot ?w = (r, f', w')"
    using assms DialStart by (simp add: dial_poll_def)
  from dial_wait_silent [OF this, of t] have "silent t ?w t w'" "conn_chans w' = conn_chans w"
      "inbound w' = inbound w" "fresh w' = fresh w" "\<forall>p c. r = Ready (Ok (p, c)) \<longrightarrow> c \<in> in_shots w"
    by simp_all
  ultimately show ?thesis using silent_trans by blast
next
  case (DialWaiting deadline shot)
  then show ?thesis using assms dial_wait_silent [of now deadline shot w r f' w' t] by (simp add: dial_poll_def)
next
  case DialDone
  then show ?thesis using assms by (auto simp: dial_poll_def silent_quiet)
qed

lemma Upgrade_poll_silent:
  assumes "Upgrade_poll u w = (r, w')"
  shows "silent t w t w' \<and> conn_chans w' = conn_chans w \<and> inbound w' = inbound w \<and> fresh w' = fresh w \<and>
    (\<forall>p c. r = Ready (Ok (p, c)) \<longrightarrow> c \<in> in_shots w)"
proof (cases "upgrade_shots w (upgrade_rx u)")
  case (Some s)
  then show ?thesis
    using assms
    by (cases s)
      (auto simp: Upgrade_poll_def fun_upd_idem intro!: silent_quiet in_shots_gone intro: in_shots_Sent)
qed (use assms in \<open>auto simp: Upgrade_poll_def silent_quiet\<close>)

section \<open>The invariant\<close>

text \<open>
  All the transport messages a node has sent for a connection, whether the mixnet task has taken them
  or not, and that they are numbered from 1 on with the counter at the next number.
\<close>

definition numbered_on :: "TransportMessage list \<Rightarrow> bool" where
  "numbered_on xs \<longleftrightarrow> map tm_nonce xs = map (\<lambda>i. 1 + of_nat i) [0..<length xs]"

definition count_ok ::
    "TransportMessage list \<Rightarrow> ConnectionId \<Rightarrow> ('k, 'r, 'm, 'x) NymTransport \<Rightarrow> ('p, 'r, 'z) net_scheme \<Rightarrow> bool" where
  "count_ok xs cid t w \<longleftrightarrow>
     numbered_on xs \<and>
     (case connections t cid of
        None \<Rightarrow> xs = []
      | Some a \<Rightarrow> nonces w (Suc a) = Some (1 + of_nat (length xs)))"

definition sent_ok ::
    "('p, 'r) OutboundMessage list \<Rightarrow> ('k, 'r, 'm, 'x) NymTransport \<Rightarrow> ('p, 'r, 'z) net_scheme \<Rightarrow> bool" where
  "sent_ok L t w \<longleftrightarrow> rx_open (outbound w) \<and>
     (\<forall>cid. count_ok (transport_of cid (L @ buffer (outbound w))) cid t w)"

definition node_inv :: "('p, 'r) Message list \<Rightarrow> ('k, 'p, 'r, 'm, 'x) node \<Rightarrow> bool" where
  "node_inv M n \<longleftrightarrow>
     node_ok (n_taken n) (n_seen n) (n_t n) (n_w n) \<and>
     n_seen n @ map the_message (buffer (inbound (n_w n))) = M \<and> in_protocol_all M \<and>
     sent_ok (n_sent n) (n_t n) (n_w n) \<and>
     (\<forall>c\<in>set (n_conns n) \<union> in_shots (n_w n). conn_of (n_t n) c) \<and>
     (\<forall>s\<in>set (n_subs n). sub_of (n_t n) s)"

lemma numbered_on_append:
  assumes "numbered_on xs" and "map tm_nonce ys = map (\<lambda>i. 1 + of_nat (length xs) + of_nat i) [0..<length ys]"
  shows "numbered_on (xs @ ys)"
proof -
  have "map (\<lambda>i. 1 + of_nat (length xs) + of_nat i :: u64) [0..<length ys] =
      map (\<lambda>i. 1 + of_nat i) [length xs..<length xs + length ys]"
    by (intro nth_equalityI) (simp_all add: algebra_simps)
  then show ?thesis
    using assms by (simp add: numbered_on_def upt_add_eq_append [of 0 "length xs" "length ys", simplified])
qed

lemma sent_ok_silent:
  assumes "sent_ok L t w" and "silent t w t' w'" and "cells_ok (connections t) (\<lambda>a. a < fresh w)"
  shows "sent_ok L t' w'"
proof -
  obtain outs where outs: "outbound w' = (outbound w)\<lparr>buffer := buffer (outbound w) @ outs\<rparr>"
      "\<forall>cid. transport_of cid outs = []"
    using assms(2) by (auto simp: silent_def)
  have "count_ok xs cid t' w'" if "count_ok xs cid t w" for xs cid
  proof (cases "connections t cid")
    case None
    then show ?thesis using that assms(2) by (auto simp: count_ok_def silent_def split: option.split)
  next
    case (Some a)
    have "connections t' cid = Some a" using assms(2) Some by (auto simp: silent_def intro: map_le_Some)
    moreover have "a < fresh w" using cells_ok_bound [OF assms(3) Some] .
    ultimately show ?thesis using that Some assms(2) by (simp add: count_ok_def silent_def)
  qed
  then show ?thesis using assms(1) outs by (simp add: sent_ok_def)
qed

lemma transport_of_mine:
  "map om_message outs = map TransportMsg ts \<Longrightarrow> \<forall>m\<in>set ts. tm_id m = cid \<Longrightarrow>
   transport_of j outs = (if j = cid then ts else [])"
proof (induction outs arbitrary: ts)
  case (Cons o' outs)
  then show ?case by (cases ts) auto
qed simp

lemma sent_ok_emits:
  assumes "sent_ok L t w" and "emits cid (Suc a) w w'" and "connections t cid = Some a"
    and "cells_ok (connections t) (\<lambda>a. a < fresh w)"
  shows "sent_ok L t w'"
proof -
  let ?xs = "\<lambda>j. transport_of j (L @ buffer (outbound w))"
  have old: "count_ok (?xs j) j t w" for j using assms(1) by (simp add: sent_ok_def)
  then have "nonces w (Suc a) = Some (1 + of_nat (length (?xs cid)))"
    using old [of cid] assms(3) by (simp add: count_ok_def)
  then obtain outs ts where e: "outbound w' = (outbound w)\<lparr>buffer := buffer (outbound w) @ outs\<rparr>"
      "map om_message outs = map TransportMsg ts" "\<forall>m\<in>set ts. tm_id m = cid"
      "map tm_nonce ts = map (\<lambda>i. 1 + of_nat (length (?xs cid)) + of_nat i) [0..<length ts]"
      "nonces w' = (nonces w)(Suc a \<mapsto> 1 + of_nat (length (?xs cid)) + of_nat (length ts))"
    using assms(2) by (auto simp: emits_def)
  have "count_ok (?xs j @ (if j = cid then ts else [])) j t w'" for j
  proof (cases "j = cid")
    case False
    then have "b \<noteq> a" if "connections t j = Some b" for b
      using that cells_ok_inj [OF assms(4) that] assms(3) by metis
    then show ?thesis using False old [of j] e(5) by (auto simp: count_ok_def split: option.splits)
  next
    case True
    have "numbered_on (?xs cid @ ts)"
      using old [of cid] numbered_on_append [OF _ e(4)] by (simp add: count_ok_def)
    then show ?thesis using True assms(3) e(5) by (simp add: count_ok_def add.assoc)
  qed
  then show ?thesis using assms(1) e(1) transport_of_mine [OF e(2,3)] by (simp add: sent_ok_def)
qed

section \<open>Every action keeps it\<close>

lemma node_ok_keep:
  "node_ok K H t w \<Longrightarrow> conn_chans w' = conn_chans w \<Longrightarrow> fresh w \<le> fresh w' \<Longrightarrow> node_ok K H t w'"
  unfolding node_ok_def by (auto simp: conn_ok_net [of w' w] elim!: cells_ok_mono)

lemma node_inv_cells: "node_inv M n \<Longrightarrow> cells_ok (connections (n_t n)) (\<lambda>a. a < fresh (n_w n))"
  by (simp add: node_inv_def node_ok_def)

lemma node_inv_open: "node_inv M n \<Longrightarrow> rx_open (outbound (n_w n))"
  by (simp add: node_inv_def sent_ok_def)

lemma node_inv_silent:
  assumes "node_inv M n" and "silent (n_t n) (n_w n) (n_t n') (n_w n')"
    and "node_ok (n_taken n') (n_seen n') (n_t n') (n_w n')"
    and "n_seen n' @ map the_message (buffer (inbound (n_w n'))) = M'" and "in_protocol_all M'"
    and "n_sent n' = n_sent n" and "set (n_conns n') \<subseteq> set (n_conns n) \<union> in_shots (n_w n)"
    and "set (n_subs n') \<subseteq> set (n_subs n)"
  shows "node_inv M' n'"
proof -
  have le: "connections (n_t n) \<subseteq>\<^sub>m connections (n_t n')"
    and shots: "\<And>c. c \<in> in_shots (n_w n') \<Longrightarrow> c \<in> in_shots (n_w n) \<or> conn_of (n_t n') c"
    using assms(2) by (auto simp: silent_def)
  have old: "\<And>c. c \<in> set (n_conns n) \<union> in_shots (n_w n) \<Longrightarrow> conn_of (n_t n') c"
      "\<And>s. s \<in> set (n_subs n) \<Longrightarrow> sub_of (n_t n') s"
    using assms(1) conn_of_mono [OF _ le] sub_of_mono [OF _ le] unfolding node_inv_def by blast+
  have "sent_ok (n_sent n') (n_t n') (n_w n')"
    using sent_ok_silent [OF _ assms(2) node_inv_cells [OF assms(1)]] assms(1,6) by (simp add: node_inv_def)
  then show ?thesis using assms(3-5,7,8) old shots unfolding node_inv_def by blast
qed

lemma node_inv_emits:
  assumes "node_inv M n" and "emits cid (Suc a) (n_w n) (n_w n')" and "connections (n_t n) cid = Some a"
    and "n_t n' = n_t n" and "node_ok (n_taken n') (n_seen n) (n_t n) (n_w n')"
    and "n_seen n' = n_seen n" and "n_sent n' = n_sent n"
    and "\<And>c. c \<in> set (n_conns n') \<Longrightarrow> conn_of (n_t n) c"
    and "\<And>s. s \<in> set (n_subs n') \<Longrightarrow> sub_of (n_t n) s"
  shows "node_inv M n'"
proof -
  have "net.more (n_w n') = net.more (n_w n)" using assms(2) by (simp add: emits_def)
  then have "in_shots (n_w n') = in_shots (n_w n)" "inbound (n_w n') = inbound (n_w n)"
    using more_in_shots more_shots by blast+
  moreover have "sent_ok (n_sent n) (n_t n) (n_w n')"
    using sent_ok_emits [OF _ assms(2,3) node_inv_cells [OF assms(1)]] assms(1) by (simp add: node_inv_def)
  ultimately show ?thesis using assms by (auto simp: node_inv_def)
qed

lemma inbound_messages: "ins = map InboundMessage (map the_message ins)"
  by (simp add: comp_def) (metis (no_types, lifting) the_message.elims map_idI)

lemma node_poll_inv:
  assumes "node_inv M n"
  shows "node_inv M (node_poll A cx n)"
proof -
  have msgs: "buffer (inbound (n_w n)) = map InboundMessage (map the_message (buffer (inbound (n_w n))))"
    by (rule inbound_messages)
  have "node_ok (n_taken n) (n_seen n) (n_t n) (n_w n)"
      "in_protocol_all (n_seen n @ map the_message (buffer (inbound (n_w n))))"
    using assms by (simp_all add: node_inv_def)
  from transport_poll_cases [OF this(1) msgs this(2), of A cx] obtain r t' w' handled rest where
      p: "transport_poll A cx (n_t n) (n_w n) = (r, t', w')"
      "map the_message (buffer (inbound (n_w n))) = handled @ rest"
      "buffer (inbound w') = map InboundMessage rest" "node_ok (n_taken n) (n_seen n @ handled) t' w'"
    by blast
  have "buffer (inbound (n_w n)) = map InboundMessage handled @ map InboundMessage rest"
    using p(2) msgs by (metis map_append)
  then have taken: "map the_message (taken_from (buffer (inbound (n_w n))) (buffer (inbound w'))) = handled"
    by (simp add: p(3) comp_def)
  let ?n = "node_poll A cx n"
  have n': "n_t ?n = t'" "n_w ?n = w'" "n_seen ?n = n_seen n @ handled" "n_taken ?n = n_taken n"
      "n_sent ?n = n_sent n" "n_conns ?n = n_conns n" "n_subs ?n = n_subs n"
    using taken by (simp_all add: node_poll_def p(1))
  have "n_seen n @ handled @ rest = M" "in_protocol_all M" using assms p(2) by (simp_all add: node_inv_def)
  then show ?thesis
    using p transport_poll_silent [OF p(1)]
    by (intro node_inv_silent [OF assms]) (simp_all add: n' comp_def)
qed

lemma node_dial_inv:
  assumes "node_inv M n"
  shows "node_inv M (node_dial A fill addr n)"
proof -
  obtain r t' w' where d: "dial A fill (n_t n) addr (n_w n) = (r, t', w')" using prod_cases3 by blast
  note q = dial_silent [OF d]
  have "node_ok (n_taken n) (n_seen n) t' (n_w n)"
    using assms q node_ok_transport [of t' "n_t n" "n_taken n" "n_seen n" "n_w n"] by (simp add: node_inv_def)
  then have "node_ok (n_taken n) (n_seen n) t' w'"
    by (rule node_ok_keep) (use q in \<open>simp_all add: silent_def\<close>)
  with assms q show ?thesis
    by (intro node_inv_silent [OF assms]) (simp_all add: node_dial_def d, simp_all add: node_inv_def)
qed

lemma node_inv_future:
  assumes "node_inv M n" and "silent (n_t n) (n_w n) (n_t n) w' \<and> conn_chans w' = conn_chans (n_w n) \<and>
      inbound w' = inbound (n_w n) \<and> fresh w' = fresh (n_w n) \<and> P"
    and "n_w n' = w'" and "n_t n' = n_t n" and "n_taken n' = n_taken n" and "n_seen n' = n_seen n"
    and "n_sent n' = n_sent n" and "n_subs n' = n_subs n"
    and "set (n_conns n') \<subseteq> set (n_conns n) \<union> in_shots (n_w n)"
  shows "node_inv M n'"
proof -
  have "node_ok (n_taken n) (n_seen n) (n_t n) w'"
    using assms(1,2) node_ok_keep [of "n_taken n" "n_seen n" "n_t n" "n_w n" w'] by (simp add: node_inv_def)
  then show ?thesis
    using assms by (intro node_inv_silent [OF assms(1)]) (simp_all, simp_all add: node_inv_def)
qed

lemma node_dial_poll_inv:
  fixes n :: "('k, 'p, 'r, 'm, 'x) node"
  assumes "node_inv M n"
  shows "node_inv M (node_dial_poll now i n)"
proof -
  obtain r f w' where d: "(dial_poll now (n_dials n ! i) (n_w n) ::
      ('p \<times> ('p, 'r) Connection, 'x error) outcome poll \<times> _) = (r, f, w')"
    using prod_cases3 by blast
  note s = dial_poll_silent [OF d node_inv_open [OF assms], of "n_t n"]
  show ?thesis
    by (rule node_inv_future [OF assms s])
      (use s in \<open>auto simp: node_dial_poll_def d split: poll.splits outcome.splits\<close>)
qed

lemma node_upgrade_poll_inv:
  fixes n :: "('k, 'p, 'r, 'm, 'x) node"
  assumes "node_inv M n"
  shows "node_inv M (node_upgrade_poll i n)"
proof -
  obtain r w' where d: "(Upgrade_poll (n_ups n ! i) (n_w n) ::
      ('p \<times> ('p, 'r) Connection, 'x error) outcome poll \<times> _) = (r, w')"
    by fastforce
  show ?thesis
    by (rule node_inv_future [OF assms Upgrade_poll_silent [OF d, of "n_t n"]])
      (use Upgrade_poll_silent [OF d] in \<open>auto simp: node_upgrade_poll_def d split: poll.splits outcome.splits\<close>)
qed

text \<open>The connections and substreams the user holds.\<close>

lemma node_inv_sub:
  assumes "node_inv M n" and "sub_of (n_t n) s"
  shows "\<exists>a k. connections (n_t n) (ss_connection_id s) = Some a \<and> ss_message_nonce s = Suc a \<and>
    nonces (n_w n) (Suc a) = Some k \<and> rx_open (outbound (n_w n))"
proof -
  obtain a where a: "connections (n_t n) (ss_connection_id s) = Some a" "ss_message_nonce s = Suc a"
    using assms(2) by (auto simp: sub_of_def)
  moreover have "count_ok (transport_of (ss_connection_id s) (n_sent n @ buffer (outbound (n_w n))))
      (ss_connection_id s) (n_t n) (n_w n)" "rx_open (outbound (n_w n))"
    using assms(1) by (auto simp: node_inv_def sent_ok_def)
  ultimately show ?thesis by (simp add: count_ok_def)
qed

lemma node_inv_conn:
  assumes "node_inv M n" and "conn_of (n_t n) c"
  shows "connections (n_t n) (c_id c) = Some (c_inbound_rx c) \<and> c_message_nonce c = Suc (c_inbound_rx c) \<and>
    (\<exists>k. nonces (n_w n) (c_message_nonce c) = Some k) \<and> rx_open (outbound (n_w n))"
proof -
  have "count_ok (transport_of (c_id c) (n_sent n @ buffer (outbound (n_w n)))) (c_id c) (n_t n) (n_w n)"
      "rx_open (outbound (n_w n))"
    using assms(1) by (auto simp: node_inv_def sent_ok_def)
  with assms(2) show ?thesis by (simp add: conn_of_def count_ok_def)
qed

lemma conn_of_same:
  assumes "conn_of t c" and "same_conn c c'"
  shows "conn_of t c'"
proof -
  have "sub_of t s" if "made_by c s" for s
    using assms(1) that by (auto simp: conn_of_def made_by_def sub_of_def)
  then show ?thesis using assms by (auto simp: conn_of_def same_conn_def)
qed

lemma node_ok_takes:
  assumes "node_ok K H t w" and "conn_of t c" and "takes_from c w w'" and "same_conn c c'"
    and "fresh w \<le> fresh w'"
  shows "node_ok (K(c_id c := K (c_id c) @ taken_from (inbox c w) (inbox c' w'))) H t w'"
proof -
  let ?K = "K(c_id c := K (c_id c) @ taken_from (inbox c w) (inbox c' w'))"
  have cells: "cells_ok (connections t) (\<lambda>a. a < fresh w)"
    and old: "conn_ok (K j) (transport_msgs j H) j t w" for j
    using assms(1) by (auto simp: node_ok_def)
  have mine: "connections t (c_id c) = Some (c_inbound_rx c)" using assms(2) by (simp add: conn_of_def)
  have "conn_ok (?K j) (transport_msgs j H) j t w'" for j
  proof (cases "j = c_id c")
    case False
    have "conn_chans w' a = conn_chans w a" if "connections t j = Some a" for a
      using False assms(3) that cells_ok_inj [OF cells that] mine unfolding takes_from_def by metis
    then show ?thesis using old [of j] False by (auto simp: conn_ok_def split: option.splits)
  next
    case True
    obtain ch where ch: "conn_chans w (c_inbound_rx c) = Some ch"
      using old [of "c_id c"] mine by (auto simp: conn_ok_def)
    then obtain xs ys where "buffer ch = xs @ ys" "conn_chans w' (c_inbound_rx c) = Some (ch\<lparr>buffer := ys\<rparr>)"
      using assms(3) by (auto simp: takes_from_def)
    moreover from this have "taken_from (inbox c w) (inbox c' w') = xs"
      using ch assms(4) by (simp add: inbox_def same_conn_def)
    ultimately show ?thesis
      using True old [of "c_id c"] mine ch by (auto simp: conn_ok_def)
  qed
  moreover have "cells_ok (connections t) (\<lambda>a. a < fresh w')"
    using cells by (rule cells_ok_mono) (use assms(5) in simp)
  ultimately show ?thesis by (simp add: node_ok_def)
qed

lemma node_inv_conns:
  "node_inv M n \<Longrightarrow> i < length (n_conns n) \<Longrightarrow> conn_of (n_t n) (n_conns n ! i)"
  "node_inv M n \<Longrightarrow> conn_of (n_t n) c \<Longrightarrow> c' \<in> set ((n_conns n)[i := c]) \<Longrightarrow> conn_of (n_t n) c'"
  "node_inv M n \<Longrightarrow> c' \<in> set (n_conns n) \<Longrightarrow> conn_of (n_t n) c'"
  using set_update_subset_insert [of "n_conns n" i c] by (auto simp: node_inv_def)

lemma node_inv_subs:
  "node_inv M n \<Longrightarrow> i < length (n_subs n) \<Longrightarrow> sub_of (n_t n) (n_subs n ! i)"
  "node_inv M n \<Longrightarrow> sub_of (n_t n) s \<Longrightarrow> s' \<in> set ((n_subs n)[i := s]) \<Longrightarrow> sub_of (n_t n) s'"
  "node_inv M n \<Longrightarrow> s' \<in> set (n_subs n) \<Longrightarrow> sub_of (n_t n) s'"
  using set_update_subset_insert [of "n_subs n" i s] by (auto simp: node_inv_def)

lemma node_conn_poll_inv:
  fixes n :: "('k, 'p, 'r, 'm, 'x) node"
  assumes "node_inv M n" and "i < length (n_conns n)"
  shows "node_inv M (node_conn_poll cx i n)"
proof -
  let ?c = "n_conns n ! i" and ?n = "node_conn_poll cx i n"
  obtain r c' w' where p: "(conn_poll cx ?c (n_w n) :: (unit, 'x error) outcome poll \<times> _) = (r, c', w')"
    using prod_cases3 by blast
  have c: "conn_of (n_t n) ?c" using node_inv_conns(1) [OF assms] .
  note own = node_inv_conn [OF assms(1) c]
  have e: "emits (c_id ?c) (Suc (c_inbound_rx ?c)) (n_w n) w'" "same_conn ?c c'" "takes_from ?c (n_w n) w'"
    using conn_poll_effect [OF _ _ p] own by auto
  have n': "n_w ?n = w'" "n_t ?n = n_t n" "n_seen ?n = n_seen n" "n_sent ?n = n_sent n"
      "n_subs ?n = n_subs n" "n_conns ?n = (n_conns n)[i := c']"
      "n_taken ?n = (n_taken n)(c_id ?c := n_taken n (c_id ?c) @ taken_from (inbox ?c (n_w n)) (inbox c' w'))"
    by (simp_all add: node_conn_poll_def Let_def p)
  have "node_ok (n_taken ?n) (n_seen n) (n_t n) w'"
    unfolding n'(7) using assms(1) e by (intro node_ok_takes [OF _ c]) (auto simp: node_inv_def emits_def)
  then show ?thesis
    using e own conn_of_same [OF c e(2)] node_inv_conns(2) [OF assms(1)] node_inv_subs(3) [OF assms(1)]
    by (intro node_inv_emits [OF assms(1), of "c_id ?c" "c_inbound_rx ?c"]) (auto simp: n')
qed

lemma new_outbound_effect:
  assumes "nonces w (c_message_nonce c) = Some k" and "rx_open (outbound w)"
    and "new_outbound_substream fill c w = (r, c', w')"
  shows "emits (c_id c) (c_message_nonce c) w w' \<and> same_conn c c' \<and> conn_chans w' = conn_chans w \<and>
    (\<forall>s. r = Ok s \<longrightarrow> made_by c s)"
  using assms
  by (auto simp: new_outbound_substream_eq Let_def same_conn_def conn_out_def intro!: emits_one
      split: if_splits)

lemma node_conn_open_inv:
  fixes n :: "('k, 'p, 'r, 'm, 'x) node"
  assumes "node_inv M n" and "i < length (n_conns n)"
  shows "node_inv M (node_conn_open fill i n)"
proof -
  let ?c = "n_conns n ! i" and ?n = "node_conn_open fill i n"
  obtain r c' w' where p: "(new_outbound_substream fill ?c (n_w n) :: ('r Substream, 'x error) outcome \<times> _) =
      (r, c', w')"
    using prod_cases3 by blast
  have c: "conn_of (n_t n) ?c" using node_inv_conns(1) [OF assms] .
  note own = node_inv_conn [OF assms(1) c]
  obtain k where "nonces (n_w n) (c_message_nonce ?c) = Some k" "rx_open (outbound (n_w n))" using own by blast
  from new_outbound_effect [OF this p] own
  have e: "emits (c_id ?c) (Suc (c_inbound_rx ?c)) (n_w n) w'" "same_conn ?c c'"
      "conn_chans w' = conn_chans (n_w n)" and made: "\<forall>s. r = Ok s \<longrightarrow> made_by ?c s"
    by simp_all
  have sub: "r = Ok s \<Longrightarrow> sub_of (n_t n) s" for s
    using made own by (simp add: made_by_def sub_of_def)
  have "node_ok (n_taken n) (n_seen n) (n_t n) (n_w n)" using assms(1) by (simp add: node_inv_def)
  then have "node_ok (n_taken n) (n_seen n) (n_t n) w'"
    by (rule node_ok_keep) (use e(1,3) in \<open>simp_all add: emits_def\<close>)
  moreover have n': "n_w ?n = w'" "n_t ?n = n_t n" "n_seen ?n = n_seen n" "n_sent ?n = n_sent n"
      "n_subs ?n = n_subs n @ (case r of Ok s \<Rightarrow> [s] | _ \<Rightarrow> [])"
      "n_conns ?n = (n_conns n)[i := c']" "n_taken ?n = n_taken n"
    by (simp_all add: node_conn_open_def conn_poll_outbound_def p split: outcome.split)
  moreover have "s \<in> set (n_subs ?n) \<Longrightarrow> sub_of (n_t n) s" for s
    using sub node_inv_subs(3) [OF assms(1)] by (cases r) (auto simp: n')
  ultimately show ?thesis
    using e(1) own conn_of_same [OF c e(2)] node_inv_conns(2) [OF assms(1)]
    by (intro node_inv_emits [OF assms(1), of "c_id ?c" "c_inbound_rx ?c"]) auto
qed

lemma node_conn_accept_inv:
  fixes n :: "('k, 'p, 'r, 'm, 'x) node"
  assumes "node_inv M n" and "i < length (n_conns n)"
  shows "node_inv M (node_conn_accept i n)"
proof -
  let ?c = "n_conns n ! i" and ?n = "node_conn_accept i n"
  have c: "conn_of (n_t n) ?c" using node_inv_conns(1) [OF assms] .
  obtain r c' where p: "(conn_poll_inbound ?c :: ('r Substream, 'x error) outcome poll \<times> _) = (r, c')"
    by fastforce
  have e: "conn_of (n_t n) c'" "\<And>s. r = Ready (Ok s) \<Longrightarrow> sub_of (n_t n) s"
    using p c by (auto simp: conn_poll_inbound_def chan_poll_recv_def conn_of_def split: list.splits if_splits)
  have n': "n_w ?n = n_w n" "n_t ?n = n_t n" "n_seen ?n = n_seen n" "n_sent ?n = n_sent n"
      "n_subs ?n = n_subs n @ (case r of Ready (Ok s) \<Rightarrow> [s] | _ \<Rightarrow> [])"
      "n_conns ?n = (n_conns n)[i := c']" "n_taken ?n = n_taken n"
    by (simp_all add: node_conn_accept_def p)
  have "s \<in> set (n_subs ?n) \<Longrightarrow> sub_of (n_t n) s" for s
    using e(2) node_inv_subs(3) [OF assms(1)] by (auto simp: n' split: poll.splits outcome.splits)
  then show ?thesis
    using node_inv_conns(2) [OF assms(1) e(1)] assms(1) by (auto simp: node_inv_def n')
qed

lemma node_conn_closed_inv:
  fixes n :: "('k, 'p, 'r, 'm, 'x) node"
  assumes "node_inv M n" and "i < length (n_conns n)"
  shows "node_inv M (node_conn_closed i n)"
proof -
  let ?c = "n_conns n ! i" and ?n = "node_conn_closed i n"
  obtain r c' where p: "(conn_poll_close ?c :: (unit, 'x error) outcome poll \<times> _) = (r, c')" by fastforce
  have "conn_of (n_t n) c'"
    using p node_inv_conns(1) [OF assms]
    by (auto simp: conn_poll_close_def chan_poll_recv_def conn_of_def split: list.splits if_splits)
  from node_inv_conns(2) [OF assms(1) this] show ?thesis
    using assms(1) by (auto simp: node_inv_def node_conn_closed_def p)
qed

lemma node_sub_inv:
  assumes "node_inv M n" and "i < length (n_subs n)"
    and "\<And>k. nonces (n_w n) (ss_message_nonce (n_subs n ! i)) = Some k \<Longrightarrow> rx_open (outbound (n_w n)) \<Longrightarrow>
       emits (ss_connection_id (n_subs n ! i)) (ss_message_nonce (n_subs n ! i)) (n_w n)
         (snd (f (n_subs n ! i) (n_w n)))"
    and "same_sub (n_subs n ! i) (fst (f (n_subs n ! i) (n_w n)))"
    and "conn_chans (snd (f (n_subs n ! i) (n_w n))) = conn_chans (n_w n)"
  shows "node_inv M (node_sub i f n)"
proof -
  let ?s = "n_subs n ! i"
  obtain s' w' where f: "f ?s (n_w n) = (s', w')" by fastforce
  have s: "sub_of (n_t n) ?s" using node_inv_subs(1) [OF assms(1,2)] .
  obtain a k where own: "connections (n_t n) (ss_connection_id ?s) = Some a" "ss_message_nonce ?s = Suc a"
      "nonces (n_w n) (Suc a) = Some k" "rx_open (outbound (n_w n))"
    using node_inv_sub [OF assms(1) s] by blast
  have e: "emits (ss_connection_id ?s) (Suc a) (n_w n) w'" using assms(3) [of k] own f by simp
  have s': "sub_of (n_t n) s'" using s assms(4) f by (simp add: same_sub_def sub_of_def)
  have "node_ok (n_taken n) (n_seen n) (n_t n) (n_w n)" using assms(1) by (simp add: node_inv_def)
  then have "node_ok (n_taken n) (n_seen n) (n_t n) w'"
    by (rule node_ok_keep) (use e assms(5) f in \<open>simp_all add: emits_def\<close>)
  then show ?thesis
    using node_inv_subs(2) [OF assms(1) s'] node_inv_conns(3) [OF assms(1)] e own(1)
    by (intro node_inv_emits [OF assms(1), of "ss_connection_id ?s" a]) (auto simp: node_sub_def f)
qed

lemma node_sub_ops_inv:
  assumes "node_inv M n" and "i < length (n_subs n)"
  shows "node_inv M (node_sub i (\<lambda>s w. snd (snd (poll_read buf s w))) n)"
    and "node_inv M (node_sub i (\<lambda>s w. snd (poll_write d s w)) n)"
    and "node_inv M (node_sub i (\<lambda>s w. snd (poll_flush s w)) n)"
    and "\<not> closed (n_subs n ! i) \<Longrightarrow> node_inv M (node_sub i (\<lambda>s w. snd (poll_close s w)) n)"
proof -
  let ?s = "n_subs n ! i"
  obtain r1 b1 s1 w1 where 1: "poll_read buf ?s (n_w n) = (r1, b1, s1, w1)" using prod_cases4 by blast
  obtain r2 s2 w2 where 2: "poll_write d ?s (n_w n) = (r2, s2, w2)" using prod_cases3 by blast
  obtain r3 s3 w3 where 3: "poll_flush ?s (n_w n) = (r3, s3, w3)" using prod_cases3 by blast
  obtain r4 s4 w4 where 4: "poll_close ?s (n_w n) = (r4, s4, w4)" using prod_cases3 by blast
  show "node_inv M (node_sub i (\<lambda>s w. snd (snd (poll_read buf s w))) n)"
    using poll_read_quiet [OF 1] sub_ops_same(4) [OF 1]
    by (intro node_sub_inv [OF assms]) (auto simp: 1 intro: emits_none)
  show "node_inv M (node_sub i (\<lambda>s w. snd (poll_write d s w)) n)"
    using poll_write_emits [OF _ _ 2] sub_ops_same(1) [OF 2] sub_ops_conn_chans(1) [OF 2]
    by (intro node_sub_inv [OF assms]) (auto simp: 2)
  show "node_inv M (node_sub i (\<lambda>s w. snd (poll_flush s w)) n)"
    using poll_flush_quiet [OF 3] sub_ops_same(3) [OF 3]
    by (intro node_sub_inv [OF assms]) (auto simp: 3 intro: emits_none)
  show "node_inv M (node_sub i (\<lambda>s w. snd (poll_close s w)) n)" if "\<not> closed ?s"
    using poll_close_emits [OF _ _ that 4] sub_ops_same(2) [OF 4] sub_ops_conn_chans(2) [OF 4]
    by (intro node_sub_inv [OF assms]) (auto simp: 4)
qed

lemma Connection_drop_chans:
  "conn_chans (Connection_drop c w) =
     (conn_chans w)(c_inbound_rx c := map_option chan_drop_rx (conn_chans w (c_inbound_rx c)))"
proof -
  have "conn_chans (fold Substream_drop ss v) = conn_chans v" for ss and v :: "('a, 'b, 'c) net_scheme"
    by (induction ss arbitrary: v) simp_all
  then show ?thesis by (simp add: Connection_drop_def)
qed

text \<open>A channel whose receiver goes away carries no more obligation.\<close>

lemma node_ok_drop:
  assumes "node_ok K H t w" and "conn_of t c"
  shows "node_ok K H t (Connection_drop c w)"
proof -
  have cells: "cells_ok (connections t) (\<lambda>a. a < fresh w)"
    and old: "conn_ok (K j) (transport_msgs j H) j t w" for j
    using assms(1) by (auto simp: node_ok_def)
  have mine: "connections t (c_id c) = Some (c_inbound_rx c)" using assms(2) by (simp add: conn_of_def)
  have "conn_ok (K j) (transport_msgs j H) j t (Connection_drop c w)" for j
    using old [of j] mine
    by (auto simp: conn_ok_def Connection_drop_chans chan_drop_rx_def split: option.splits)
  then show ?thesis using cells by (simp add: node_ok_def)
qed

lemma node_inv_quiet:
  assumes "node_inv M n" and "n_t n' = n_t n" and "outbound (n_w n') = outbound (n_w n)"
    and "nonces (n_w n') = nonces (n_w n)" and "fresh (n_w n') = fresh (n_w n)"
    and "net.more (n_w n') = net.more (n_w n)" and "n_sent n' = n_sent n" and "n_seen n' = n_seen n"
    and "node_ok (n_taken n') (n_seen n) (n_t n) (n_w n')"
    and "set (n_conns n') \<subseteq> set (n_conns n)" and "set (n_subs n') \<subseteq> set (n_subs n)"
  shows "node_inv M n'"
  using assms more_in_shots [OF assms(6)] more_shots [OF assms(6)]
  by (intro node_inv_silent [OF assms(1)]) (auto simp: node_inv_def intro!: silent_quiet)

lemma set_drop_nth: "set (drop_nth i xs) \<subseteq> set xs"
  using set_take_subset [of i xs] set_drop_subset [of "Suc i" xs] by auto

lemma node_drop_inv:
  assumes "node_inv M n"
  shows "node_inv M (node_do A (DropSub i) n)"
    and "i < length (n_conns n) \<Longrightarrow> node_inv M (node_do A (DropConn i) n)"
proof -
  have ok: "node_ok (n_taken n) (n_seen n) (n_t n) (n_w n)" using assms by (simp add: node_inv_def)
  then have "node_ok (n_taken n) (n_seen n) (n_t n) (Substream_drop (n_subs n ! i) (n_w n))"
    by (rule node_ok_keep) simp_all
  then show "node_inv M (node_do A (DropSub i) n)"
    using set_drop_nth [of i "n_subs n"] by (intro node_inv_quiet [OF assms]) simp_all
  show "node_inv M (node_do A (DropConn i) n)" if "i < length (n_conns n)"
    using set_drop_nth [of i "n_conns n"] node_ok_drop [OF ok node_inv_conns(1) [OF assms that]]
    by (intro node_inv_quiet [OF assms]) simp_all
qed

text \<open>A future that is dropped: only the connection that waits for it, if any, goes with it.\<close>

lemma dropped_rx_Sent [simp]: "oneshot_drop_rx s \<noteq> Sent x"
  by (cases s) auto

definition drops_one :: "('p, 'r, 'z) node_net_scheme \<Rightarrow> ('p, 'r, 'z) node_net_scheme \<Rightarrow> bool" where
  "drops_one w w' \<longleftrightarrow>
     (conn_chans w' = conn_chans w \<or> (\<exists>c\<in>in_shots w. conn_chans w' = conn_chans (Connection_drop c w))) \<and>
     outbound w' = outbound w \<and> nonces w' = nonces w \<and> fresh w' = fresh w \<and> inbound w' = inbound w \<and>
     in_shots w' \<subseteq> in_shots w"

lemma drops_one_refl [simp]: "drops_one w w"
  by (simp add: drops_one_def)

lemma drop_dial_rx_effect: "drops_one w (drop_dial_rx shot w)"
proof (cases "dial_shots w shot")
  case (Some s)
  then show ?thesis
    using in_shots_gone(1) [of "Some (oneshot_drop_rx s)" w shot] in_shots_Sent(1) [of w shot]
    by (cases s) (auto simp: drops_one_def drop_dial_rx_def Connection_drop_chans)
qed (simp add: drop_dial_rx_def)

lemma DialFuture_drop_effect: "drops_one w (DialFuture_drop f w)"
  by (cases f) (simp_all add: DialFuture_drop_def drop_dial_rx_effect)

lemma Upgrade_drop_effect: "drops_one w (Upgrade_drop u w)"
proof (cases "upgrade_shots w (upgrade_rx u)")
  case (Some s)
  then show ?thesis
    using in_shots_gone(2) [of "Some (oneshot_drop_rx s)" w "upgrade_rx u"] in_shots_Sent(2) [of w "upgrade_rx u"]
    by (cases s) (auto simp: drops_one_def Upgrade_drop_def Connection_drop_chans)
qed (simp add: Upgrade_drop_def)

lemma node_drop_future_inv:
  assumes "node_inv M n" and "drops_one (n_w n) (n_w n')" and "n_t n' = n_t n" and "n_taken n' = n_taken n"
    and "n_seen n' = n_seen n" and "n_sent n' = n_sent n" and "n_conns n' = n_conns n" and "n_subs n' = n_subs n"
  shows "node_inv M n'"
proof -
  have ok: "node_ok (n_taken n) (n_seen n) (n_t n) (n_w n)" using assms(1) by (simp add: node_inv_def)
  have "node_ok (n_taken n) (n_seen n) (n_t n) (n_w n')"
  proof (cases "conn_chans (n_w n') = conn_chans (n_w n)")
    case True
    then show ?thesis using node_ok_keep [OF ok, of "n_w n'"] assms(2) by (simp add: drops_one_def)
  next
    case False
    then obtain c where c: "c \<in> in_shots (n_w n)" "conn_chans (n_w n') = conn_chans (Connection_drop c (n_w n))"
      using assms(2) by (auto simp: drops_one_def)
    then have "node_ok (n_taken n) (n_seen n) (n_t n) (Connection_drop c (n_w n))"
      using node_ok_drop [OF ok] assms(1) by (simp add: node_inv_def)
    then show ?thesis by (rule node_ok_keep) (use c assms(2) in \<open>simp_all add: drops_one_def\<close>)
  qed
  then show ?thesis
    using assms
    by (intro node_inv_silent [OF assms(1)]) (auto simp: node_inv_def drops_one_def intro!: silent_quiet)
qed

lemma node_drop_futures_inv:
  assumes "node_inv M n"
  shows "node_inv M (node_do A (DropDial i) n)" and "node_inv M (node_do A (DropUpgrade i) n)"
  by (rule node_drop_future_inv [OF assms]; simp add: DialFuture_drop_effect Upgrade_drop_effect)+

lemma node_arrive_inv:
  assumes "node_inv M n" and "in_protocol_all [m]"
  shows "\<exists>M'. (M' = M \<or> M' = M @ [m]) \<and> node_inv M' (node_do A (Arrive m) n)"
proof -
  let ?w = "n_w (node_do A (Arrive m) n)"
  let ?M = "n_seen n @ map the_message (buffer (inbound ?w))"
  have "buffer (inbound ?w) = buffer (inbound (n_w n)) \<or>
      buffer (inbound ?w) = buffer (inbound (n_w n)) @ [InboundMessage m]"
    by (simp add: chan_send_def)
  then have M': "?M = M \<or> ?M = M @ [m]" using assms(1) by (auto simp: node_inv_def)
  then have "in_protocol_all ?M" using assms by (auto simp: node_inv_def in_protocol_all_append)
  moreover have "node_ok (n_taken n) (n_seen n) (n_t n) ?w"
    using assms(1) node_ok_net [of ?w "n_w n" "n_taken n" "n_seen n" "n_t n"] by (simp add: node_inv_def)
  ultimately have "node_inv ?M (node_do A (Arrive m) n)"
    by (intro node_inv_silent [OF assms(1)]) (simp_all add: silent_quiet)
  with M' show ?thesis by blast
qed

lemma count_ok_net: "nonces w' = nonces w \<Longrightarrow> count_ok xs cid t w' = count_ok xs cid t w"
  by (simp add: count_ok_def split: option.split)

lemma node_mix_take_inv:
  assumes "node_inv M n"
  shows "node_inv M (node_do A MixTake n)"
proof (cases "buffer (outbound (n_w n))")
  case (Cons m ms)
  let ?n = "node_do A MixTake n"
  have n': "?n = n\<lparr>n_w := (n_w n)\<lparr>outbound := (outbound (n_w n))\<lparr>buffer := ms\<rparr>\<rparr>, n_sent := n_sent n @ [m]\<rparr>"
    using Cons by (simp add: chan_poll_recv_def)
  have "sent_ok (n_sent ?n) (n_t ?n) (n_w ?n)"
    using assms Cons count_ok_net [of "n_w ?n" "n_w n" _ _ "n_t n"] unfolding n'
    by (simp add: node_inv_def sent_ok_def)
  moreover have "node_ok (n_taken n) (n_seen n) (n_t n) (n_w ?n)"
    using assms node_ok_net [of "n_w ?n" "n_w n" "n_taken n" "n_seen n" "n_t n"] unfolding n'
    by (simp add: node_inv_def)
  ultimately show ?thesis using assms unfolding n' by (simp add: node_inv_def)
qed (use assms in \<open>simp add: chan_poll_recv_def\<close>)

lemma node_remove_listener_inv:
  assumes "node_inv M n"
  shows "node_inv M (node_do A (RemoveListener lid) n)"
proof -
  have "\<exists>ch. snd (remove_listener t lid) = t\<lparr>poll_chan := ch\<rparr>" for t :: "('k, 'r, 'm, 'x) NymTransport"
  proof (cases "listener_id t = lid")
    case False
    then show ?thesis by (intro exI [of _ "poll_chan t"]) (simp add: remove_listener_def)
  qed (auto simp: remove_listener_def split: prod.splits outcome.splits)
  then obtain ch where t: "snd (remove_listener (n_t n) lid) = (n_t n)\<lparr>poll_chan := ch\<rparr>" by blast
  show ?thesis
    using assms t
    by (intro node_inv_silent [OF assms]) (auto simp: node_inv_def node_ok_waker intro!: silent_quiet)
qed

text \<open>The actions of the node itself leave the arrivals as they are.\<close>

fun local_action :: "('p, 'r, 'm) action \<Rightarrow> bool" where
  "local_action (Arrive m) = False"
| "local_action _ = True"

lemma node_do_inv: "node_inv M n \<Longrightarrow> allowed a n \<Longrightarrow> local_action a \<Longrightarrow> node_inv M (node_do A a n)"
  by (cases a)
    (simp_all add: node_poll_inv node_dial_inv node_dial_poll_inv node_upgrade_poll_inv node_conn_poll_inv
      node_conn_open_inv node_conn_accept_inv node_conn_closed_inv node_sub_ops_inv
      node_mix_take_inv node_remove_listener_inv node_drop_inv node_drop_futures_inv
      del: node_do.simps(2,14-19))

lemma node_start_inv: "node_start n \<Longrightarrow> node_inv [] n"
proof -
  assume s: "node_start n"
  have new: "n = node_new (n_t n) (n_w n)" using s unfolding node_start_def by blast
  have logs: "n_conns n = []" "n_subs n = []" "n_sent n = []" "n_seen n = []" "n_taken n = (\<lambda>_. [])"
    by (subst new, simp add: node_new_def)+
  show ?thesis
    using s
    by (auto simp: node_inv_def logs node_start_def node_ok_start in_shots_def sent_ok_def count_ok_def
        numbered_on_def in_protocol_all_def in_protocol_def)
qed

lemma reachable_inv: "reachable A n \<Longrightarrow> \<exists>M. node_inv M n"
proof (induction rule: reachable.induct)
  case (start n)
  then show ?case using node_start_inv by blast
next
  case (step n a)
  then obtain M where M: "node_inv M n" by blast
  show ?case
  proof (cases a)
    case (Arrive m)
    then show ?thesis using node_arrive_inv [OF M, of m A] step.hyps(2) by auto
  qed (use node_do_inv [OF M step.hyps(2)] in auto)
qed

end
