(* ===== verification/Node_Types.thy ===== *)
theory Node_Types
  imports Node_Invariant
begin

text \<open>
  Every identifier in a node has 32 bytes.  The Rust types say this of \<open>[u8; 32]\<close>; here an identifier
  is a list, so it is an invariant: of the messages in all channels and queues, and of the
  connections, substreams and dial futures wherever they are.  Every action keeps it.  With it all a
  node sends survives the wire, apart from data messages without data.
\<close>

section \<open>Well-typed messages, connections and cells\<close>

fun ids_ok :: "('p, 'r) Message \<Rightarrow> bool" where
  "ids_ok (ConnectionRequest m) = cid_ok (cm_id m)"
| "ids_ok (ConnectionResponse m) = cid_ok (cm_id m)"
| "ids_ok (TransportMsg m) = (cid_ok (tm_id m) \<and> sid_ok (sm_substream_id (tm_message m)))"

lemma Message_valid_ids: "Message_valid m \<Longrightarrow> ids_ok m"
  by (cases m)
    (simp_all add: ConnectionMessage_valid_def TransportMessage_valid_def SubstreamMessage_valid_def)

definition sub_typed :: "'r Substream \<Rightarrow> bool" where
  "sub_typed s \<longleftrightarrow> cid_ok (ss_connection_id s) \<and> sid_ok (ss_substream_id s)"

definition conn_typed :: "('p, 'r) Connection \<Rightarrow> bool" where
  "conn_typed c \<longleftrightarrow> cid_ok (c_id c) \<and> list_all sub_typed (buffer (inbound_open c))"

fun dial_typed :: "('p, 'r) DialFuture \<Rightarrow> bool" where
  "dial_typed (DialStart msg recipient waker timeout shot) = cid_ok (cm_id msg)"
| "dial_typed _ = True"

definition cells_typed :: "('p, 'r, 'z) net_scheme \<Rightarrow> bool" where
  "cells_typed w \<longleftrightarrow>
     (\<forall>o'\<in>set (buffer (outbound w)). ids_ok (om_message o')) \<and>
     (\<forall>a ch m. conn_chans w a = Some ch \<longrightarrow> m \<in> set (buffer ch) \<longrightarrow> sid_ok (sm_substream_id m))"

lemma cells_typed_same:
  "outbound w' = outbound w \<Longrightarrow> conn_chans w' = conn_chans w \<Longrightarrow> cells_typed w' = cells_typed w"
  by (simp add: cells_typed_def)

lemma cells_typed_frame [simp]:
  "cells_typed (wake_taken k w) = cells_typed w" "cells_typed w \<Longrightarrow> cells_typed (with_conn w)"
  "cells_typed (w\<lparr>fresh := k'\<rparr>) = cells_typed w" "cells_typed (w\<lparr>nonces := ns\<rparr>) = cells_typed w"
  by (auto simp: cells_typed_def)

text \<open>The operations on a substream.\<close>

lemma poll_write_typed:
  assumes "poll_write buf s w = (r, s', w')" and "sub_typed s" and "cells_typed w"
  shows "sub_typed s' \<and> cells_typed w'"
  using assms
  by (cases "live s w"; cases "rx_open (outbound w)")
    (auto simp: poll_write_def check_closed_eq fetch_add_nonce_def new_with_data_def sub_typed_def
      cells_typed_def Let_def)

lemma poll_close_typed:
  assumes "poll_close s w = (r, s', w')" and "sub_typed s" and "cells_typed w"
  shows "sub_typed s' \<and> cells_typed w'"
  using assms
  by (cases "rx_open (outbound w)")
    (auto simp: poll_close_def fetch_add_nonce_def new_close_def sub_typed_def cells_typed_def Let_def
      split: if_splits)

lemma poll_flush_typed:
  assumes "poll_flush s w = (r, s', w')" and "sub_typed s" and "cells_typed w"
  shows "sub_typed s' \<and> cells_typed w'"
  using assms by (auto simp: poll_flush_def check_closed_eq sub_typed_def cells_typed_def split: if_splits)

lemma poll_read_typed:
  assumes "poll_read buf s w = (r, buf', s', w')" and "sub_typed s" and "cells_typed w"
  shows "sub_typed s' \<and> cells_typed w'"
proof -
  have "ss_connection_id s' = ss_connection_id s \<and> ss_substream_id s' = ss_substream_id s"
    using assms(1)
    by (auto simp: poll_read_def check_closed_eq Let_def
        split: if_splits prod.splits outcome.splits poll.splits option.splits)
  then show ?thesis
    using assms(2,3) cells_typed_same poll_read_quiet [OF assms(1)] by (auto simp: sub_typed_def)
qed

text \<open>The operations on a connection.\<close>

lemma handle_close_typed:
  assumes "handle_close c sid w = (r, c', w')" and "conn_typed c" and "cells_typed w"
  shows "conn_typed c' \<and> cells_typed w'"
  using assms
  by (auto simp: handle_close_def send_close_signal_def Let_def conn_typed_def cells_typed_def
      split: option.splits prod.splits outcome.splits)

lemma substream_made_typed:
  "conn_typed c \<Longrightarrow> sid_ok sid \<Longrightarrow> sub_typed (substream_made c sid w)"
  by (simp add: substream_made_def Substream_new_def sub_typed_def conn_typed_def)

lemma conn_handle_typed:
  assumes "conn_handle c m w = (r, c', w')" and "conn_typed c" and "cells_typed w"
    and "sid_ok (sm_substream_id m)"
  shows "conn_typed c' \<and> cells_typed w'"
proof (cases "sm_message_type m")
  case OpenRequest
  show ?thesis
  proof (cases "substream_inbound_txs c (sm_substream_id m)")
    case None
    then show ?thesis
      using assms OpenRequest
        substream_made_typed [OF assms(2,4), of w]
      by (cases "rx_open (inbound_open c)"; cases "rx_open (outbound w)")
        (auto simp: conn_handle_def new_substream_eq send_substream_control_eq Let_def conn_out_def
          conn_typed_def cells_typed_def)
  qed (use assms OpenRequest in \<open>auto simp: conn_handle_def new_substream_exists\<close>)
next
  case Close
  then show ?thesis using assms handle_close_typed [of c _ w r c' w'] by (auto simp: conn_handle_def)
next
  case OpenResponse
  then show ?thesis using assms by (auto simp: conn_handle_def conn_typed_def)
next
  case (Data d)
  then show ?thesis
    using assms by (auto simp: conn_handle_def send_data_def cells_typed_def split: option.splits prod.splits)
qed

lemma msg_taken_typed:
  assumes "inbox c w = m # ms" and "cells_typed w"
  shows "cells_typed (msg_taken c w) \<and> sid_ok (sm_substream_id m)"
proof -
  obtain ch where ch: "conn_chans w (c_inbound_rx c) = Some ch" using inbox_Some [of c w] assms(1) by auto
  note own = msg_taken_own [OF assms(1) ch]
  have "sid_ok (sm_substream_id x)" if "conn_chans (msg_taken c w) a = Some ch'" "x \<in> set (buffer ch')" for a ch' x
    using that own ch assms(2) msg_taken_others [of a c w]
    by (cases "a = c_inbound_rx c") (auto simp: cells_typed_def)
  then show ?thesis using assms(2) own ch by (auto simp: cells_typed_def)
qed

lemma conn_poll_typed:
  fixes r :: "(unit, 'x error) outcome poll"
  shows "conn_poll cx c w = (r, c', w') \<Longrightarrow> conn_typed c \<Longrightarrow> cells_typed w \<Longrightarrow>
    conn_typed c' \<and> cells_typed w'"
proof (induction "inbox c w" arbitrary: c w)
  case Nil
  then show ?case by (auto simp: conn_poll_Nil conn_typed_def)
next
  case (Cons m ms)
  note inb = Cons.hyps(2) [symmetric]
  obtain r2 :: "(unit, 'x error) outcome" and c2 w2
    where h: "conn_handle c m (msg_taken c w) = (r2, c2, w2)"
    using prod_cases3 by blast
  have typed: "conn_typed c2 \<and> cells_typed w2"
    using conn_handle_typed [OF h Cons.prems(2)] msg_taken_typed [OF inb Cons.prems(3)] by blast
  have "ms = inbox c2 w2" using inbox_Cons [OF inb] inbox_conn_handle [OF h] by simp
  from Cons.hyps(1) [OF this] show ?case
    using Cons.prems(1) typed by (cases r2) (auto simp: conn_poll_Cons [OF inb] h)
qed

lemma new_outbound_typed:
  assumes "new_outbound_substream fill c w = (r, c', w')" and "conn_typed c" and "cells_typed w"
    and "length (fill 32) = 32"
  shows "conn_typed c' \<and> cells_typed w' \<and> (\<forall>s. r = Ok s \<longrightarrow> sub_typed s)"
proof -
  have sid: "sid_ok (SubstreamId_generate fill)" using assms(4) by (simp add: sid_ok_def SubstreamId_generate_def)
  show ?thesis
    using assms(1-3) sid
    by (auto simp: new_outbound_substream_eq Let_def conn_out_def conn_typed_def cells_typed_def
        substream_made_typed split: if_splits)
qed

lemma conn_poll_inbound_typed:
  assumes "conn_poll_inbound c = (r, c')" and "conn_typed c"
  shows "conn_typed c' \<and> (\<forall>s. r = Ready (Ok s) \<longrightarrow> sub_typed s)"
  using assms by (auto simp: conn_poll_inbound_def chan_poll_recv_def conn_typed_def split: list.splits if_splits)

section \<open>The transport\<close>

definition queue_typed :: "MessageQueue \<Rightarrow> bool" where
  "queue_typed q \<longleftrightarrow> (\<forall>m\<in>set (queue q). cid_ok (tm_id m) \<and> sid_ok (sm_substream_id (tm_message m)))"

definition queues_typed :: "('k, 'r, 'm, 'x) NymTransport \<Rightarrow> bool" where
  "queues_typed t \<longleftrightarrow> (\<forall>cid q. message_queues t cid = Some q \<longrightarrow> queue_typed q)"

lemma queues_typed_upd:
  "queues_typed t \<Longrightarrow> queue_typed q \<Longrightarrow> queues_typed (t\<lparr>message_queues := (message_queues t)(cid \<mapsto> q)\<rparr>)"
  by (auto simp: queues_typed_def split: if_splits)

lemma queues_typed_frame [simp]:
  "queues_typed (t\<lparr>t_waker := k\<rparr>) = queues_typed t"
  "queues_typed (t\<lparr>connections := cs\<rparr>) = queues_typed t"
  "queues_typed (t\<lparr>pending_dials := ps\<rparr>) = queues_typed t"
  "queues_typed (t\<lparr>poll_chan := ch\<rparr>) = queues_typed t"
  by (simp_all add: queues_typed_def)

lemma queue_typed_new [simp]: "queue_typed MessageQueue_new"
  by (simp add: queue_typed_def MessageQueue_new_def)

lemma queue_typed_nonce [simp]: "queue_typed (q\<lparr>next_expected_nonce := n\<rparr>) = queue_typed q"
  by (simp add: queue_typed_def)

lemma try_push_typed:
  assumes "try_push q m = (r, q')" and "queue_typed q" and "ids_ok (TransportMsg m)"
  shows "queue_typed q' \<and> (r = None \<or> r = Some m)"
  using assms tm_order.set_btree_insert [of m "queue q"]
  by (auto simp: try_push_def queue_typed_def split: if_splits prod.splits)

lemma pop_typed:
  assumes "pop q = (r, q')" and "queue_typed q"
  shows "queue_typed q' \<and> (\<forall>m. r = Some m \<longrightarrow> sid_ok (sm_substream_id (tm_message m)))"
  using assms by (cases r) (auto simp: pop_None pop_Some queue_typed_def)

lemma send_conn_typed:
  assumes "send_conn w a m = (r, w')" and "cells_typed w" and "sid_ok (sm_substream_id m)"
  shows "cells_typed w'"
  using assms
  by (auto simp: send_conn_def cell_send_def chan_send_def cells_typed_def split: option.splits if_splits)

lemma drain_queue_typed:
  "drain_queue q a w = ((r :: (unit, 'x error) outcome), q', w') \<Longrightarrow> queue_typed q \<Longrightarrow> cells_typed w \<Longrightarrow>
   queue_typed q' \<and> cells_typed w'"
proof (induction q a w arbitrary: r q' w' rule: drain_queue.induct)
  case (1 q a w)
  obtain p q1 where p: "pop q = (p, q1)" by fastforce
  note pt = pop_typed [OF p 1(3)]
  show ?case
  proof (cases p)
    case None
    then show ?thesis using "1.prems" p pt by (auto simp: drain_queue.simps [of q])
  next
    case (Some m)
    obtain s w1 where s: "send_conn w a (tm_message m) = (s, w1)" by fastforce
    have w1: "cells_typed w1" using send_conn_typed [OF s 1(4)] pt Some by simp
    show ?thesis
    proof (cases s)
      case (Ok u)
      then have "drain_queue q1 a w1 = (r, q', w')"
        using 1(2) p Some s by (simp add: drain_queue.simps [of q])
      then show ?thesis using "1.IH" [OF p [symmetric] Some s [symmetric] Ok] pt w1 by blast
    qed (use 1(2) p pt Some s w1 in \<open>auto simp: drain_queue.simps [of q]\<close>)
  qed
qed

lemma initiation_typed:
  fixes r :: "(unit, 'x error) outcome"
  assumes "handle_message_queue_on_connection_initiation t cid w = (r, t', w')"
    and "queues_typed t" and "cells_typed w"
  shows "queues_typed t' \<and> cells_typed w'"
proof (cases "connections t cid")
  case (Some a)
  show ?thesis
  proof (cases "message_queues t cid")
    case None
    then show ?thesis
      using assms Some
      by (auto simp: handle_message_queue_on_connection_initiation_def set_connection_message_received_def
          MessageQueue_new_def queue_typed_def Let_def intro!: queues_typed_upd)
  next
    case q: (Some q)
    then have typed: "queue_typed q" using assms(2) by (simp add: queues_typed_def)
    show ?thesis
    proof (cases "next_expected_nonce q = 0")
      case True
      let ?q = "q\<lparr>next_expected_nonce := next_expected_nonce q + 1\<rparr>"
      obtain r1 :: "(unit, 'x error) outcome" and q2 w1 where d: "drain_queue ?q a w = (r1, q2, w1)"
        using prod_cases3 by blast
      have "queue_typed q2 \<and> cells_typed w1" using drain_queue_typed [OF d _ assms(3)] typed by simp
      then show ?thesis
        using assms Some q True d queues_typed_upd [OF assms(2), of q2 cid]
        by (auto simp: handle_message_queue_on_connection_initiation_def set_connection_message_received_def)
    qed (use assms Some q in \<open>auto simp: handle_message_queue_on_connection_initiation_def
        set_connection_message_received_def\<close>)
  qed
qed (use assms in \<open>auto simp: handle_message_queue_on_connection_initiation_def\<close>)

lemma transport_message_typed:
  fixes r :: "(unit, 'x error) outcome"
  assumes "handle_transport_message t m w = (r, t', w')"
    and "queues_typed t" and "cells_typed w" and "ids_ok (TransportMsg m)"
  shows "queues_typed t' \<and> cells_typed w'"
proof -
  let ?q = "case message_queues t (tm_id m) of Some q \<Rightarrow> q | None \<Rightarrow> MessageQueue_new"
  obtain p q1 where p: "try_push ?q m = (p, q1)" by fastforce
  have "queue_typed ?q" using assms(2) by (auto simp: queues_typed_def split: option.splits)
  then have q1: "queue_typed q1" "p = None \<or> p = Some m"
    using try_push_typed [OF p _ assms(4)] by auto
  have upd: "queue_typed q \<Longrightarrow> queues_typed (t\<lparr>message_queues := (message_queues t)(tm_id m \<mapsto> q)\<rparr>)" for q
    by (rule queues_typed_upd [OF assms(2)])
  show ?thesis
  proof (cases "p \<noteq> None \<and> connections t (tm_id m) \<noteq> None")
    case True
    then obtain a where a: "p = Some m" "connections t (tm_id m) = Some a" using q1(2) by auto
    obtain s w1 where s: "send_conn w a (tm_message m) = (s, w1)" by fastforce
    have w1: "cells_typed w1" using send_conn_typed [OF s assms(3)] assms(4) by simp
    obtain r1 :: "(unit, 'x error) outcome" and q2 w2 where d: "drain_queue q1 a w1 = (r1, q2, w2)"
      using prod_cases3 by blast
    have "queue_typed q2 \<and> cells_typed w2" using drain_queue_typed [OF d q1(1) w1] .
    then have "cells_typed w1 \<and> cells_typed w2"
        "queues_typed (t\<lparr>message_queues := (message_queues t)(tm_id m \<mapsto> q1)\<rparr>)"
        "queues_typed (t\<lparr>message_queues := (message_queues t)(tm_id m \<mapsto> q2)\<rparr>)"
      using w1 upd q1(1) by simp_all
    moreover have "(t' = t\<lparr>message_queues := (message_queues t)(tm_id m \<mapsto> q1)\<rparr> \<and> w' = w1) \<or>
        (t' = t\<lparr>message_queues := (message_queues t)(tm_id m \<mapsto> q2)\<rparr> \<and> (w' = w2 \<or> (\<exists>k. w' = wake_taken k w2)))"
      using assms(1)
      by (cases s; cases r1) (auto simp: handle_transport_message_def p a s d)
    ultimately show ?thesis by auto
  qed (use assms(1,3) p upd [OF q1(1)] q1(2) in \<open>auto simp: handle_transport_message_def split: option.splits\<close>)
qed

text \<open>All the cells of a node: also what waits in the inbound channel and in the oneshot channels.\<close>

definition net_typed :: "('p, 'r, 'z) node_net_scheme \<Rightarrow> bool" where
  "net_typed w \<longleftrightarrow>
     cells_typed w \<and> (\<forall>i\<in>set (buffer (inbound w)). ids_ok (the_message i)) \<and> (\<forall>c\<in>in_shots w. conn_typed c)"

lemma net_typed_change:
  assumes "net_typed w" and "cells_typed w'" and "set (buffer (inbound w')) \<subseteq> set (buffer (inbound w))"
    and "in_shots w' \<subseteq> in_shots w \<union> C" and "\<And>c. c \<in> C \<Longrightarrow> conn_typed c"
  shows "net_typed w'"
  using assms unfolding net_typed_def by blast

lemma Connection_drop_typed [simp]: "cells_typed w \<Longrightarrow> cells_typed (Connection_drop c w)"
  by (auto simp: cells_typed_def Connection_drop_chans chan_drop_rx_def split: if_splits)

lemma conn_made_typed: "cid_ok cid \<Longrightarrow> conn_typed (conn_made peer recipient cid w)"
  by (simp add: conn_typed_def)

lemma connection_request_typed:
  fixes r :: "(('p, 'r) Connection, 'x error) outcome" and w :: "('p, 'r, 'z) node_net_scheme"
  assumes "handle_connection_request A t msg w = (r, t', w')"
    and "queues_typed t" and "cells_typed w" and "cid_ok (cm_id msg)"
  shows "queues_typed t' \<and> cells_typed w' \<and> in_shots w' = in_shots w \<and> (\<forall>conn. r = Ok conn \<longrightarrow> conn_typed conn)"
proof (cases "cm_recipient msg = None \<or> connections t (cm_id msg) \<noteq> None")
  case False
  then obtain recipient where new: "cm_recipient msg = Some recipient" "connections t (cm_id msg) = None"
    by auto
  obtain r1 :: "(unit, 'x error) outcome" and t1 w1 where i: "handle_message_queue_on_connection_initiation
      (t\<lparr>connections := (connections t)(cm_id msg \<mapsto> fresh w)\<rparr>) (cm_id msg) (with_conn w) = (r1, t1, w1)"
    using prod_cases3 by blast
  have typed: "queues_typed t1 \<and> cells_typed w1" using initiation_typed [OF i] assms(2,3) by simp
  have "in_shots w1 = in_shots w" using initiation_only [OF i] by auto
  with typed show ?thesis
    using assms(1,4) new i
    by (cases r1; cases "rx_open (outbound w1)")
      (auto simp: handle_connection_request_def create_connection_types_eq conn_made_typed cells_typed_def
        Connection_drop_chans chan_drop_rx_def split: if_splits)
qed (use assms in \<open>auto simp: handle_connection_request_def split: option.splits\<close>)

lemma connection_response_typed:
  fixes r :: "(unit, 'x error) outcome"
  assumes "handle_connection_response t msg w = (r, t', w')"
    and "queues_typed t" and "net_typed w" and "cid_ok (cm_id msg)"
  shows "queues_typed t' \<and> net_typed w'"
proof (cases "connections t (cm_id msg) \<noteq> None \<or> pending_dials t (cm_id msg) = None")
  case False
  then obtain pc where new: "connections t (cm_id msg) = None" "pending_dials t (cm_id msg) = Some pc"
    by auto
  let ?conn = "conn_made (cm_peer_id msg) (pc_remote_recipient pc) (cm_id msg) w"
  obtain r1 :: "(unit, 'x error) outcome" and t1 w1 where i: "handle_message_queue_on_connection_initiation
      (t\<lparr>pending_dials := (pending_dials t)(cm_id msg := None),
         connections := (connections t)(cm_id msg \<mapsto> fresh w)\<rparr>) (cm_id msg) (with_conn w) = (r1, t1, w1)"
    using prod_cases3 by blast
  have typed: "queues_typed t1 \<and> cells_typed w1"
    using initiation_typed [OF i] assms(2,3) by (simp add: net_typed_def)
  have w1: "in_shots w1 = in_shots w" "inbound w1 = inbound w" using initiation_only [OF i] by auto
  have "queues_typed t' \<and> cells_typed w' \<and> inbound w' = inbound w \<and> in_shots w' \<subseteq> in_shots w \<union> {?conn}"
    using assms(1) new i typed w1
      in_shots_dial [where C = "{?conn}" and w = w1 and a = "pc_connection_tx pc" and s = "Some (Sent ?conn)"]
      in_shots_dial [where C = "{}" and w = w1 and a = "pc_connection_tx pc" and
        s = "map_option oneshot_drop_tx (dial_shots w1 (pc_connection_tx pc))"]
    by (cases r1)
      (auto simp: handle_connection_response_def create_connection_types_eq send_dial_eq
        dropped_tx_Sent cells_typed_def Connection_drop_chans chan_drop_rx_def Let_def split: if_splits)
  then show ?thesis
    using net_typed_change [OF assms(3), of w' "{?conn}"] by (simp add: conn_made_typed assms(4))
qed (use assms in \<open>auto simp: handle_connection_response_def split: if_splits\<close>)

lemma net_typed_inbound:
  "net_typed w \<Longrightarrow> buffer (inbound w) = i # ins \<Longrightarrow>
   net_typed (w\<lparr>inbound := (inbound w)\<lparr>buffer := ins\<rparr>\<rparr>) \<and> ids_ok (the_message i)"
  by (simp add: net_typed_def cells_typed_def)

lemma handle_inbound_typed:
  fixes r :: "(InboundTransportEvent, 'x error) outcome" and w :: "('p, 'r, 'z) node_net_scheme"
  assumes "handle_inbound A t m w = (r, t', w')" and "queues_typed t" and "net_typed w" and "ids_ok m"
  shows "queues_typed t' \<and> net_typed w'"
proof (cases m)
  case (ConnectionRequest c)
  obtain r1 :: "(('p, 'r) Connection, 'x error) outcome" and t1 w1
    where h: "handle_connection_request A t c w = (r1, t1, w1)" using prod_cases3 by blast
  have s: "queues_typed t1" "cells_typed w1" "in_shots w1 = in_shots w" "\<forall>conn. r1 = Ok conn \<longrightarrow> conn_typed conn"
      "inbound w1 = inbound w"
    using connection_request_typed [OF h assms(2)] handle_connection_request_inbound [OF h] assms(3,4)
      ConnectionRequest
    by (simp_all add: net_typed_def)
  then have w1: "net_typed w1" by (intro net_typed_change [OF assms(3), where C = "{}"]) simp_all
  show ?thesis
  proof (cases r1)
    case (Ok conn)
    have eqs: "t' = t1" "w' = w1\<lparr>upgrade_shots := (upgrade_shots w1)(fresh w1 \<mapsto> Sent (cm_peer_id c, conn)),
        fresh := Suc (fresh w1)\<rparr>"
      using assms(1) ConnectionRequest h Ok new_upgrade_eq [of w1 "(cm_peer_id c, conn)"]
      by (auto simp: handle_inbound_def new_upgrade_shot_def Let_def)
    have "in_shots w' \<subseteq> in_shots w1 \<union> {conn}"
      using in_shots_upgrade [where C = "{conn}" and w = w1 and a = "fresh w1" and
          s = "Some (Sent (cm_peer_id c, conn))"] eqs(2)
      by simp
    moreover have "cells_typed w'" "inbound w' = inbound w1" using eqs(2) s(2) by (simp_all add: cells_typed_def)
    ultimately have "net_typed w'" using s(4) Ok by (intro net_typed_change [OF w1, where C = "{conn}"]) simp_all
    then show ?thesis using eqs(1) s(1) by simp
  qed (use assms(1) ConnectionRequest h s(1) w1 in \<open>auto simp: handle_inbound_def\<close>)
next
  case (ConnectionResponse c)
  obtain r1 :: "(unit, 'x error) outcome" and t1 w1
    where h: "handle_connection_response t c w = (r1, t1, w1)" using prod_cases3 by blast
  from connection_response_typed [OF h assms(2,3)] show ?thesis
    using assms(1,4) ConnectionResponse h by (simp add: handle_inbound_def)
next
  case (TransportMsg c)
  obtain r1 :: "(unit, 'x error) outcome" and t1 w1
    where h: "handle_transport_message t c w = (r1, t1, w1)" using prod_cases3 by blast
  have eqs: "t' = t1" "w' = w1" using assms(1) TransportMsg h by (simp_all add: handle_inbound_def)
  have typed: "queues_typed t1 \<and> cells_typed w1"
    using transport_message_typed [OF h assms(2)] assms(3,4) TransportMsg by (simp add: net_typed_def)
  moreover have "in_shots w1 = in_shots w" "inbound w1 = inbound w"
    using h
    by (auto simp: handle_transport_message_def Let_def
        split: option.splits outcome.splits prod.splits dest!: drain_queue_only send_conn_only)
  ultimately show ?thesis using net_typed_change [OF assms(3), of w1 "{}"] eqs by simp
qed

lemma poll_loop_typed:
  "transport_poll_loop A cx t w = (r, t', w') \<Longrightarrow> queues_typed t \<Longrightarrow> net_typed w \<Longrightarrow>
   queues_typed t' \<and> net_typed w'"
proof (induction "length (buffer (inbound w))" arbitrary: t w rule: less_induct)
  case less
  note loop = transport_poll_loop.simps [of A cx t w]
  show ?case
  proof (cases "buffer (inbound w)")
    case Nil
    then show ?thesis
      using less(2-4) loop by (auto simp: chan_poll_recv_def split: if_splits)
  next
    case (Cons i ins)
    obtain m where i: "i = InboundMessage m" by (cases i)
    let ?w = "w\<lparr>inbound := (inbound w)\<lparr>buffer := ins\<rparr>\<rparr>"
    obtain r1 t1 w1 where h: "handle_inbound A t m ?w = (r1, t1, w1)" using prod_cases3 by blast
    have one: "queues_typed t1 \<and> net_typed w1"
      using handle_inbound_typed [OF h less(3)] net_typed_inbound [OF less(4) Cons] i by simp
    have "length (buffer (inbound w1)) < length (buffer (inbound w))"
      using handle_inbound_inbound [OF h] Cons by simp
    then have rest: "transport_poll_loop A cx t1 w1 = (r, t', w') \<Longrightarrow> queues_typed t' \<and> net_typed w'"
      using less(1) one by blast
    show ?thesis
      using less(2) loop Cons i h one rest
      by (cases r1) (auto simp: chan_poll_recv_def split: InboundTransportEvent.splits)
  qed
qed

lemma transport_poll_typed:
  assumes "transport_poll A cx t w = (r, t', w')" and "queues_typed t" and "net_typed w"
  shows "queues_typed t' \<and> net_typed w'"
proof (cases "buffer (poll_chan t)")
  case Nil
  then show ?thesis using assms transport_poll_loop_chan [OF Nil] poll_loop_typed by metis
next
  case (Cons ev evs)
  then show ?thesis using assms by (auto simp: transport_poll_def chan_poll_recv_def)
qed

text \<open>Dialling and the futures.\<close>

lemma dial_keeps_typed:
  assumes "dial A fill t addr w = (r, t', w')" and "queues_typed t" and "net_typed w" and "length (fill 32) = 32"
  shows "queues_typed t' \<and> net_typed w' \<and> (\<forall>f. r = Ok f \<longrightarrow> dial_typed f)"
proof -
  have cid: "cid_ok (ConnectionId_generate fill)"
    using assms(4) by (simp add: cid_ok_def ConnectionId_generate_def)
  have "in_shots w' \<subseteq> in_shots w \<and> outbound w' = outbound w"
    using assms(1)
    by (auto simp: dial_def new_dial_shot_def drop_pending_def in_shots_def Let_def dropped_tx_Sent
        split: outcome.splits option.splits if_splits)
  then have "net_typed w'"
    using dial_silent [OF assms(1)] assms(3)
    by (intro net_typed_change [OF assms(3), where C = "{}"]) (simp_all add: net_typed_def cells_typed_def)
  moreover have "queues_typed t'" using dial_silent [OF assms(1)] assms(2) by (simp add: queues_typed_def)
  moreover have "\<forall>f. r = Ok f \<longrightarrow> dial_typed f"
    using assms(1) cid by (auto simp: dial_def Let_def split: outcome.splits prod.splits)
  ultimately show ?thesis by blast
qed

lemma dial_wait_shots:
  assumes "dial_wait now deadline shot w = (r, f, w')"
  shows "in_shots w' \<subseteq> in_shots w \<and> outbound w' = outbound w \<and> dial_typed f"
proof (cases "dial_shots w shot")
  case (Some s)
  then show ?thesis
    using assms
      in_shots_gone(1) [of "Some (Received :: ('a, 'b) Connection oneshot)" w shot]
      in_shots_gone(1) [of "Some (RxDropped :: ('a, 'b) Connection oneshot)" w shot]
    by (cases s) (auto simp: dial_wait_def fun_upd_idem split: if_splits)
qed (use assms in \<open>auto simp: dial_wait_def\<close>)

lemma dial_poll_typed:
  assumes "dial_poll now f w = (r, f', w')" and "net_typed w" and "dial_typed f" and "rx_open (outbound w)"
  shows "net_typed w' \<and> dial_typed f' \<and> (\<forall>p c. r = Ready (Ok (p, c)) \<longrightarrow> conn_typed c)"
proof -
  have s: "conn_chans w' = conn_chans w" "inbound w' = inbound w" "\<forall>p c. r = Ready (Ok (p, c)) \<longrightarrow> c \<in> in_shots w"
    using dial_poll_silent [OF assms(1,4)] by blast+
  have "in_shots w' \<subseteq> in_shots w \<and> dial_typed f' \<and> (\<forall>o'\<in>set (buffer (outbound w')). ids_ok (om_message o'))"
  proof (cases f)
    case (DialStart msg recipient waker timeout shot)
    let ?w = "wake_taken waker (w\<lparr>outbound := (outbound w)\<lparr>buffer := buffer (outbound w) @
        [\<lparr>om_message = ConnectionRequest msg, om_recipient = recipient\<rparr>]\<rparr>\<rparr>)"
    have "dial_wait now (time now + timeout) shot ?w = (r, f', w')"
      using assms(1,4) DialStart by (simp add: dial_poll_def)
    from dial_wait_shots [OF this] show ?thesis
      using assms(2,3) DialStart by (auto simp: net_typed_def cells_typed_def)
  next
    case (DialWaiting deadline shot)
    then show ?thesis
      using assms dial_wait_shots [of now deadline shot w r f' w']
      by (simp add: dial_poll_def net_typed_def cells_typed_def)
  next
    case DialDone
    then show ?thesis using assms by (auto simp: dial_poll_def net_typed_def cells_typed_def)
  qed
  then show ?thesis
    using s assms(2) net_typed_change [OF assms(2), of w' "{}"] by (auto simp: net_typed_def cells_typed_def)
qed

lemma Upgrade_poll_typed:
  assumes "Upgrade_poll u w = (r, w')" and "net_typed w"
  shows "net_typed w' \<and> (\<forall>p c. r = Ready (Ok (p, c)) \<longrightarrow> conn_typed c)"
proof -
  have "in_shots w' \<subseteq> in_shots w \<and> outbound w' = outbound w"
  proof (cases "upgrade_shots w (upgrade_rx u)")
    case (Some s)
    then show ?thesis
      using assms(1) in_shots_gone(2) [of "Some (Received :: ('a \<times> ('a, 'b) Connection) oneshot)" w "upgrade_rx u"]
      by (cases s) (auto simp: Upgrade_poll_def fun_upd_idem)
  qed (use assms(1) in \<open>auto simp: Upgrade_poll_def\<close>)
  moreover have "conn_chans w' = conn_chans w" "inbound w' = inbound w"
      "\<forall>p c. r = Ready (Ok (p, c)) \<longrightarrow> c \<in> in_shots w"
    using Upgrade_poll_silent [OF assms(1)] by blast+
  ultimately show ?thesis using assms(2) by (auto simp: net_typed_def cells_typed_def)
qed

section \<open>The node\<close>

definition node_typed :: "('k, 'p, 'r, 'm, 'x) node \<Rightarrow> bool" where
  "node_typed n \<longleftrightarrow>
     queues_typed (n_t n) \<and> net_typed (n_w n) \<and> list_all conn_typed (n_conns n) \<and>
     list_all sub_typed (n_subs n) \<and> list_all dial_typed (n_dials n) \<and>
     list_all (\<lambda>o'. ids_ok (om_message o')) (n_sent n)"

lemma list_all_update: "list_all P xs \<Longrightarrow> P x \<Longrightarrow> list_all P (xs[i := x])"
  using set_update_subset_insert [of xs i x] by (auto simp: list_all_iff)

lemma list_all_drop_nth: "list_all P xs \<Longrightarrow> list_all P (drop_nth i xs)"
  using set_drop_nth [of i xs] by (auto simp: list_all_iff)

lemma net_typed_more:
  "net_typed w \<Longrightarrow> cells_typed w' \<Longrightarrow> net.more w' = net.more w \<Longrightarrow> net_typed w'"
  using more_shots [of w' w] more_in_shots [of w' w] by (simp add: net_typed_def)

lemma node_typed_nth:
  "node_typed n \<Longrightarrow> i < length (n_conns n) \<Longrightarrow> conn_typed (n_conns n ! i)"
  "node_typed n \<Longrightarrow> i < length (n_subs n) \<Longrightarrow> sub_typed (n_subs n ! i)"
  "node_typed n \<Longrightarrow> i < length (n_dials n) \<Longrightarrow> dial_typed (n_dials n ! i)"
  by (auto simp: node_typed_def list_all_length)

lemma node_poll_typed: "node_typed n \<Longrightarrow> node_typed (node_poll A cx n)"
  using transport_poll_typed [of A cx "n_t n" "n_w n"]
  by (simp add: node_typed_def node_poll_def split: prod.splits)

lemma node_dial_typed:
  assumes "node_typed n" and "length (fill 32) = 32"
  shows "node_typed (node_dial A fill addr n)"
proof -
  obtain r t' w' where d: "dial A fill (n_t n) addr (n_w n) = (r, t', w')" using prod_cases3 by blast
  then show ?thesis
    using assms dial_keeps_typed [OF d]
    by (auto simp: node_typed_def node_dial_def split: outcome.splits)
qed

lemma node_dial_poll_typed:
  fixes n :: "('k, 'p, 'r, 'm, 'x) node"
  assumes "node_inv M n" and "node_typed n" and "i < length (n_dials n)"
  shows "node_typed (node_dial_poll now i n)"
proof -
  obtain r f w' where d: "(dial_poll now (n_dials n ! i) (n_w n) ::
      ('p \<times> ('p, 'r) Connection, 'x error) outcome poll \<times> _) = (r, f, w')"
    using prod_cases3 by blast
  then show ?thesis
    using assms(2) dial_poll_typed [OF d _ _ node_inv_open [OF assms(1)]] node_typed_nth(3) [OF assms(2,3)]
    by (auto simp: node_typed_def node_dial_poll_def intro: list_all_update split: poll.splits outcome.splits)
qed

lemma node_upgrade_poll_typed:
  fixes n :: "('k, 'p, 'r, 'm, 'x) node"
  assumes "node_typed n"
  shows "node_typed (node_upgrade_poll i n)"
proof -
  obtain r w' where d: "(Upgrade_poll (n_ups n ! i) (n_w n) ::
      ('p \<times> ('p, 'r) Connection, 'x error) outcome poll \<times> _) = (r, w')"
    by fastforce
  then show ?thesis
    using assms Upgrade_poll_typed [OF d]
    by (auto simp: node_typed_def node_upgrade_poll_def split: poll.splits outcome.splits)
qed

lemma node_conn_poll_typed:
  fixes n :: "('k, 'p, 'r, 'm, 'x) node"
  assumes "node_inv M n" and "node_typed n" and "i < length (n_conns n)"
  shows "node_typed (node_conn_poll cx i n)"
proof -
  let ?c = "n_conns n ! i"
  obtain r c' w' where p: "(conn_poll cx ?c (n_w n) :: (unit, 'x error) outcome poll \<times> _) = (r, c', w')"
    using prod_cases3 by blast
  have "net.more w' = net.more (n_w n)"
    using conn_poll_effect [OF _ _ p] node_inv_conn [OF assms(1) node_inv_conns(1) [OF assms(1,3)]]
    by (auto simp: emits_def)
  then show ?thesis
    using assms(2) conn_poll_typed [OF p node_typed_nth(1) [OF assms(2,3)]] net_typed_more [of "n_w n" w']
    by (auto simp: node_typed_def node_conn_poll_def Let_def p net_typed_def [of "n_w n"] intro: list_all_update)
qed

lemma node_conn_open_typed:
  fixes n :: "('k, 'p, 'r, 'm, 'x) node"
  assumes "node_inv M n" and "node_typed n" and "i < length (n_conns n)" and "length (fill 32) = 32"
  shows "node_typed (node_conn_open fill i n)"
proof -
  let ?c = "n_conns n ! i"
  obtain r c' w' where p: "(new_outbound_substream fill ?c (n_w n) :: ('r Substream, 'x error) outcome \<times> _) =
      (r, c', w')"
    using prod_cases3 by blast
  have "net.more w' = net.more (n_w n)"
    using new_outbound_effect [OF _ _ p] node_inv_conn [OF assms(1) node_inv_conns(1) [OF assms(1,3)]]
    by (auto simp: emits_def)
  then show ?thesis
    using assms(2) new_outbound_typed [OF p node_typed_nth(1) [OF assms(2,3)] _ assms(4)]
      net_typed_more [of "n_w n" w']
    by (auto simp: node_typed_def node_conn_open_def conn_poll_outbound_def p net_typed_def [of "n_w n"]
        intro: list_all_update split: outcome.splits)
qed

lemma node_conn_accept_typed:
  fixes n :: "('k, 'p, 'r, 'm, 'x) node"
  assumes "node_typed n" and "i < length (n_conns n)"
  shows "node_typed (node_conn_accept i n)"
proof -
  obtain r c' where p: "(conn_poll_inbound (n_conns n ! i) :: ('r Substream, 'x error) outcome poll \<times> _) = (r, c')"
    by fastforce
  show ?thesis
    using assms(1) conn_poll_inbound_typed [OF p node_typed_nth(1) [OF assms]]
    by (auto simp: node_typed_def node_conn_accept_def p intro: list_all_update split: poll.splits outcome.splits)
qed

lemma node_conn_closed_typed:
  fixes n :: "('k, 'p, 'r, 'm, 'x) node"
  assumes "node_typed n" and "i < length (n_conns n)"
  shows "node_typed (node_conn_closed i n)"
proof -
  obtain r c' where p: "(conn_poll_close (n_conns n ! i) :: (unit, 'x error) outcome poll \<times> _) = (r, c')"
    by fastforce
  have "conn_typed c'"
    using p node_typed_nth(1) [OF assms]
    by (auto simp: conn_poll_close_def chan_poll_recv_def conn_typed_def split: list.splits if_splits)
  then show ?thesis
    using assms(1) by (auto simp: node_typed_def node_conn_closed_def p intro: list_all_update)
qed

lemma sub_ops_more:
  "poll_write buf s w = (r, s', w') \<Longrightarrow> net.more w' = net.more w"
  "poll_close s w = (r1, s', w') \<Longrightarrow> net.more w' = net.more w"
  "poll_flush s w = (r1, s', w') \<Longrightarrow> net.more w' = net.more w"
  by (auto simp: poll_write_def poll_close_def poll_flush_def check_closed_eq fetch_add_nonce_def
      send_outbound_def Let_def split: prod.splits outcome.splits if_splits)

lemma node_sub_typed:
  assumes "node_typed n" and "i < length (n_subs n)" and "f (n_subs n ! i) (n_w n) = (s', w')"
    and "sub_typed (n_subs n ! i) \<Longrightarrow> cells_typed (n_w n) \<Longrightarrow> sub_typed s' \<and> cells_typed w'"
    and "net.more w' = net.more (n_w n)"
  shows "node_typed (node_sub i f n)"
proof -
  have w: "net_typed (n_w n)" using assms(1) by (simp add: node_typed_def)
  then have "sub_typed s'" "cells_typed w'"
    using assms(4) node_typed_nth(2) [OF assms(1,2)] by (auto simp: net_typed_def)
  then show ?thesis
    using assms(1,3) net_typed_more [OF w, of w'] assms(5)
    by (auto simp: node_typed_def node_sub_def intro: list_all_update)
qed

lemma node_sub_ops_typed:
  assumes "node_typed n" and "i < length (n_subs n)"
  shows "node_typed (node_sub i (\<lambda>s w. snd (snd (poll_read buf s w))) n)"
    and "node_typed (node_sub i (\<lambda>s w. snd (poll_write d s w)) n)"
    and "node_typed (node_sub i (\<lambda>s w. snd (poll_flush s w)) n)"
    and "node_typed (node_sub i (\<lambda>s w. snd (poll_close s w)) n)"
proof -
  let ?s = "n_subs n ! i"
  obtain r1 b1 s1 w1 where 1: "poll_read buf ?s (n_w n) = (r1, b1, s1, w1)" using prod_cases4 by blast
  obtain r2 s2 w2 where 2: "poll_write d ?s (n_w n) = (r2, s2, w2)" using prod_cases3 by blast
  obtain r3 s3 w3 where 3: "poll_flush ?s (n_w n) = (r3, s3, w3)" using prod_cases3 by blast
  obtain r4 s4 w4 where 4: "poll_close ?s (n_w n) = (r4, s4, w4)" using prod_cases3 by blast
  show "node_typed (node_sub i (\<lambda>s w. snd (snd (poll_read buf s w))) n)"
    using poll_read_typed [OF 1] poll_read_quiet [OF 1]
    by (intro node_sub_typed [OF assms, where s' = s1 and w' = w1]) (auto simp: 1)
  show "node_typed (node_sub i (\<lambda>s w. snd (poll_write d s w)) n)"
    using poll_write_typed [OF 2] sub_ops_more(1) [OF 2]
    by (intro node_sub_typed [OF assms, where s' = s2 and w' = w2]) (auto simp: 2)
  show "node_typed (node_sub i (\<lambda>s w. snd (poll_flush s w)) n)"
    using poll_flush_typed [OF 3] sub_ops_more(3) [OF 3]
    by (intro node_sub_typed [OF assms, where s' = s3 and w' = w3]) (auto simp: 3)
  show "node_typed (node_sub i (\<lambda>s w. snd (poll_close s w)) n)"
    using poll_close_typed [OF 4] sub_ops_more(2) [OF 4]
    by (intro node_sub_typed [OF assms, where s' = s4 and w' = w4]) (auto simp: 4)
qed

lemma node_drop_typed:
  assumes "node_typed n"
  shows "node_typed (node_do A (DropSub i) n)" and "node_typed (node_do A (DropConn i) n)"
proof -
  have w: "net_typed (n_w n)" using assms by (simp add: node_typed_def)
  have "net_typed (Substream_drop (n_subs n ! i) (n_w n))"
    by (rule net_typed_more [OF w]) (use w in \<open>simp_all add: net_typed_def cells_typed_def\<close>)
  then show "node_typed (node_do A (DropSub i) n)"
    using assms list_all_drop_nth by (auto simp: node_typed_def simp del: drop_nth.simps)
  have "net_typed (Connection_drop (n_conns n ! i) (n_w n))"
    by (rule net_typed_more [OF w]) (use w in \<open>simp_all add: net_typed_def\<close>)
  then show "node_typed (node_do A (DropConn i) n)"
    using assms list_all_drop_nth by (auto simp: node_typed_def simp del: drop_nth.simps)
qed

lemma drops_one_typed:
  assumes "drops_one w w'" and "net_typed w"
  shows "net_typed w'"
proof -
  have "cells_typed w'"
    using assms Connection_drop_typed [of w] by (auto simp: drops_one_def net_typed_def cells_typed_def)
  then show ?thesis using assms by (intro net_typed_change [OF assms(2), where C = "{}"]) (simp_all add: drops_one_def)
qed

lemma node_drop_futures_typed:
  assumes "node_typed n"
  shows "node_typed (node_do A (DropDial i) n)" and "node_typed (node_do A (DropUpgrade i) n)"
  using assms list_all_drop_nth [of dial_typed "n_dials n" i]
  by (simp_all add: node_typed_def drops_one_typed [OF DialFuture_drop_effect]
      drops_one_typed [OF Upgrade_drop_effect] del: drop_nth.simps)

lemma node_arrive_typed:
  assumes "node_typed n" and "ids_ok m"
  shows "node_typed (node_do A (Arrive m) n)"
  using assms by (auto simp: node_typed_def net_typed_def cells_typed_def chan_send_def)

lemma node_mix_take_typed:
  assumes "node_typed n"
  shows "node_typed (node_do A MixTake n)"
  using assms
  by (cases "buffer (outbound (n_w n))")
    (auto simp: node_typed_def net_typed_def cells_typed_def chan_poll_recv_def)

lemma remove_listener_typed: "queues_typed (snd (remove_listener t lid)) = queues_typed t"
  by (simp add: remove_listener_def split: prod.splits outcome.splits)

lemma node_remove_listener_typed:
  "node_typed n \<Longrightarrow> node_typed (node_do A (RemoveListener lid) n)"
  by (simp add: node_typed_def remove_listener_typed)

text \<open>Every action keeps the identifiers well typed.\<close>

lemma node_do_typed:
  assumes "node_inv M n" and "node_typed n" and "allowed a n"
  shows "node_typed (node_do A a n)"
  using assms
  by (cases a)
    (simp_all add: node_poll_typed node_dial_typed node_dial_poll_typed node_upgrade_poll_typed
      node_conn_poll_typed node_conn_open_typed node_conn_accept_typed node_conn_closed_typed
      node_sub_ops_typed node_drop_typed node_drop_futures_typed node_mix_take_typed
      node_remove_listener_typed node_arrive_typed Message_valid_ids del: node_do.simps(2,14-19))

lemma node_start_typed: "node_start n \<Longrightarrow> node_typed n"
proof -
  assume s: "node_start n"
  have new: "n = node_new (n_t n) (n_w n)" using s unfolding node_start_def by blast
  have "n_conns n = []" "n_subs n = []" "n_dials n = []" "n_sent n = []"
    by (subst new, simp add: node_new_def)+
  then show ?thesis
    using s by (auto simp: node_typed_def node_start_def queues_typed_def net_typed_def cells_typed_def in_shots_def)
qed

lemma reachable_typed: "reachable A n \<Longrightarrow> node_typed n"
proof (induction rule: reachable.induct)
  case (step n a)
  then show ?case using reachable_inv node_do_typed by blast
qed (rule node_start_typed)

section \<open>Over the wire\<close>

text \<open>The messages that do not survive the wire.\<close>

fun empty_data :: "('p, 'r) Message \<Rightarrow> bool" where
  "empty_data (TransportMsg m) = (sm_message_type (tm_message m) = Data [])"
| "empty_data _ = False"

lemma parse_typed:
  assumes "codecs_ok E" and "ids_ok m"
  shows "parse_message_data E (Message_to_bytes E m) =
    (if empty_data m then Err InvalidSubstreamMessageBytes else Ok (InboundMessage m))"
  using assms
  by (cases m)
    (auto simp: parse_message_data_eq Message_dec_shape ConnectionMessage_dec_enc ConnectionMessage_valid_def
      transport_message_dec_enc_iff)

lemma parsed_same:
  "codecs_ok E \<Longrightarrow> ids_ok m \<Longrightarrow>
   parse_message_data E (Message_to_bytes E m) = Ok (InboundMessage m') \<Longrightarrow> m' = m"
  by (simp add: parse_typed del: Message_to_bytes.simps split: if_splits)

end
