(* ===== verification/Two_Nodes.thy ===== *)
theory Two_Nodes
  imports Node_Types
begin

text \<open>
  Two nodes and the mixnet between them.  Each node does anything its user, its executor and its
  mixnet task can do; the mixnet delivers what one node has sent to the other: in any order, any
  number of times or not at all, over the wire format.  For every connection this whole system
  refines a first-in-first-out channel in each direction.
\<close>

section \<open>One node\<close>

lemma numbered_on_numbered:
  assumes "numbered_on xs" and "length xs < 2 ^ 64 - 1"
  shows "numbered xs"
proof -
  have "unat (1 + of_nat i :: u64) = Suc i" if "i < length xs" for i
    using that assms(2) by (simp add: unat_word_ariths unat_of_nat)
  then have "map (\<lambda>m. unat (tm_nonce m)) xs = map Suc [0..<length xs]"
    using arg_cong [OF assms(1) [unfolded numbered_on_def], of "map unat"] by (simp add: comp_def)
  then show ?thesis using assms(2) by (simp add: numbered_def map_Suc_upt del: upt_Suc)
qed

lemma numbered_on_prefix: "numbered_on (xs @ ys) \<Longrightarrow> numbered_on xs"
  by (simp add: numbered_on_def upt_add_eq_append [of 0 "length xs" "length ys", simplified])

lemma node_inv_numbered:
  "node_inv M n \<Longrightarrow> numbered_on (transport_of cid (n_sent n @ buffer (outbound (n_w n))))"
  by (simp add: node_inv_def sent_ok_def count_ok_def)

section \<open>The system\<close>

inductive system ::
    "('p, 'r, 'y) codecs \<Rightarrow> ('k, 'p, 'r, 'm, 'x) addressing \<Rightarrow>
     ('k, 'p, 'r, 'm, 'x) node \<Rightarrow> ('k, 'p, 'r, 'm, 'x) node \<Rightarrow> bool" for E A where
  start: "node_start a \<Longrightarrow> node_start b \<Longrightarrow> system E A a b"
| left: "system E A a b \<Longrightarrow> allowed act a \<Longrightarrow> local_action act \<Longrightarrow> system E A (node_do A act a) b"
| right: "system E A a b \<Longrightarrow> allowed act b \<Longrightarrow> local_action act \<Longrightarrow> system E A a (node_do A act b)"
| to_right: "system E A a b \<Longrightarrow> o' \<in> set (n_sent a) \<Longrightarrow> om_recipient o' = self_address (n_t b) \<Longrightarrow>
    parse_message_data E (Message_to_bytes E (om_message o')) = Ok (InboundMessage m) \<Longrightarrow>
    allowed (Arrive m) b \<Longrightarrow> system E A a (node_do A (Arrive m) b)"
| to_left: "system E A a b \<Longrightarrow> o' \<in> set (n_sent b) \<Longrightarrow> om_recipient o' = self_address (n_t a) \<Longrightarrow>
    parse_message_data E (Message_to_bytes E (om_message o')) = Ok (InboundMessage m) \<Longrightarrow>
    allowed (Arrive m) a \<Longrightarrow> system E A (node_do A (Arrive m) a) b"

lemma n_sent_grows: "set (n_sent n) \<subseteq> set (n_sent (node_do A act n))"
  by (cases act)
    (auto simp: node_poll_def node_dial_def node_dial_poll_def node_upgrade_poll_def node_conn_poll_def
      node_conn_open_def node_conn_accept_def node_conn_closed_def node_sub_def Let_def
      split: prod.splits poll.splits option.splits)

text \<open>Everything that has arrived at one node was sent by the other.\<close>

definition from_peer :: "('p, 'r) Message list \<Rightarrow> ('k, 'p, 'r, 'm, 'x) node \<Rightarrow> bool" where
  "from_peer M n \<longleftrightarrow> set M \<subseteq> om_message ` set (n_sent n)"

lemma from_peer_do: "from_peer M n \<Longrightarrow> from_peer M (node_do A act n)"
  using n_sent_grows [of n A act] by (auto simp: from_peer_def)

lemma arrive_from_peer:
  assumes "node_inv M n" and "from_peer M peer" and "o' \<in> set (n_sent peer)" and "codecs_ok E"
    and "ids_ok (om_message o')"
    and "parse_message_data E (Message_to_bytes E (om_message o')) = Ok (InboundMessage m)"
    and "allowed (Arrive m) n"
  shows "\<exists>M'. node_inv M' (node_do A (Arrive m) n) \<and> from_peer M' peer"
proof -
  have m: "m = om_message o'" using parsed_same [OF assms(4-6)] .
  obtain M' where "M' = M \<or> M' = M @ [m]" "node_inv M' (node_do A (Arrive m) n)"
    using node_arrive_inv [OF assms(1), of m A] assms(7) by auto
  moreover from this m have "from_peer M' peer" using assms(2,3) by (auto simp: from_peer_def)
  ultimately show ?thesis by blast
qed

lemma sent_ids: "node_typed n \<Longrightarrow> o' \<in> set (n_sent n) \<Longrightarrow> ids_ok (om_message o')"
  by (auto simp: node_typed_def list_all_iff)

lemma system_inv:
  assumes "codecs_ok E"
  shows "system E A a b \<Longrightarrow> node_typed a \<and> node_typed b \<and>
    (\<exists>Ma Mb. node_inv Ma a \<and> node_inv Mb b \<and> from_peer Ma b \<and> from_peer Mb a)"
proof (induction rule: system.induct)
  case (start a b)
  then show ?case using node_start_inv node_start_typed by (fastforce simp: from_peer_def)
next
  case (left a b act)
  then show ?case using node_do_inv [of _ a act A] node_do_typed [of _ a act A] from_peer_do by blast
next
  case (right a b act)
  then show ?case using node_do_inv [of _ b act A] node_do_typed [of _ b act A] from_peer_do by blast
next
  case (to_right a b o' m)
  then show ?case
    using arrive_from_peer [OF _ _ _ assms, of _ b a o' m A] sent_ids [of a o'] node_do_typed from_peer_do by blast
next
  case (to_left a b o' m)
  then show ?case
    using arrive_from_peer [OF _ _ _ assms, of _ a b o' m A] sent_ids [of b o'] node_do_typed from_peer_do by blast
qed

lemma transport_msgs_from_peer:
  "from_peer M n \<Longrightarrow> set (transport_msgs cid M) \<subseteq> set (transport_of cid (n_sent n))"
proof -
  have 1: "m \<in> set (transport_msgs cid H) \<longleftrightarrow> TransportMsg m \<in> set H \<and> tm_id m = cid"
    for m and H :: "('a, 'b) Message list"
    by (induction cid H rule: transport_msgs.induct) auto
  have 2: "m \<in> set (transport_of cid os) \<longleftrightarrow> TransportMsg m \<in> om_message ` set os \<and> tm_id m = cid"
    for m and os :: "('a, 'b) OutboundMessage list"
    by (induction os) (auto split: Message.splits)
  show "from_peer M n \<Longrightarrow> set (transport_msgs cid M) \<subseteq> set (transport_of cid (n_sent n))"
    by (auto simp: from_peer_def 1 2 subset_iff)
qed

lemma delivered_prefix:
  assumes "node_inv Ma a" and "node_inv Mb b" and "from_peer Mb a"
    and "length (transport_of cid (n_sent a)) < 2 ^ 64 - 1"
    and "connections (n_t b) cid = Some ad" and "conn_chans (n_w b) ad = Some ch" and "rx_open ch"
  shows "\<exists>rest. map tm_message (transport_of cid (n_sent a)) = n_taken b cid @ buffer ch @ rest \<and>
    (set (transport_msgs cid (n_seen b)) = set (transport_of cid (n_sent a)) \<longrightarrow> rest = [])"
proof -
  let ?xs = "transport_of cid (n_sent a)" and ?ms = "transport_msgs cid (n_seen b)"
  have "numbered_on (?xs @ transport_of cid (buffer (outbound (n_w a))))"
    using node_inv_numbered [OF assms(1), of cid] by simp
  then have num: "numbered ?xs" using numbered_on_prefix numbered_on_numbered assms(4) by blast
  have "set (n_seen b) \<subseteq> set Mb" using assms(2) by (auto simp: node_inv_def)
  then have sub: "set ?ms \<subseteq> set ?xs"
    using transport_msgs_from_peer [of "n_seen b" a cid] assms(3) by (auto simp: from_peer_def)
  have "conn_ok (n_taken b cid) ?ms cid (n_t b) (n_w b)" using assms(2) by (simp add: node_inv_def node_ok_def)
  then obtain out q where out: "sequenced True ?ms out q" "n_taken b cid @ buffer ch = map tm_message out"
    using assms(5-7) by (auto simp: conn_ok_def)
  have "?xs = out @ drop (length out) ?xs"
    using mq.delivers_prefix [OF num sub out(1)] by (metis append_take_drop_id)
  then have "map tm_message ?xs = n_taken b cid @ buffer ch @ map tm_message (drop (length out) ?xs)"
    using out(2) by (metis append.assoc map_append)
  moreover have "drop (length out) ?xs = []" if "set ?ms = set ?xs"
    using mq.delivers_numbered [OF num that out(1)] by simp
  ultimately show ?thesis by (intro exI [of _ "map tm_message (drop (length out) ?xs)"]) auto
qed

lemma system_swap: "system E A a b \<Longrightarrow> system E A b a"
  by (induction rule: system.induct) (blast intro: system.intros)+

text \<open>Runs of several actions.\<close>

fun allowed_run ::
    "('k, 'p, 'r, 'm, 'x) addressing \<Rightarrow> ('p, 'r, 'm) action list \<Rightarrow> ('k, 'p, 'r, 'm, 'x) node \<Rightarrow> bool" where
  "allowed_run A [] n = True"
| "allowed_run A (act # acts) n = (allowed act n \<and> allowed_run A acts (node_do A act n))"

lemma reachable_run: "reachable A n \<Longrightarrow> allowed_run A acts n \<Longrightarrow> reachable A (fold (node_do A) acts n)"
  by (induction acts arbitrary: n) (auto intro: reachable.step)

lemma system_left_run:
  "system E A a b \<Longrightarrow> allowed_run A acts a \<Longrightarrow> list_all local_action acts \<Longrightarrow>
   system E A (fold (node_do A) acts a) b"
  by (induction acts arbitrary: a) (auto intro: system.left)

lemma system_right_run:
  "system E A a b \<Longrightarrow> allowed_run A acts b \<Longrightarrow> list_all local_action acts \<Longrightarrow>
   system E A a (fold (node_do A) acts b)"
  by (induction acts arbitrary: b) (auto intro: system.right)

section \<open>A run of two nodes\<close>

text \<open>
  Node 4 dials node 3; the request and the response are exchanged; node 4 opens a substream, and the
  connection of node 3 takes the open request from its channel.
\<close>

definition demo_fresh :: "u8 \<Rightarrow> u8 \<Rightarrow> (u8, u8, u8, string, unit) node" where
  "demo_fresh k r = node_new
     \<lparr>self_address = r, listen_addr = ''/nym'', listener_id = 0, keypair = k,
      connections = Map.empty, pending_dials = Map.empty, message_queues = Map.empty,
      poll_chan = unbounded_channel, t_waker = None, handshake_timeout = from_secs 5\<rparr>
     (mix_net.extend (net.extend net_new \<lparr>inbound = unbounded_channel\<rparr>)
       \<lparr>dial_shots = Map.empty, upgrade_shots = Map.empty\<rparr>)"

definition demo_req :: "(u8, u8) ConnectionMessage" where
  "demo_req = \<lparr>cm_peer_id = 1, cm_id = demo_cid, cm_recipient = Some 4\<rparr>"

definition demo_resp :: "(u8, u8) ConnectionMessage" where
  "demo_resp = \<lparr>cm_peer_id = 2, cm_id = demo_cid, cm_recipient = None\<rparr>"

definition demo_open :: TransportMessage where
  "demo_open = \<lparr>tm_nonce = 1, tm_message = \<lparr>sm_substream_id = demo_sid, sm_message_type = OpenRequest\<rparr>,
     tm_id = demo_cid\<rparr>"

abbreviation demo_do ::
    "(u8, u8, string) action list \<Rightarrow> (u8, u8, u8, string, unit) node \<Rightarrow> (u8, u8, u8, string, unit) node" where
  "demo_do \<equiv> fold (node_do demo_addressing)"

definition demo_dialling :: "(u8, u8, string) action list" where
  "demo_dialling = [Dial (\<lambda>n. replicate n 7) ''/nym/xxx'', DialPoll (demo_clock 0) 0, MixTake]"

definition demo_accepting :: "(u8, u8, string) action list" where
  "demo_accepting = [Poll 0, MixTake, UpgradePoll 0]"

definition demo_opening :: "(u8, u8, string) action list" where
  "demo_opening = [Poll 0, DialPoll (demo_clock 1) 0, ConnOpen (\<lambda>n. replicate n 9) 0, MixTake]"

definition demo_taking :: "(u8, u8, string) action list" where
  "demo_taking = [Poll 0, ConnPoll 0 0]"

definition demo_a1 :: "(u8, u8, u8, string, unit) node" where
  "demo_a1 = demo_do demo_dialling (demo_fresh 1 4)"

definition demo_b1 :: "(u8, u8, u8, string, unit) node" where
  "demo_b1 = demo_do demo_accepting
     (node_do demo_addressing (Arrive (ConnectionRequest demo_req)) (demo_fresh 2 3))"

definition demo_a2 :: "(u8, u8, u8, string, unit) node" where
  "demo_a2 = demo_do demo_opening (node_do demo_addressing (Arrive (ConnectionResponse demo_resp)) demo_a1)"

definition demo_b2 :: "(u8, u8, u8, string, unit) node" where
  "demo_b2 = demo_do demo_taking (node_do demo_addressing (Arrive (TransportMsg demo_open)) demo_b1)"

lemma demo_ids:
  "ConnectionId_generate (\<lambda>n. replicate n 7) = demo_cid" "SubstreamId_generate (\<lambda>n. replicate n 9) = demo_sid"
  "peer_id_of demo_addressing = (\<lambda>k. k)" "from_secs 5 \<noteq> 0"
  by (simp_all add: ConnectionId_generate_def SubstreamId_generate_def demo_cid_def demo_sid_def
      demo_addressing_def from_secs_def)

lemmas demo_states = demo_fresh_def node_new_def net_new_def net.extend_def mix_net.extend_def
  unbounded_channel_def chan_poll_recv_def chan_send_def Let_def demo_ids

lemmas demo_a1_eval = demo_a1_def demo_dialling_def demo_req_def demo_states node_dial_def dial_def demo_to_nym
  new_dial_shot_def drop_pending_def peer_id_def node_dial_poll_def dial_poll_def dial_wait_def
  wake_taken_def PendingConnection_new_def

lemmas demo_connect = node_poll_def transport_poll_def transport_poll_loop.simps handle_inbound_def
  taken_from_def connected_def flushed_to_def with_conn_def conn_made_def create_connection_types_def
  new_conn_chan_def Connection_new_def new_nonce_def append_conn_def queue_for_def
  set_connection_message_received_def MessageQueue_new_def pop_all.simps pop_def peer_id_def wake_taken_def

lemmas demo_b1_eval = demo_b1_def demo_accepting_def demo_req_def demo_resp_def demo_states demo_connect
  connection_request_accepted [of _ 4 _ "\<lparr>next_expected_nonce = 1, queue = []\<rparr>"]
  new_upgrade_shot_def send_upgrade_def Upgrade_new_def Upgrade_poll_def node_upgrade_poll_def

lemmas demo_substream_eval = substream_made_def with_substream_def with_cells_def conn_out_def Substream_new_def

lemmas demo_a2_eval = demo_a2_def demo_opening_def demo_resp_def demo_open_def demo_a1_eval demo_connect
  connection_response_resolved [of _ _ "\<lparr>pc_remote_recipient = 3, pc_connection_tx = 0\<rparr>"
    "\<lparr>next_expected_nonce = 1, queue = []\<rparr>"]
  node_conn_open_def conn_poll_outbound_def new_outbound_substream_eq demo_substream_eval

lemmas demo_b2_eval = demo_b2_def demo_taking_def demo_open_def demo_b1_eval demo_substream_eval
  handle_transport_message_def try_push_def send_conn_def cell_send_def drain_queue.simps
  node_conn_poll_def conn_poll.simps poll_recv_conn_def cell_poll_recv_def inbox_def conn_handle_def
  new_substream_eq send_substream_control_eq

lemma demo_start: "node_start (demo_fresh k r)"
  by (simp add: node_start_def demo_states)

lemma demo_sent:
  "n_sent demo_a1 = [\<lparr>om_message = ConnectionRequest demo_req, om_recipient = 3\<rparr>]"
  "self_address (n_t demo_a1) = 4"
  "n_sent demo_b1 = [\<lparr>om_message = ConnectionResponse demo_resp, om_recipient = 4\<rparr>]"
  "self_address (n_t demo_b1) = 3"
  "n_sent demo_a2 = [\<lparr>om_message = ConnectionRequest demo_req, om_recipient = 3\<rparr>,
     \<lparr>om_message = TransportMsg demo_open, om_recipient = 3\<rparr>]"
  by (simp add: demo_a1_eval, simp add: demo_a1_eval, simp add: demo_b1_eval, simp add: demo_b1_eval,
      simp add: demo_a2_eval)

lemma demo_received:
  "n_taken demo_b2 demo_cid = [tm_message demo_open]" "connections (n_t demo_b2) demo_cid = Some 0"
  "conn_chans (n_w demo_b2) 0 = Some unbounded_channel"
  "transport_msgs demo_cid (n_seen demo_b2) = [demo_open]"
  by (simp add: demo_b2_eval)+

lemma demo_allowed:
  "allowed_run demo_addressing demo_dialling (demo_fresh 1 4)" "list_all local_action demo_dialling"
  "allowed_run demo_addressing demo_accepting
     (node_do demo_addressing (Arrive (ConnectionRequest demo_req)) (demo_fresh 2 3))"
  "list_all local_action demo_accepting"
  "allowed_run demo_addressing demo_opening
     (node_do demo_addressing (Arrive (ConnectionResponse demo_resp)) demo_a1)"
  "list_all local_action demo_opening"
  "allowed_run demo_addressing demo_taking
     (node_do demo_addressing (Arrive (TransportMsg demo_open)) demo_b1)"
  "list_all local_action demo_taking"
  by (simp add: demo_a1_eval, simp add: demo_dialling_def, simp add: demo_b1_eval,
      simp add: demo_accepting_def, simp add: demo_a2_eval, simp add: demo_opening_def,
      simp add: demo_b2_eval, simp add: demo_taking_def)

lemma demo_valid:
  "Message_valid (ConnectionRequest demo_req)" "Message_valid (ConnectionResponse demo_resp)"
  "Message_valid (TransportMsg demo_open)"
  "in_protocol_all [ConnectionRequest demo_req]" "in_protocol_all [ConnectionResponse demo_resp]"
  "in_protocol_all [TransportMsg demo_open :: (u8, u8) Message]"
  by (simp_all add: demo_req_def demo_resp_def demo_open_def ConnectionMessage_valid_def
      TransportMessage_valid_def SubstreamMessage_valid_def cid_ok_def sid_ok_def demo_cid_def demo_sid_def
      in_protocol_all_def in_protocol_def)

lemma demo_parse:
  "Message_valid m \<Longrightarrow>
   parse_message_data demo_codecs (Message_to_bytes demo_codecs m) = Ok (InboundMessage m)"
  by (simp add: parse_message_data_eq Message_dec_enc demo_codecs_ok del: Message_to_bytes.simps)

lemma demo_system: "system demo_codecs demo_addressing demo_a2 demo_b2"
proof -
  have 1: "system demo_codecs demo_addressing demo_a1 (demo_fresh 2 3)"
    unfolding demo_a1_def
    by (rule system_left_run [OF system.start [OF demo_start demo_start] demo_allowed(1,2)])
  have 2: "system demo_codecs demo_addressing demo_a1 demo_b1"
    unfolding demo_b1_def
    by (rule system_right_run [OF system.to_right [OF 1,
          of "\<lparr>om_message = ConnectionRequest demo_req, om_recipient = 3\<rparr>"] demo_allowed(3,4)])
      (simp_all add: demo_sent demo_valid demo_parse demo_fresh_def node_new_def del: Message_to_bytes.simps Message_valid.simps)
  have 3: "system demo_codecs demo_addressing demo_a2 demo_b1"
    unfolding demo_a2_def
    by (rule system_left_run [OF system.to_left [OF 2,
          of "\<lparr>om_message = ConnectionResponse demo_resp, om_recipient = 4\<rparr>"] demo_allowed(5,6)])
      (simp_all add: demo_sent demo_valid demo_parse del: Message_to_bytes.simps Message_valid.simps)
  show ?thesis
    unfolding demo_b2_def
    by (rule system_right_run [OF system.to_right [OF 3,
          of "\<lparr>om_message = TransportMsg demo_open, om_recipient = 3\<rparr>"] demo_allowed(7,8)])
      (simp_all add: demo_sent demo_valid demo_parse del: Message_to_bytes.simps Message_valid.simps)
qed

lemma demo_reachable: "reachable demo_addressing demo_a2"
  using reachable_run [OF reachable.step [OF reachable_run [OF reachable.start [OF demo_start]
        demo_allowed(1)], folded demo_a1_def, of "Arrive (ConnectionResponse demo_resp)"] demo_allowed(5)]
    demo_valid(2,5)
  by (simp add: demo_a2_def)

section \<open>Properties\<close>

text \<open>
  (C2) The whole system is a first-in-first-out channel per connection and direction: whatever the
  two users do, however their tasks interleave, and however the mixnet delays, reorders, repeats or
  loses what the left node has sent, what the right node's connection has taken and what still waits
  in its channel is a prefix of what the left node has sent for that connection; and it is all of it
  once every message has arrived and been handled.  (By symmetry also from right to left.)  The users
  do not close a substream that is closed already, and what arrives does not have the nonces 0 and
  \<open>2\<^sup>6\<^sup>4 - 1\<close>; a nonce is taken and its message sent in one step.
\<close>

theorem system_is_fifo:
  assumes "codecs_ok E" and "system E A a b"
    and "connections (n_t b) cid = Some ad" and "conn_chans (n_w b) ad = Some ch" and "rx_open ch"
    and "length (transport_of cid (n_sent a)) < 2 ^ 64 - 1"
  shows "\<exists>rest. map tm_message (transport_of cid (n_sent a)) = n_taken b cid @ buffer ch @ rest \<and>
    (set (transport_msgs cid (n_seen b)) = set (transport_of cid (n_sent a)) \<longrightarrow> rest = [])"
proof -
  obtain Ma Mb where "node_inv Ma a" "node_inv Mb b" "from_peer Mb a"
    using system_inv [OF assms(1,2)] by blast
  then show ?thesis using delivered_prefix assms(3-6) by blast
qed

theorem system_is_fifo_witness:
  "map tm_message (transport_of demo_cid (n_sent demo_a2)) = n_taken demo_b2 demo_cid \<and>
   n_taken demo_b2 demo_cid = [tm_message demo_open]"
  using system_is_fifo [OF demo_codecs_ok demo_system demo_received(2,3)]
  by (simp add: demo_received demo_sent demo_open_def)

text \<open>
  (C3) However a node's transport, connections and substreams are used, the messages it has sent
  for a connection are numbered 1, 2, 3 and so on without a gap, in the order in which they entered
  the outbound channel, as long as no substream is closed twice and fewer than \<open>2\<^sup>6\<^sup>4 - 1\<close> have been
  sent; a nonce is taken and its message sent in one step.
\<close>

theorem node_numbers_messages:
  assumes "reachable A n" and "xs = transport_of cid (n_sent n @ buffer (outbound (n_w n)))"
    and "length xs < 2 ^ 64 - 1"
  shows "map (\<lambda>m. unat (tm_nonce m)) xs = [1..<Suc (length xs)]"
proof -
  obtain M where "node_inv M n" using reachable_inv [OF assms(1)] by blast
  then have "numbered_on xs" using node_inv_numbered assms(2) by blast
  then show ?thesis using numbered_on_numbered assms(3) by (auto simp: numbered_def)
qed

theorem node_numbers_messages_witness:
  "map (\<lambda>m. unat (tm_nonce m)) (transport_of demo_cid (n_sent demo_a2 @ buffer (outbound (n_w demo_a2)))) =
     [1..<Suc (length (transport_of demo_cid (n_sent demo_a2 @ buffer (outbound (n_w demo_a2)))))]"
proof (rule node_numbers_messages [OF demo_reachable refl])
  show "length (transport_of demo_cid (n_sent demo_a2 @ buffer (outbound (n_w demo_a2)))) < 2 ^ 64 - 1"
    by (simp add: demo_a2_eval)
qed

text \<open>
  (C4) A node that is used as its interface asks for never crashes in \<open>Transport::poll\<close>: in every
  state it can reach, whatever has arrived in whatever order, but without the nonces 0 and \<open>2\<^sup>6\<^sup>4 - 1\<close>, the
  next poll does not panic.
\<close>

theorem reachable_poll_never_panics:
  assumes "reachable A n"
  shows "\<nexists>p. fst (transport_poll A cx (n_t n) (n_w n)) = Ready (Panic p)"
proof -
  obtain M where M: "node_inv M n" using reachable_inv [OF assms] by blast
  have "\<exists>r t' w'. transport_poll A cx (n_t n) (n_w n) = (r, t', w') \<and> (\<nexists>p. r = Ready (Panic p))"
    using transport_poll_cases [OF _ inbound_messages, of "n_taken n" "n_seen n" "n_t n" "n_w n" A cx] M
    by (auto simp: node_inv_def)
  then show ?thesis by auto
qed

theorem reachable_poll_never_panics_witness:
  "\<nexists>p. fst (transport_poll demo_addressing 0 (n_t demo_a1) (n_w demo_a1)) = Ready (Panic p)"
  using reachable_poll_never_panics [OF reachable_run [OF reachable.start [OF demo_start] demo_allowed(1)]]
  by (simp only: demo_a1_def) simp

text \<open>
  (C5) Type safety over the wire: every message a node has ever sent, in every state it can reach, has
  identifiers of 32 bytes and is read by the peer's parser as the message it was; the only exception
  are data messages without data, which \<open>poll_write\<close> sends for an empty buffer and the parser refuses.
\<close>

theorem sent_messages_survive:
  assumes "codecs_ok E" and "reachable A n" and "o' \<in> set (n_sent n)"
  shows "ids_ok (om_message o') \<and>
    parse_message_data E (Message_to_bytes E (om_message o')) =
      (if empty_data (om_message o') then Err InvalidSubstreamMessageBytes
       else Ok (InboundMessage (om_message o')))"
  using parse_typed [OF assms(1)] sent_ids [OF reachable_typed [OF assms(2)] assms(3)] by blast

theorem sent_messages_survive_witness:
  "ids_ok (TransportMsg demo_open :: (u8, u8) Message) \<and>
   parse_message_data demo_codecs (Message_to_bytes demo_codecs (TransportMsg demo_open)) =
     Ok (InboundMessage (TransportMsg demo_open))"
  using sent_messages_survive [OF demo_codecs_ok demo_reachable,
      of "\<lparr>om_message = TransportMsg demo_open, om_recipient = 3\<rparr>"]
  by (simp add: demo_sent demo_open_def)

end
