(* ===== verification/Relay.thy ===== *)
theory Relay
  imports Two_Nodes
begin

text \<open>
  The mixnet task joined to the node.  In the node's model the task is two actions: \<open>MixTake\<close> takes a
  message from the outbound channel and \<open>Arrive\<close> puts one into the inbound channel.  Here a poll of the
  task of \<open>mixnet.rs\<close> is shown to be a run of these actions, and two tasks with the Nym clients between
  them to carry what one node sends to the other.
\<close>

section \<open>A poll of a task whose sink does not block\<close>

text \<open>The task and the cells a poll leaves: everything that waited has been moved.\<close>

definition task_done ::
    "('p, 'r, 'x) codecs \<Rightarrow> ('r, 'x) nym_api \<Rightarrow> 'x mixnet_task \<Rightarrow> ('p, 'r, 'z) net_scheme \<Rightarrow> 'x mixnet_task" where
  "task_done E api t w =
     t\<lparr>mt_ws := (mt_ws t)\<lparr>ws_incoming := [],
         ws_sent := ws_sent (mt_ws t) @ map (packet E api) (buffer (outbound w))\<rparr>,
       mt_out := Receiving,
       mt_notify := map_option (\<lambda>ch. ch\<lparr>buffer := buffer ch @
         replicate (length (ws_incoming (mt_ws t))) ()\<rparr>) (mt_notify t)\<rparr>"

definition net_done ::
    "('p, 'r, 'x) codecs \<Rightarrow> ('r, 'x) nym_api \<Rightarrow> 'x mixnet_task \<Rightarrow> ('p, 'r, 'z) mix_net_scheme \<Rightarrow>
     ('p, 'r, 'z) mix_net_scheme" where
  "net_done E api t w =
     w\<lparr>outbound := (outbound w)\<lparr>buffer := []\<rparr>,
       inbound := (inbound w)\<lparr>buffer := buffer (inbound w) @ accepted_all E api (ws_incoming (mt_ws t))\<rparr>\<rparr>"

text \<open>
  A task that runs: no write is suspended, the sink takes and flushes, the stream and both channels
  are open.
\<close>

definition running :: "'x mixnet_task \<Rightarrow> ('p, 'r, 'z) mix_net_scheme \<Rightarrow> bool" where
  "running t w \<longleftrightarrow> steady t \<and> ws_flushed (mt_ws t) \<and> \<not> ws_ended (mt_ws t) \<and> listening t w \<and> tx_open (outbound w)"

lemma check_item:
  assumes "listening t w" and "ws_incoming (mt_ws t) = i # is"
  shows "\<exists>r. poll_t1 E api t w = (Ready r,
    t\<lparr>mt_ws := (mt_ws t)\<lparr>ws_incoming := is\<rparr>,
      mt_notify := map_option (\<lambda>ch. ch\<lparr>buffer := buffer ch @ [()]\<rparr>) (mt_notify t)\<rparr>,
    w\<lparr>inbound := (inbound w)\<lparr>buffer := buffer (inbound w) @ accepted E api i\<rparr>\<rparr>)"
proof (cases i)
  case (Inl e)
  then show ?thesis
    using assms
    by (cases "mt_notify t") (simp_all add: poll_t1_def check_inbound_def ws_next_def listening_def)
next
  case (Inr m)
  obtain q where "handle_inbound_ws E api m w =
      (q, w\<lparr>inbound := (inbound w)\<lparr>buffer := buffer (inbound w) @ accepted E api (Inr m)\<rparr>\<rparr>)"
    using assms(1) handle_inbound_ws_open [of w E api m] by (auto simp: listening_def)
  then show ?thesis
    using assms Inr
    by (cases "mt_notify t")
      (simp_all add: poll_t1_def check_inbound_def ws_next_def listening_def del: accepted.simps)
qed

lemma check_no_item:
  "ws_incoming (mt_ws t) = [] \<Longrightarrow> \<not> ws_ended (mt_ws t) \<Longrightarrow> poll_t1 E api t w = (Pending, t, w)"
  by (simp add: poll_t1_def check_inbound_def ws_next_def)

lemma write_flushing:
  "steady t \<Longrightarrow> ws_flushed (mt_ws t) \<Longrightarrow> mt_out t \<noteq> Receiving \<Longrightarrow>
   poll_t2 E api t w = (Ready (Ok ()), t, w)"
  by (cases "mt_out t") (auto simp: poll_t2_def check_outbound_def flush_poll_def steady_def)

lemma write_message:
  "steady t \<Longrightarrow> ws_flushed (mt_ws t) \<Longrightarrow> mt_out t = Receiving \<Longrightarrow> buffer (outbound w) = m # ms \<Longrightarrow>
   poll_t2 E api t w = (Ready (Ok ()),
     t\<lparr>mt_ws := (mt_ws t)\<lparr>ws_sent := ws_sent (mt_ws t) @ [packet E api m]\<rparr>, mt_out := Flushing\<rparr>,
     w\<lparr>outbound := (outbound w)\<lparr>buffer := ms\<rparr>\<rparr>)"
  by (simp add: poll_t2_def check_outbound_def write_bytes_def send_poll_def flush_poll_def chan_poll_recv_def
      steady_def packet_def)

lemma write_nothing:
  "tx_open (outbound w) \<Longrightarrow> mt_out t = Receiving \<Longrightarrow> buffer (outbound w) = [] \<Longrightarrow>
   poll_t2 E api t w = (Pending, t, w)"
  by (simp add: poll_t2_def check_outbound_def chan_poll_recv_def)

text \<open>Each of the three things a round can do keeps the task running and leads to the same end.\<close>

definition same_end ::
    "('p, 'r, 'x) codecs \<Rightarrow> ('r, 'x) nym_api \<Rightarrow> 'x mixnet_task \<Rightarrow> ('p, 'r, 'z) mix_net_scheme \<Rightarrow>
     'x mixnet_task \<Rightarrow> ('p, 'r, 'z) mix_net_scheme \<Rightarrow> bool" where
  "same_end E api t w t' w' \<longleftrightarrow>
     running t' w' \<and> task_done E api t' w' = task_done E api t w \<and> net_done E api t' w' = net_done E api t w"

lemmas same_end_defs = same_end_def running_def task_done_def net_done_def steady_def listening_def reset_out_def

lemma moved_item:
  assumes "running t w" and "ws_incoming (mt_ws t) = i # is"
    and "poll_t1 E api t w = (r, t', w')"
  shows "r \<noteq> Pending \<and> same_end E api t w (t'\<lparr>mt_out := Receiving\<rparr>) w'"
proof -
  obtain x where p: "poll_t1 E api t w = (Ready x,
      t\<lparr>mt_ws := (mt_ws t)\<lparr>ws_incoming := is\<rparr>,
        mt_notify := map_option (\<lambda>ch. ch\<lparr>buffer := buffer ch @ [()]\<rparr>) (mt_notify t)\<rparr>,
      w\<lparr>inbound := (inbound w)\<lparr>buffer := buffer (inbound w) @ accepted E api i\<rparr>\<rparr>)"
    using check_item [OF _ assms(2), of w E api] assms(1) by (auto simp: running_def)
  show ?thesis
    using assms p by (cases "mt_notify t") (auto simp: same_end_defs simp del: accepted.simps)
qed

lemma moved_flush: "running t w \<Longrightarrow> same_end E api t w (t\<lparr>mt_out := Receiving\<rparr>) w"
  by (simp add: same_end_defs)

lemma moved_message:
  assumes "running t w" and "buffer (outbound w) = m # ms"
  shows "same_end E api t w
    (t\<lparr>mt_ws := (mt_ws t)\<lparr>ws_sent := ws_sent (mt_ws t) @ [packet E api m]\<rparr>, mt_out := Receiving\<rparr>)
    (w\<lparr>outbound := (outbound w)\<lparr>buffer := ms\<rparr>\<rparr>)"
  using assms by (auto simp: same_end_defs)

lemma nothing_to_do:
  assumes "ws_incoming (mt_ws t) = []" and "mt_out t = Receiving" and "buffer (outbound w) = []"
  shows "task_done E api t w = t \<and> net_done E api t w = w"
  using assms by (cases "mt_notify t"; cases t) (simp_all add: task_done_def net_done_def)

text \<open>The outbound future: it completes and moves what it has, or it has nothing and is pending.\<close>

lemma write_round:
  assumes "running t w" and "poll_t2 E api t w = (r, t', w')"
  shows "r \<noteq> Pending \<and> same_end E api t w (t'\<lparr>mt_out := Receiving\<rparr>) w' \<or>
    r = Pending \<and> t' = t \<and> w' = w \<and> mt_out t = Receiving \<and> buffer (outbound w) = []"
proof -
  have s: "steady t" "ws_flushed (mt_ws t)" "tx_open (outbound w)" using assms(1) by (auto simp: running_def)
  consider "mt_out t \<noteq> Receiving" | "mt_out t = Receiving" "buffer (outbound w) = []"
    | m ms where "mt_out t = Receiving" "buffer (outbound w) = m # ms"
    by (cases "buffer (outbound w)") auto
  then show ?thesis
  proof cases
    case 1
    then show ?thesis
      using write_flushing [OF s(1,2) 1, of E api w] assms(2) moved_flush [OF assms(1), of E api] by auto
  next
    case 2
    then show ?thesis using write_nothing [OF s(3) 2, of E api] assms(2) by auto
  next
    case 3
    then show ?thesis
      using write_message [OF s(1,2) 3, of E api] assms(2) moved_message [OF assms(1) 3(2), of E api] by auto
  qed
qed

text \<open>A round moves one thing, or there is nothing to do and it is pending.\<close>

lemma round_cases:
  assumes "running t w" and "mixnet_select E api b t w = (r, t', w')"
  shows "r \<noteq> Pending \<and> same_end E api t w t' w' \<or>
    r = Pending \<and> t' = task_done E api t w \<and> w' = net_done E api t w"
proof -
  have open_stream: "\<not> ws_ended (mt_ws t)" using assms(1) by (simp add: running_def)
  obtain r1 t1 w1 where p1: "poll_t1 E api t w = (r1, t1, w1)" using prod_cases3 by blast
  obtain r2 t2 w2 where p2: "poll_t2 E api t w = (r2, t2, w2)" using prod_cases3 by blast
  have in_round: "r1 \<noteq> Pending \<and> same_end E api t w (t1\<lparr>mt_out := Receiving\<rparr>) w1 \<or>
      r1 = Pending \<and> t1 = t \<and> w1 = w \<and> ws_incoming (mt_ws t) = []"
  proof (cases "ws_incoming (mt_ws t)")
    case Nil
    then show ?thesis using check_no_item [OF Nil open_stream, of E api w] p1 by simp
  qed (use moved_item [OF assms(1) _ p1] in blast)
  show ?thesis
    using assms(2) p1 p2 in_round write_round [OF assms(1) p2] nothing_to_do [of t w E api]
    by (cases b; cases r1; cases r2) (auto simp: mixnet_select_def)
qed

text \<open>
  The whole poll, in one equation: when the sink does not block, it writes all messages that wait in
  the outbound channel to the websocket, in order, puts the messages of all items that wait at the
  websocket into the inbound channel, in order, and then waits, whatever the \<open>select!\<close>s choose.
\<close>

lemma running_work: "running t w \<Longrightarrow> tx_open (outbound w) \<and> \<not> ws_ended (mt_ws t)"
  by (simp add: running_def)

lemma mixnet_loop_running:
  "running t w \<Longrightarrow> mixnet_loop E api order k t w = Some (task_done E api t w, net_done E api t w)"
proof (induction "task_work t w" arbitrary: k t w rule: less_induct)
  case less
  obtain r t1 w1 where s: "mixnet_select E api (order k) t w = (r, t1, w1)" using prod_cases3 by blast
  show ?case
  proof (cases r)
    case Pending
    then show ?thesis using round_cases [OF less(2) s] s by (subst mixnet_loop.simps) simp
  next
    case (Ready x)
    then have e: "same_end E api t w t1 w1" using round_cases [OF less(2) s] by simp
    have "task_work t1 w1 < task_work t w"
      using select_work [OF s [unfolded Ready]] running_work [OF less(2)] by blast
    then show ?thesis
      using less(1) [of t1 w1 "Suc k"] e s Ready by (subst mixnet_loop.simps) (simp add: same_end_def)
  qed
qed

section \<open>The node's actions\<close>

lemma accepted_valid: "d \<in> set (accepted E api i) \<Longrightarrow> Message_valid (the_message d)"
proof -
  have "parse_message_data E bs = Ok d \<Longrightarrow> Message_valid (the_message d)" for bs
    using Message_dec_valid [of E bs] by (cases "Message_try_from_bytes E bs") (auto simp: parse_message_data_eq)
  then show "d \<in> set (accepted E api i) \<Longrightarrow> Message_valid (the_message d)"
    by (cases i) (auto split: outcome.splits ServerResponse.splits)
qed

lemma accepted_all_valid: "list_all Message_valid (map the_message (accepted_all E api is))"
  using accepted_valid [of _ E api] by (fastforce simp: accepted_all_def list_all_iff)

lemma the_message_inverse [simp]: "InboundMessage (the_message d) = d"
  by (cases d) simp

lemma take_all_messages:
  "buffer (outbound (n_w n)) = os \<Longrightarrow>
   fold (node_do A) (replicate (length os) MixTake) n =
     n\<lparr>n_w := (n_w n)\<lparr>outbound := (outbound (n_w n))\<lparr>buffer := []\<rparr>\<rparr>, n_sent := n_sent n @ os\<rparr>"
proof (induction os arbitrary: n)
  case (Cons m os)
  then show ?case using Cons.IH [of "node_do A MixTake n"] by (simp add: chan_poll_recv_def)
qed simp

lemma arrive_all_messages:
  "rx_open (inbound (n_w n)) \<Longrightarrow>
   fold (node_do A) (map Arrive ms) n =
     n\<lparr>n_w := (n_w n)\<lparr>inbound := (inbound (n_w n))\<lparr>buffer := buffer (inbound (n_w n)) @ map InboundMessage ms\<rparr>\<rparr>\<rparr>"
  by (induction ms arbitrary: n) (simp_all add: chan_send_def)

lemma allowed_take_all: "allowed_run A (replicate k MixTake @ acts) n = allowed_run A acts (fold (node_do A) (replicate k MixTake) n)"
  by (induction k arbitrary: n) (simp_all del: node_do.simps)

lemma allowed_arrive_all:
  "list_all Message_valid ms \<Longrightarrow> in_protocol_all ms \<Longrightarrow> allowed_run A (map Arrive ms) n"
proof (induction ms arbitrary: n)
  case (Cons m ms)
  then show ?case using in_protocol_all_append [of "[m]" ms] by (simp del: node_do.simps)
qed simp

section \<open>The Nym network between two tasks\<close>

text \<open>
  What the clients and the network do with a packet: its recipient and the item that comes to the
  recipient's websocket.  The network is relied on to hand the recipient of a \<open>Send\<close> request a
  \<open>Received\<close> response with the same bytes.
\<close>

definition nym_ok :: "('r, 'x) nym_api \<Rightarrow> (ws_message \<Rightarrow> ('r \<times> ws_message) option) \<Rightarrow> bool" where
  "nym_ok api nym \<longleftrightarrow>
     (\<forall>r bs c. \<exists>m. nym (Binary (serialize api (Send_request r bs c))) = Some (r, m) \<and>
        parse_nym_message api m = Ok (Received_response bs))"

definition routed :: "(ws_message \<Rightarrow> ('r \<times> ws_message) option) \<Rightarrow> 'r \<Rightarrow> ws_message list \<Rightarrow> ('x + ws_message) list" where
  "routed nym me ps = [Inr m. p \<leftarrow> ps, (r, m) \<leftarrow> (case nym p of None \<Rightarrow> [] | Some x \<Rightarrow> [x]), r = me]"

text \<open>What one task has written since it was \<open>from\<close> comes to the websocket of another, the one of \<open>me\<close>.\<close>

definition carried ::
    "(ws_message \<Rightarrow> ('r \<times> ws_message) option) \<Rightarrow> 'r \<Rightarrow> 'x mixnet_task \<Rightarrow> 'x mixnet_task \<Rightarrow> 'x mixnet_task \<Rightarrow>
     'x mixnet_task" where
  "carried nym me from from' to =
     to\<lparr>mt_ws := (mt_ws to)\<lparr>ws_incoming := ws_incoming (mt_ws to) @
       routed nym me (drop (length (ws_sent (mt_ws from))) (ws_sent (mt_ws from')))\<rparr>\<rparr>"

lemma running_carried: "running to w \<Longrightarrow> running (carried nym me from from' to) w"
  by (simp add: running_def carried_def steady_def listening_def)

lemma accepted_routed:
  fixes api :: "('r, 'x) nym_api"
  assumes "codecs_ok E" and "nym_ok api nym" and "\<forall>o'\<in>set os. ids_ok (om_message o')"
  shows "accepted_all E api (routed nym me (map (packet E api) os)) =
    map (InboundMessage \<circ> om_message)
      (filter (\<lambda>o'. om_recipient o' = me \<and> \<not> empty_data (om_message o')) os)"
  using assms(3)
proof (induction os)
  case Nil
  then show ?case by (simp add: routed_def)
next
  case (Cons o' os)
  obtain m where m: "nym (packet E api o') = Some (om_recipient o', m)"
      "parse_nym_message api m = Ok (Received_response (Message_to_bytes E (om_message o')))"
    using assms(2) unfolding nym_ok_def packet_def by blast
  have "(routed nym me (map (packet E api) (o' # os)) :: ('x + ws_message) list) =
      (if om_recipient o' = me then [Inr m] else []) @ routed nym me (map (packet E api) os)"
    by (simp add: routed_def m(1))
  then show ?case
    using Cons m(2) parse_typed [OF assms(1), of "om_message o'"] by (simp del: Message_to_bytes.simps)
qed

text \<open>A node that has dialled, so that its request waits in the outbound channel.\<close>

definition demo_nym :: "ws_message \<Rightarrow> (u8 \<times> ws_message) option" where
  "demo_nym p = (case p of Binary (k # r # bs) \<Rightarrow> Some (r, Binary (k # bs)) | _ \<Rightarrow> None)"

lemma demo_nym_ok: "nym_ok demo_api demo_nym"
  by (simp add: nym_ok_def demo_nym_def demo_api_def parse_nym_message_def)

definition demo_a0 :: "(u8, u8, u8, string, unit) node" where
  "demo_a0 = demo_do [Dial (\<lambda>n. replicate n 7) ''/nym/xxx'', DialPoll (demo_clock 0) 0] (demo_fresh 1 4)"

lemmas demo_a0_eval = demo_a0_def demo_req_def demo_states node_dial_def dial_def demo_to_nym
  new_dial_shot_def drop_pending_def peer_id_def node_dial_poll_def dial_poll_def dial_wait_def
  wake_taken_def PendingConnection_new_def

lemma demo_a0_waits:
  "outbound (n_w demo_a0) =
     \<lparr>buffer = [\<lparr>om_message = ConnectionRequest demo_req, om_recipient = 3\<rparr>], rx_open = True, tx_open = True\<rparr>"
  "inbound (n_w demo_a0) = unbounded_channel" "n_sent demo_a0 = []"
  by (simp_all add: demo_a0_eval)

lemma demo_a0_reachable: "reachable demo_addressing demo_a0"
  unfolding demo_a0_def
  by (rule reachable_run [OF reachable.start [OF demo_start]]) (simp add: demo_a0_eval)

lemma demo_running: "running demo_task (n_w demo_a0)" "running demo_task (n_w (demo_fresh k r))"
  by (simp_all add: running_def steady_def listening_def demo_task_def demo_ws_def demo_a0_waits demo_states)

section \<open>Properties\<close>

text \<open>
  (C9) The task implements the two actions the node's model has for it: one poll of the spawned loop
  is as many \<open>MixTake\<close> actions as messages wait, which logs exactly the messages whose packets the
  websocket was given, and one \<open>Arrive\<close> action for every accepted item; all messages that arrive are
  well formed.  So a node whose task is polled stays within the reachable states, as long as what
  arrives is numbered by a sender that has not used up its nonces.
\<close>

theorem task_poll_is_node_actions:
  assumes "running t (n_w n)"
  shows "\<exists>t' ms n'. n' = fold (node_do A) (replicate (length (buffer (outbound (n_w n)))) MixTake @ map Arrive ms) n \<and>
    mixnet_loop E api order k t (n_w n) = Some (t', n_w n') \<and>
    map InboundMessage ms = accepted_all E api (ws_incoming (mt_ws t)) \<and> list_all Message_valid ms \<and>
    n_sent n' = n_sent n @ buffer (outbound (n_w n)) \<and>
    ws_sent (mt_ws t') = ws_sent (mt_ws t) @ map (packet E api) (buffer (outbound (n_w n))) \<and>
    (reachable A n \<longrightarrow> in_protocol_all ms \<longrightarrow> reachable A n')"
proof -
  let ?os = "buffer (outbound (n_w n))" and ?ms = "map the_message (accepted_all E api (ws_incoming (mt_ws t)))"
  let ?acts = "replicate (length ?os) MixTake @ map Arrive ?ms"
  have op: "rx_open (inbound (n_w n))" using assms by (simp add: running_def listening_def)
  have ms: "map InboundMessage ?ms = accepted_all E api (ws_incoming (mt_ws t))" by (simp add: comp_def)
  have n': "fold (node_do A) ?acts n =
      n\<lparr>n_w := net_done E api t (n_w n), n_sent := n_sent n @ ?os\<rparr>"
    using op by (simp add: take_all_messages [OF refl] arrive_all_messages ms net_done_def del: map_map fold_replicate)
  have "reachable A (fold (node_do A) ?acts n)" if "reachable A n" "in_protocol_all ?ms"
    using reachable_run [OF that(1)] allowed_take_all allowed_arrive_all [OF accepted_all_valid that(2)] by blast
  then show ?thesis
    using mixnet_loop_running [OF assms, of E api order k] n' ms accepted_all_valid
    by (intro exI [of _ "task_done E api t (n_w n)"] exI [of _ ?ms] exI [of _ "fold (node_do A) ?acts n"])
      (simp add: task_done_def)
qed

theorem task_poll_is_node_actions_witness:
  "\<exists>t' n'. mixnet_loop demo_codecs demo_api (\<lambda>_. True) 0 demo_task (n_w demo_a0) = Some (t', n_w n') \<and>
    n_sent n' = [\<lparr>om_message = ConnectionRequest demo_req, om_recipient = 3\<rparr>] \<and> reachable demo_addressing n'"
proof -
  have "accepted_all demo_codecs demo_api (ws_incoming (mt_ws demo_task)) = []" "in_protocol_all []"
    by (simp_all add: demo_task_def demo_ws_def in_protocol_all_def in_protocol_def)
  with task_poll_is_node_actions [OF demo_running(1), of demo_addressing demo_codecs demo_api "\<lambda>_. True" 0]
  show ?thesis using demo_a0_reachable by (auto simp: demo_a0_waits simp del: fold_simps)
qed



end
