(* ===== verification/Dialogue.thy ===== *)
theory Dialogue
  imports Relay
begin

text \<open>
  Data from one application to the other, through everything that lies between: the substream, the
  outbound channel, the mixnet task, the Nym network, the other mixnet task, the inbound channel, the
  transport's poll, the message queue, the connection's poll and the other substream.
\<close>

section \<open>The two ends of a substream\<close>

record ('k, 'p, 'r, 'm, 'x) endpoint =
  ep_task :: "'x mixnet_task"
  ep_t :: "('k, 'r, 'm, 'x) NymTransport"
  ep_c :: "('p, 'r) Connection"
  ep_s :: "'r Substream"
  ep_w :: "('p, 'r) node_net"

text \<open>
  The parts of one side, polled once: the task writes what waits to the websocket; the task, the
  transport and the connection take what has come; \<open>incoming\<close> is what the network has carried from
  the other side's task, which was \<open>from\<close> and is \<open>from'\<close>.
\<close>

definition flushed_out ::
    "('p, 'r, 'x) codecs \<Rightarrow> ('r, 'x) nym_api \<Rightarrow> (nat \<Rightarrow> bool) \<Rightarrow> ('k, 'p, 'r, 'm, 'x) endpoint \<Rightarrow>
     ('k, 'p, 'r, 'm, 'x) endpoint option" where
  "flushed_out E api order p =
     map_option (\<lambda>(t1, w1). p\<lparr>ep_task := t1, ep_w := w1\<rparr>) (mixnet_loop E api order 0 (ep_task p) (ep_w p))"

definition taken_in ::
    "('k, 'p, 'r, 'm, 'x) addressing \<Rightarrow> ('p, 'r, 'x) codecs \<Rightarrow> ('r, 'x) nym_api \<Rightarrow> (nat \<Rightarrow> bool) \<Rightarrow>
     ('k, 'p, 'r, 'm, 'x) endpoint \<Rightarrow> ('k, 'p, 'r, 'm, 'x) endpoint option" where
  "taken_in A E api order q =
     (case mixnet_loop E api order 0 (ep_task q) (ep_w q) of
        None \<Rightarrow> None
      | Some (t1, w1) \<Rightarrow>
          (case transport_poll A 0 (ep_t q) w1 of
             (Pending, tr1, w2) \<Rightarrow>
               (case (conn_poll 0 (ep_c q) w2 :: (unit, 'x error) outcome poll \<times> _) of
                  (Pending, c1, w3) \<Rightarrow> Some (q\<lparr>ep_task := t1, ep_t := tr1, ep_c := c1, ep_w := w3\<rparr>)
                | _ \<Rightarrow> None)
           | _ \<Rightarrow> None))"

definition incoming ::
    "(ws_message \<Rightarrow> ('r \<times> ws_message) option) \<Rightarrow> ('k, 'p, 'r, 'm, 'x) endpoint \<Rightarrow>
     ('k, 'p, 'r, 'm, 'x) endpoint \<Rightarrow> ('k, 'p, 'r, 'm, 'x) endpoint \<Rightarrow> ('k, 'p, 'r, 'm, 'x) endpoint" where
  "incoming nym from from' q =
     q\<lparr>ep_task := carried nym (self_address (ep_t q)) (ep_task from) (ep_task from') (ep_task q)\<rparr>"

text \<open>
  One side opens a substream: \<open>poll_outbound\<close>, the request travels, the other side's poll accepts it,
  \<open>poll_inbound\<close> hands the substream out, and the response travels back.
\<close>

definition opened ::
    "('k, 'p, 'r, 'm, 'x) addressing \<Rightarrow> ('p, 'r, 'x) codecs \<Rightarrow> ('r, 'x) nym_api \<Rightarrow>
     (ws_message \<Rightarrow> ('r \<times> ws_message) option) \<Rightarrow> (nat \<Rightarrow> bool) \<Rightarrow> (nat \<Rightarrow> u8 list) \<Rightarrow>
     ('k, 'p, 'r, 'm, 'x) endpoint \<Rightarrow> ('k, 'p, 'r, 'm, 'x) endpoint \<Rightarrow>
     (('k, 'p, 'r, 'm, 'x) endpoint \<times> ('k, 'p, 'r, 'm, 'x) endpoint) option" where
  "opened A E api nym order fill p q =
     (case (conn_poll_outbound fill (ep_c p) (ep_w p) :: ('r Substream, 'x error) outcome poll \<times> _) of
        (Ready (Ok s), c1, w1) \<Rightarrow>
          (case flushed_out E api order (p\<lparr>ep_c := c1, ep_s := s, ep_w := w1\<rparr>) of
             None \<Rightarrow> None
           | Some p1 \<Rightarrow>
               (case taken_in A E api order (incoming nym p p1 q) of
                  None \<Rightarrow> None
                | Some q1 \<Rightarrow>
                    (case (conn_poll_inbound (ep_c q1) :: ('r Substream, 'x error) outcome poll \<times> _) of
                       (Ready (Ok s'), c2) \<Rightarrow>
                         (case flushed_out E api order (q1\<lparr>ep_c := c2, ep_s := s'\<rparr>) of
                            None \<Rightarrow> None
                          | Some q2 \<Rightarrow>
                              map_option (\<lambda>p2. (p2, q2)) (taken_in A E api order (incoming nym q1 q2 p1)))
                     | _ \<Rightarrow> None)))
      | _ \<Rightarrow> None)"

text \<open>
  One side says something: a write and a poll of its task; the other side takes it in and reads into
  a buffer of that length.  The value is what was read, or \<open>None\<close> when one of the calls does not go
  as expected.
\<close>

definition said ::
    "('p, 'r, 'x) codecs \<Rightarrow> ('r, 'x) nym_api \<Rightarrow> (nat \<Rightarrow> bool) \<Rightarrow> u8 list \<Rightarrow> ('k, 'p, 'r, 'm, 'x) endpoint \<Rightarrow>
     ('k, 'p, 'r, 'm, 'x) endpoint option" where
  "said E api order data p =
     (case poll_write data (ep_s p) (ep_w p) of
        (Ready (Ok n), s1, w1) \<Rightarrow>
          (if n = length data then flushed_out E api order (p\<lparr>ep_s := s1, ep_w := w1\<rparr>) else None)
      | _ \<Rightarrow> None)"

definition heard ::
    "('k, 'p, 'r, 'm, 'x) addressing \<Rightarrow> ('p, 'r, 'x) codecs \<Rightarrow> ('r, 'x) nym_api \<Rightarrow> (nat \<Rightarrow> bool) \<Rightarrow> nat \<Rightarrow>
     ('k, 'p, 'r, 'm, 'x) endpoint \<Rightarrow> (u8 list \<times> ('k, 'p, 'r, 'm, 'x) endpoint) option" where
  "heard A E api order len q =
     (case taken_in A E api order q of
        None \<Rightarrow> None
      | Some q1 \<Rightarrow>
          (case poll_read (replicate len 0) (ep_s q1) (ep_w q1) of
             (Ready (Ok n), buf, s1, w1) \<Rightarrow> Some (take n buf, q1\<lparr>ep_s := s1, ep_w := w1\<rparr>)
           | _ \<Rightarrow> None))"

definition tell ::
    "('k, 'p, 'r, 'm, 'x) addressing \<Rightarrow> ('p, 'r, 'x) codecs \<Rightarrow> ('r, 'x) nym_api \<Rightarrow>
     (ws_message \<Rightarrow> ('r \<times> ws_message) option) \<Rightarrow> (nat \<Rightarrow> bool) \<Rightarrow> u8 list \<Rightarrow>
     ('k, 'p, 'r, 'm, 'x) endpoint \<Rightarrow> ('k, 'p, 'r, 'm, 'x) endpoint \<Rightarrow>
     (u8 list \<times> ('k, 'p, 'r, 'm, 'x) endpoint \<times> ('k, 'p, 'r, 'm, 'x) endpoint) option" where
  "tell A E api nym order data p q =
     (case said E api order data p of
        None \<Rightarrow> None
      | Some p1 \<Rightarrow>
          map_option (\<lambda>(read, q1). (read, p1, q1)) (heard A E api order (length data) (incoming nym p p1 q)))"

text \<open>A conversation: \<open>True\<close> when the left side speaks.  The value is what each message was read as.\<close>

fun conversation ::
    "('k, 'p, 'r, 'm, 'x) addressing \<Rightarrow> ('p, 'r, 'x) codecs \<Rightarrow> ('r, 'x) nym_api \<Rightarrow>
     (ws_message \<Rightarrow> ('r \<times> ws_message) option) \<Rightarrow> (nat \<Rightarrow> bool) \<Rightarrow> (bool \<times> u8 list) list \<Rightarrow>
     ('k, 'p, 'r, 'm, 'x) endpoint \<Rightarrow> ('k, 'p, 'r, 'm, 'x) endpoint \<Rightarrow> u8 list list option" where
  "conversation A E api nym order [] p q = Some []"
| "conversation A E api nym order ((True, data) # script) p q =
     (case tell A E api nym order data p q of
        None \<Rightarrow> None
      | Some (read, p1, q1) \<Rightarrow> map_option ((#) read) (conversation A E api nym order script p1 q1))"
| "conversation A E api nym order ((False, data) # script) p q =
     (case tell A E api nym order data q p of
        None \<Rightarrow> None
      | Some (read, q1, p1) \<Rightarrow> map_option ((#) read) (conversation A E api nym order script p1 q1))"

section \<open>A connection and a substream in use\<close>

text \<open>
  One end at rest: its task runs and nothing waits anywhere except \<open>os\<close> in the outbound channel; the
  connection is entered and its queue has no gap.  \<open>n\<close> is the nonce it uses next, \<open>m\<close> the one it
  expects next.
\<close>

definition empty_open :: "'a chan option \<Rightarrow> bool" where
  "empty_open c \<longleftrightarrow> (\<exists>b. c = Some \<lparr>buffer = [], rx_open = True, tx_open = b\<rparr>)"

definition at_rest ::
    "u64 \<Rightarrow> u64 \<Rightarrow> ('p, 'r) OutboundMessage list \<Rightarrow> ('k, 'p, 'r, 'm, 'x) endpoint \<Rightarrow> bool" where
  "at_rest n m os p \<longleftrightarrow>
     running (ep_task p) (ep_w p) \<and> ws_incoming (mt_ws (ep_task p)) = [] \<and>
     outbound (ep_w p) = unbounded_channel\<lparr>buffer := os\<rparr> \<and> inbound (ep_w p) = unbounded_channel \<and>
     buffer (poll_chan (ep_t p)) = [] \<and>
     connections (ep_t p) (c_id (ep_c p)) = Some (c_inbound_rx (ep_c p)) \<and>
     empty_open (conn_chans (ep_w p) (c_inbound_rx (ep_c p))) \<and>
     message_queues (ep_t p) (c_id (ep_c p)) = Some \<lparr>next_expected_nonce = m, queue = []\<rparr> \<and>
     nonces (ep_w p) (c_message_nonce (ep_c p)) = Some n \<and>
     buffer (inbound_open (ep_c p)) = [] \<and> rx_open (inbound_open (ep_c p))"

text \<open>The substream of an end: registered at the connection, live, nothing to read.\<close>

definition in_use :: "('k, 'p, 'r, 'm, 'x) endpoint \<Rightarrow> bool" where
  "in_use p \<longleftrightarrow>
     substream_inbound_txs (ep_c p) (ss_substream_id (ep_s p)) = Some (inbound_rx (ep_s p)) \<and>
     empty_open (data_chans (ep_w p) (inbound_rx (ep_s p))) \<and>
     unread_data (ep_s p) = [] \<and> live (ep_s p) (ep_w p) \<and>
     ss_message_nonce (ep_s p) = c_message_nonce (ep_c p) \<and> ss_connection_id (ep_s p) = c_id (ep_c p) \<and>
     ss_remote_recipient (ep_s p) = c_remote_recipient (ep_c p)"

definition linked :: "('k, 'p, 'r, 'm, 'x) endpoint \<Rightarrow> ('k, 'p, 'r, 'm, 'x) endpoint \<Rightarrow> bool" where
  "linked p q \<longleftrightarrow>
     (\<exists>n m. at_rest n m [] p \<and> at_rest m n [] q) \<and>
     c_id (ep_c q) = c_id (ep_c p) \<and> cid_ok (c_id (ep_c p)) \<and>
     c_remote_recipient (ep_c p) = self_address (ep_t q) \<and> c_remote_recipient (ep_c q) = self_address (ep_t p)"

definition sharing :: "('k, 'p, 'r, 'm, 'x) endpoint \<Rightarrow> ('k, 'p, 'r, 'm, 'x) endpoint \<Rightarrow> bool" where
  "sharing p q \<longleftrightarrow>
     linked p q \<and> in_use p \<and> in_use q \<and>
     ss_substream_id (ep_s q) = ss_substream_id (ep_s p) \<and> sid_ok (ss_substream_id (ep_s p))"

lemma sharing_sym: "sharing p q \<Longrightarrow> sharing q p"
  by (auto simp: sharing_def linked_def)

lemma live_no_signal: "live s w \<Longrightarrow> snd (try_recv_close w (close_rx s)) = w"
  by (cases "close_shots w (close_rx s)"; cases "the (close_shots w (close_rx s))")
    (auto simp: live_def try_recv_close_def fun_upd_idem)

section \<open>One message out, one message in\<close>

lemma flushed_out_at_rest:
  assumes "at_rest n m os p"
  shows "\<exists>t1. flushed_out E api order p =
      Some (p\<lparr>ep_task := t1, ep_w := (ep_w p)\<lparr>outbound := unbounded_channel\<rparr>\<rparr>) \<and>
    at_rest n m [] (p\<lparr>ep_task := t1, ep_w := (ep_w p)\<lparr>outbound := unbounded_channel\<rparr>\<rparr>) \<and>
    ws_sent (mt_ws t1) = ws_sent (mt_ws (ep_task p)) @ map (packet E api) os"
proof -
  let ?t = "task_done E api (ep_task p) (ep_w p)"
  have "running (ep_task p) (ep_w p)" using assms by (simp add: at_rest_def)
  note loop = mixnet_loop_running [OF this, of E api order 0]
  have "net_done E api (ep_task p) (ep_w p) = (ep_w p)\<lparr>outbound := unbounded_channel\<rparr>"
    using assms by (cases "ep_w p") (simp add: at_rest_def net_done_def unbounded_channel_def)
  moreover have "at_rest n m [] (p\<lparr>ep_task := ?t, ep_w := (ep_w p)\<lparr>outbound := unbounded_channel\<rparr>\<rparr>)"
    using assms
    by (cases "mt_notify (ep_task p)")
      (simp_all add: at_rest_def task_done_def running_def steady_def listening_def unbounded_channel_def)
  moreover have "ws_sent (mt_ws ?t) = ws_sent (mt_ws (ep_task p)) @ map (packet E api) os"
    using assms by (simp add: at_rest_def task_done_def)
  ultimately show ?thesis using loop by (auto simp: flushed_out_def)
qed

lemma transport_poll_one:
  assumes "buffer (poll_chan t) = []" and "inbound w = unbounded_channel\<lparr>buffer := [InboundMessage (TransportMsg m)]\<rparr>"
    and "message_queues t (tm_id m) = Some \<lparr>next_expected_nonce = tm_nonce m, queue = []\<rparr>"
    and "connections t (tm_id m) = Some a" and "conn_chans w a = Some ch" and "rx_open ch"
  shows "transport_poll A cx t w =
    (Pending, (set_queue (tm_id m) \<lparr>next_expected_nonce = tm_nonce m + 1, queue = []\<rparr> t)\<lparr>t_waker := Some cx\<rparr>,
     wake_taken (t_waker t) (append_conn a [tm_message m] (w\<lparr>inbound := unbounded_channel\<rparr>)))"
proof -
  let ?q = "\<lparr>next_expected_nonce = tm_nonce m + 1, queue = []\<rparr>"
  have ch: "chan_poll_recv (poll_chan t) = (if tx_open (poll_chan t) then Pending else Ready None, poll_chan t)"
    using assms(1) by (simp add: chan_poll_recv_def)
  have push: "try_push (queue_for t (tm_id m)) m = (Some m, ?q)" "pop_all ?q = ([], ?q)"
    using assms(3) by (simp_all add: queue_for_def try_push_def pop_all.simps pop_def)
  have "handle_transport_message t m (w\<lparr>inbound := unbounded_channel\<rparr>) =
      (Ok (), set_queue (tm_id m) ?q t, wake_taken (t_waker t) (append_conn a [tm_message m] (w\<lparr>inbound := unbounded_channel\<rparr>)))"
    using transport_message_handed [OF push(1) assms(4), of "w\<lparr>inbound := unbounded_channel\<rparr>" ch] assms(5,6) push(2)
    by simp
  then show ?thesis
    using assms(2) ch
    by (simp add: transport_poll_def transport_poll_loop.simps handle_inbound_def chan_poll_recv_def
        unbounded_channel_def)
qed

text \<open>
  A message that is due goes through task, transport and queue to the connection's handler; the cells
  it finds there are those of the end at rest, with some tasks woken.
\<close>

lemma taken_in_at_rest:
  fixes E :: "('p, 'r, 'x) codecs"
  assumes "at_rest n m [] q" and "accepted_all E api is = [InboundMessage (TransportMsg tm)]"
    and "tm_nonce tm = m" and "tm_id tm = c_id (ep_c q)"
    and "\<And>wk. (conn_handle (ep_c q) (tm_message tm) ((ep_w q)\<lparr>woken := wk\<rparr>) :: (unit, 'x error) outcome \<times> _) =
      (Ok (), c2, f wk)"
  shows "\<exists>t1 wk. taken_in A E api order (q\<lparr>ep_task := (ep_task q)\<lparr>mt_ws := (mt_ws (ep_task q))\<lparr>ws_incoming := is\<rparr>\<rparr>\<rparr>) =
      Some (q\<lparr>ep_task := t1,
              ep_t := (set_queue (c_id (ep_c q)) \<lparr>next_expected_nonce = m + 1, queue = []\<rparr> (ep_t q))\<lparr>t_waker := Some 0\<rparr>,
              ep_c := c2\<lparr>c_waker := Some 0\<rparr>, ep_w := f wk\<rparr>) \<and>
    running t1 (ep_w q) \<and> ws_incoming (mt_ws t1) = []"
proof -
  let ?t = "(ep_task q)\<lparr>mt_ws := (mt_ws (ep_task q))\<lparr>ws_incoming := is\<rparr>\<rparr>" and ?a = "c_inbound_rx (ep_c q)"
  let ?w1 = "(ep_w q)\<lparr>inbound := unbounded_channel\<lparr>buffer := [InboundMessage (TransportMsg tm)]\<rparr>\<rparr>"
  let ?t1 = "task_done E api ?t (ep_w q)"
  obtain b where b: "conn_chans (ep_w q) ?a = Some \<lparr>buffer = [], rx_open = True, tx_open = b\<rparr>"
    using assms(1) by (auto simp: at_rest_def empty_open_def)
  have run: "running ?t (ep_w q)" using assms(1) by (simp add: at_rest_def running_def steady_def listening_def)
  have nd: "net_done E api ?t (ep_w q) = ?w1"
    using assms(1,2) by (cases "ep_w q") (simp add: at_rest_def net_done_def unbounded_channel_def)
  define w2 where "w2 = wake_taken (t_waker (ep_t q))
    (append_conn ?a [tm_message tm] ((ep_w q)\<lparr>inbound := unbounded_channel\<rparr>))"
  have tp: "transport_poll A 0 (ep_t q) ?w1 =
      (Pending, (set_queue (c_id (ep_c q)) \<lparr>next_expected_nonce = m + 1, queue = []\<rparr> (ep_t q))\<lparr>t_waker := Some 0\<rparr>, w2)"
    using assms(1,3,4) b
    by (subst transport_poll_one [where m = tm and a = ?a and ch = "\<lparr>buffer = [], rx_open = True, tx_open = b\<rparr>"])
      (simp_all add: at_rest_def w2_def)
  have inb: "inbox (ep_c q) w2 = [tm_message tm]" using b by (simp add: inbox_def w2_def)
  have "conn_chans w2 ?a = Some \<lparr>buffer = [tm_message tm], rx_open = True, tx_open = b\<rparr>"
    using b by (simp add: w2_def)
  then have "msg_taken (ep_c q) w2 = w2\<lparr>conn_chans := (conn_chans w2)(?a \<mapsto> \<lparr>buffer = [], rx_open = True, tx_open = b\<rparr>)\<rparr>"
    by (simp add: msg_taken_def poll_recv_conn_def cell_poll_recv_def chan_poll_recv_def)
  also have "\<dots> = (ep_w q)\<lparr>woken := woken w2\<rparr>"
    using assms(1) b
    by (cases "ep_w q"; cases "t_waker (ep_t q)")
      (simp_all add: w2_def wake_taken_def append_conn_def at_rest_def fun_upd_idem)
  finally have tk: "msg_taken (ep_c q) w2 = (ep_w q)\<lparr>woken := woken w2\<rparr>" .
  have "inbox c2 (f (woken w2)) = []"
    using inbox_conn_handle [OF assms(5) [of "woken w2"]] b by (simp add: inbox_def)
  then have cp: "(conn_poll 0 (ep_c q) w2 :: (unit, 'x error) outcome poll \<times> _) =
      (Pending, c2\<lparr>c_waker := Some 0\<rparr>, f (woken w2))"
    using assms(5) [of "woken w2"] by (simp add: conn_poll_Cons [OF inb] tk conn_poll_Nil)
  have "running ?t1 (ep_w q) \<and> ws_incoming (mt_ws ?t1) = []"
    using run by (cases "mt_notify (ep_task q)") (simp_all add: task_done_def running_def steady_def listening_def)
  then show ?thesis
    using mixnet_loop_running [OF run, of E api order 0] nd tp cp
    by (intro exI [of _ ?t1] exI [of _ "woken w2"]) (simp add: taken_in_def)
qed

lemma carried_over:
  fixes E :: "('p, 'r, 'x) codecs"
  assumes "codecs_ok E" and "nym_ok api nym" and "at_rest n m [] q"
    and "ws_sent (mt_ws (ep_task p')) = ws_sent (mt_ws (ep_task p)) @ map (packet E api) [conn_out c m sm]"
    and "c_remote_recipient c = self_address (ep_t q)" and "c_id c = c_id (ep_c q)"
    and "cid_ok (c_id c)" and "SubstreamMessage_valid sm"
    and "\<And>wk. (conn_handle (ep_c q) sm ((ep_w q)\<lparr>woken := wk\<rparr>) :: (unit, 'x error) outcome \<times> _) = (Ok (), c2, f wk)"
  shows "\<exists>t1 wk. taken_in A E api order (incoming nym p p' q) =
      Some (q\<lparr>ep_task := t1,
              ep_t := (set_queue (c_id (ep_c q)) \<lparr>next_expected_nonce = m + 1, queue = []\<rparr> (ep_t q))\<lparr>t_waker := Some 0\<rparr>,
              ep_c := c2\<lparr>c_waker := Some 0\<rparr>, ep_w := f wk\<rparr>) \<and>
    running t1 (ep_w q) \<and> ws_incoming (mt_ws t1) = []"
proof -
  let ?o = "conn_out c m sm" and ?me = "self_address (ep_t q)"
  let ?is = "routed nym ?me (map (packet E api) [?o])"
  have valid: "ids_ok (om_message ?o)" "\<not> empty_data (om_message ?o)" "om_recipient ?o = ?me"
    using assms(5,7,8) by (auto simp: conn_out_def SubstreamMessage_valid_def)
  have acc: "accepted_all E api ?is = [InboundMessage (TransportMsg \<lparr>tm_nonce = m, tm_message = sm, tm_id = c_id c\<rparr>)]"
    using accepted_routed [OF assms(1,2), of "[?o]" ?me] valid by (simp add: conn_out_def)
  have "incoming nym p p' q =
      q\<lparr>ep_task := (ep_task q)\<lparr>mt_ws := (mt_ws (ep_task q))\<lparr>ws_incoming := ?is\<rparr>\<rparr>\<rparr>"
    using assms(3,4) by (simp add: incoming_def carried_def at_rest_def)
  then show ?thesis
    using taken_in_at_rest [OF assms(3) acc, of c2 f] assms(6,9) by simp
qed

section \<open>Data over a substream\<close>

lemma poll_write_one:
  assumes "at_rest n m [] p" and "in_use p"
  shows "poll_write data (ep_s p) (ep_w p) =
    (Ready (Ok (length data)), ep_s p,
     (ep_w p)\<lparr>nonces := (nonces (ep_w p))(c_message_nonce (ep_c p) \<mapsto> n + 1),
              outbound := unbounded_channel
                \<lparr>buffer := [conn_out (ep_c p) n (new_with_data (ss_substream_id (ep_s p)) data)]\<rparr>\<rparr>)"
  using assms
  by (simp add: at_rest_def in_use_def poll_write_def check_closed_eq live_no_signal fetch_add_nonce_def
      conn_out_def unbounded_channel_def)

lemma said_in_use:
  assumes "at_rest n m [] p" and "in_use p"
  shows "\<exists>t1 w1. said E api order data p = Some (p\<lparr>ep_task := t1, ep_w := w1\<rparr>) \<and>
    at_rest (n + 1) m [] (p\<lparr>ep_task := t1, ep_w := w1\<rparr>) \<and> in_use (p\<lparr>ep_task := t1, ep_w := w1\<rparr>) \<and>
    ws_sent (mt_ws t1) = ws_sent (mt_ws (ep_task p)) @
      map (packet E api) [conn_out (ep_c p) n (new_with_data (ss_substream_id (ep_s p)) data)]"
proof -
  let ?os = "[conn_out (ep_c p) n (new_with_data (ss_substream_id (ep_s p)) data)]"
  let ?w = "(ep_w p)\<lparr>nonces := (nonces (ep_w p))(c_message_nonce (ep_c p) \<mapsto> n + 1),
    outbound := unbounded_channel\<lparr>buffer := ?os\<rparr>\<rparr>"
  have "at_rest (n + 1) m ?os (p\<lparr>ep_w := ?w\<rparr>)"
    using assms by (simp add: at_rest_def running_def listening_def unbounded_channel_def)
  then obtain t1 where t1: "flushed_out E api order (p\<lparr>ep_w := ?w\<rparr>) =
        Some (p\<lparr>ep_task := t1, ep_w := ?w\<lparr>outbound := unbounded_channel\<rparr>\<rparr>)"
      "at_rest (n + 1) m [] (p\<lparr>ep_task := t1, ep_w := ?w\<lparr>outbound := unbounded_channel\<rparr>\<rparr>)"
      "ws_sent (mt_ws t1) = ws_sent (mt_ws (ep_task p)) @ map (packet E api) ?os"
    using flushed_out_at_rest [of "n + 1" m ?os "p\<lparr>ep_w := ?w\<rparr>" E api order] by auto
  have "in_use (p\<lparr>ep_task := t1, ep_w := ?w\<lparr>outbound := unbounded_channel\<rparr>\<rparr>)"
    using assms(2) by (simp add: in_use_def live_def)
  then show ?thesis
    using t1 poll_write_one [OF assms, of data]
    by (intro exI [of _ t1] exI [of _ "?w\<lparr>outbound := unbounded_channel\<rparr>"]) (simp add: said_def)
qed

lemma poll_read_one:
  assumes "live s w" and "unread_data s = []" and "data \<noteq> []"
    and "data_chans w (inbound_rx s) = Some \<lparr>buffer = [data], rx_open = True, tx_open = b\<rparr>"
  shows "poll_read (replicate (length data) 0) s w =
    (Ready (Ok (length data)), data, s,
     w\<lparr>data_chans := (data_chans w)(inbound_rx s \<mapsto> \<lparr>buffer = [], rx_open = True, tx_open = b\<rparr>)\<rparr>)"
  using assms
  by (simp add: poll_read_def check_closed_eq live_no_signal fill_from_unread_eq fill_from_inbound_eq
      poll_recv_data_def cell_poll_recv_def chan_poll_recv_def Let_def)

lemma tell_sharing:
  fixes E :: "('p, 'r, 'x) codecs"
  assumes "codecs_ok E" and "nym_ok api nym" and "sharing p q" and "data \<noteq> []"
  shows "\<exists>p1 q1. tell A E api nym order data p q = Some (data, p1, q1) \<and> sharing p1 q1"
proof -
  obtain n m where rest: "at_rest n m [] p" "at_rest m n [] q" using assms(3) by (auto simp: sharing_def linked_def)
  have use: "in_use p" "in_use q" using assms(3) by (auto simp: sharing_def)
  let ?sm = "new_with_data (ss_substream_id (ep_s p)) data"
  obtain t1 w1 where p1: "said E api order data p = Some (p\<lparr>ep_task := t1, ep_w := w1\<rparr>)"
      "at_rest (n + 1) m [] (p\<lparr>ep_task := t1, ep_w := w1\<rparr>)" "in_use (p\<lparr>ep_task := t1, ep_w := w1\<rparr>)"
      "ws_sent (mt_ws t1) = ws_sent (mt_ws (ep_task p)) @ map (packet E api) [conn_out (ep_c p) n ?sm]"
    using said_in_use [OF rest(1) use(1)] by blast
  obtain b where b: "data_chans (ep_w q) (inbound_rx (ep_s q)) = Some \<lparr>buffer = [], rx_open = True, tx_open = b\<rparr>"
    using use(2) by (auto simp: in_use_def empty_open_def)
  have "substream_inbound_txs (ep_c q) (ss_substream_id (ep_s p)) = Some (inbound_rx (ep_s q))"
    using assms(3) by (auto simp: sharing_def in_use_def)
  then have handled: "(conn_handle (ep_c q) ?sm ((ep_w q)\<lparr>woken := wk\<rparr>) :: (unit, 'x error) outcome \<times> _) =
      (Ok (), ep_c q, (ep_w q)\<lparr>woken := wk, data_chans := (data_chans (ep_w q))
        (inbound_rx (ep_s q) \<mapsto> \<lparr>buffer = [data], rx_open = True, tx_open = b\<rparr>)\<rparr>)" for wk
    using b by (subst conn_handle_data) (auto simp: new_with_data_def)
  have "SubstreamMessage_valid ?sm"
    using assms(3,4) by (simp add: sharing_def SubstreamMessage_valid_def new_with_data_def)
  with carried_over [OF assms(1,2) rest(2) _ _ _ _ _ handled, of "p\<lparr>ep_task := t1, ep_w := w1\<rparr>" p "ep_c p" A order]
  obtain t2 wk where q1: "taken_in A E api order (incoming nym p (p\<lparr>ep_task := t1, ep_w := w1\<rparr>) q) =
      Some (q\<lparr>ep_task := t2,
        ep_t := (set_queue (c_id (ep_c q)) \<lparr>next_expected_nonce = n + 1, queue = []\<rparr> (ep_t q))\<lparr>t_waker := Some 0\<rparr>,
        ep_c := (ep_c q)\<lparr>c_waker := Some 0\<rparr>, ep_w := (ep_w q)\<lparr>woken := wk, data_chans := (data_chans (ep_w q))
        (inbound_rx (ep_s q) \<mapsto> \<lparr>buffer = [data], rx_open = True, tx_open = b\<rparr>)\<rparr>\<rparr>)"
      "running t2 (ep_w q)" "ws_incoming (mt_ws t2) = []"
    using p1(4) assms(3) by (auto simp: sharing_def linked_def)
  let ?w2 = "(ep_w q)\<lparr>woken := wk, data_chans := (data_chans (ep_w q))
        (inbound_rx (ep_s q) \<mapsto> \<lparr>buffer = [], rx_open = True, tx_open = b\<rparr>)\<rparr>"
  let ?q2 = "q\<lparr>ep_task := t2,
        ep_t := (set_queue (c_id (ep_c q)) \<lparr>next_expected_nonce = n + 1, queue = []\<rparr> (ep_t q))\<lparr>t_waker := Some 0\<rparr>,
        ep_c := (ep_c q)\<lparr>c_waker := Some 0\<rparr>, ep_w := ?w2\<rparr>"
  have "heard A E api order (length data) (incoming nym p (p\<lparr>ep_task := t1, ep_w := w1\<rparr>) q) = Some (data, ?q2)"
    using q1(1) use(2) assms(4)
    by (simp add: heard_def in_use_def live_def poll_read_one [of _ _ data b])
  moreover have "at_rest m (n + 1) [] ?q2"
    using rest(2) q1(2,3) by (simp add: at_rest_def running_def listening_def)
  moreover have "in_use ?q2" using use(2) by (simp add: in_use_def live_def empty_open_def)
  ultimately show ?thesis
    using p1(1-3) assms(3) by (auto simp: tell_def sharing_def linked_def)
qed

section \<open>Opening a substream\<close>

text \<open>What an end keeps of its identity.\<close>

definition kept :: "('k, 'p, 'r, 'm, 'x) endpoint \<Rightarrow> ('k, 'p, 'r, 'm, 'x) endpoint \<Rightarrow> bool" where
  "kept p p' \<longleftrightarrow>
     c_id (ep_c p') = c_id (ep_c p) \<and> c_remote_recipient (ep_c p') = c_remote_recipient (ep_c p) \<and>
     self_address (ep_t p') = self_address (ep_t p)"

lemma linkedI:
  assumes "linked p q" and "at_rest n m [] p'" and "at_rest m n [] q'" and "kept p p'" and "kept q q'"
  shows "linked p' q'"
  using assms unfolding linked_def kept_def by metis

abbreviation control :: "SubstreamId \<Rightarrow> SubstreamMessageType \<Rightarrow> SubstreamMessage" where
  "control sid ty \<equiv> \<lparr>sm_substream_id = sid, sm_message_type = ty\<rparr>"

text \<open>The side that asks, the side that accepts, and the side that gets the answer.\<close>

lemma open_asked:
  assumes "at_rest n m [] p" and "sid = SubstreamId_generate fill" and "substream_inbound_txs (ep_c p) sid = None"
  shows "\<exists>s c1 w1. (conn_poll_outbound fill (ep_c p) (ep_w p) :: ('r Substream, 'x error) outcome poll \<times> _) =
      (Ready (Ok s), c1, w1) \<and>
    at_rest (n + 1) m [conn_out (ep_c p) n (control sid OpenRequest)] (p\<lparr>ep_c := c1, ep_s := s, ep_w := w1\<rparr>) \<and>
    in_use (p\<lparr>ep_c := c1, ep_s := s, ep_w := w1\<rparr>) \<and> kept p (p\<lparr>ep_c := c1, ep_s := s, ep_w := w1\<rparr>) \<and>
    ss_substream_id s = sid"
  using assms
  by (auto simp: conn_poll_outbound_def new_outbound_substream_eq Let_def at_rest_def in_use_def kept_def
      running_def listening_def live_def empty_open_def with_cells_def with_substream_def substream_made_def
      Substream_new_def unbounded_channel_def)

lemma open_accepted:
  fixes E :: "('p, 'r, 'x) codecs"
  assumes "codecs_ok E" and "nym_ok api nym" and "at_rest n m [] q" and "substream_inbound_txs (ep_c q) sid = None"
    and "ws_sent (mt_ws (ep_task p')) = ws_sent (mt_ws (ep_task p)) @
      map (packet E api) [conn_out c m (control sid OpenRequest)]"
    and "c_remote_recipient c = self_address (ep_t q)" and "c_id c = c_id (ep_c q)"
    and "cid_ok (c_id c)" and "sid_ok sid"
  shows "\<exists>q1 s c2. taken_in A E api order (incoming nym p p' q) = Some q1 \<and>
    (conn_poll_inbound (ep_c q1) :: ('r Substream, 'x error) outcome poll \<times> _) = (Ready (Ok s), c2) \<and>
    at_rest (n + 1) (m + 1) [conn_out (ep_c q) n (control sid OpenResponse)] (q1\<lparr>ep_c := c2, ep_s := s\<rparr>) \<and>
    in_use (q1\<lparr>ep_c := c2, ep_s := s\<rparr>) \<and> kept q (q1\<lparr>ep_c := c2, ep_s := s\<rparr>) \<and> ss_substream_id s = sid"
proof -
  let ?sm = "control sid OpenRequest" and ?c = "ep_c q" and ?w = "ep_w q"
  let ?s = "substream_made ?c sid ?w"
  let ?c1 = "(with_substream sid ?w ?c)\<lparr>inbound_open := (inbound_open ?c)\<lparr>buffer := [?s]\<rparr>\<rparr>"
  let ?f = "\<lambda>wk. (with_cells ?c (?w\<lparr>woken := wk\<rparr>))
     \<lparr>nonces := (nonces ?w)(c_message_nonce ?c \<mapsto> n + 1),
      outbound := unbounded_channel\<lparr>buffer := [conn_out ?c n (control sid OpenResponse)]\<rparr>\<rparr>"
  have handled: "(conn_handle ?c ?sm (?w\<lparr>woken := wk\<rparr>) :: (unit, 'x error) outcome \<times> _) = (Ok (), ?c1, ?f wk)" for wk
    using assms(3,4)
    by (simp add: conn_handle_open_request Let_def at_rest_def with_substream_def substream_made_def unbounded_channel_def)
  have "SubstreamMessage_valid ?sm" using assms(9) by (simp add: SubstreamMessage_valid_def)
  from carried_over [OF assms(1,2,3,5-8) this handled, of A order]
  obtain t1 wk where q1: "taken_in A E api order (incoming nym p p' q) =
      Some (q\<lparr>ep_task := t1,
              ep_t := (set_queue (c_id ?c) \<lparr>next_expected_nonce = m + 1, queue = []\<rparr> (ep_t q))\<lparr>t_waker := Some 0\<rparr>,
              ep_c := ?c1\<lparr>c_waker := Some 0\<rparr>, ep_w := ?f wk\<rparr>)"
      "running t1 ?w" "ws_incoming (mt_ws t1) = []"
    by blast
  let ?c2 = "?c1\<lparr>c_waker := Some 0, inbound_open := (inbound_open ?c)\<lparr>buffer := []\<rparr>\<rparr>"
  let ?q1 = "q\<lparr>ep_task := t1,
    ep_t := (set_queue (c_id ?c) \<lparr>next_expected_nonce = m + 1, queue = []\<rparr> (ep_t q))\<lparr>t_waker := Some 0\<rparr>,
    ep_c := ?c1\<lparr>c_waker := Some 0\<rparr>, ep_w := ?f wk\<rparr>"
  let ?q2 = "?q1\<lparr>ep_c := ?c2, ep_s := ?s\<rparr>"
  have rest: "at_rest (n + 1) (m + 1) [conn_out ?c n (control sid OpenResponse)] ?q2"
    using assms(3) q1(2,3)
    by (simp add: at_rest_def running_def listening_def with_cells_def unbounded_channel_def)
  have use: "in_use ?q2 \<and> kept q ?q2 \<and> ss_substream_id ?s = sid"
    by (auto simp: in_use_def kept_def live_def empty_open_def with_cells_def with_substream_def substream_made_def
        Substream_new_def unbounded_channel_def)
  have "(conn_poll_inbound (ep_c ?q1) :: ('r Substream, 'x error) outcome poll \<times> _) = (Ready (Ok ?s), ?c2)"
    by (simp add: conn_poll_inbound_def chan_poll_recv_def)
  then show ?thesis
    using q1(1) rest use by (intro exI [of _ ?q1] exI [of _ ?s] exI [of _ ?c2] conjI) (assumption | blast)+
qed

lemma open_answered:
  fixes E :: "('p, 'r, 'x) codecs"
  assumes "codecs_ok E" and "nym_ok api nym" and "at_rest n m [] p" and "in_use p"
    and "ws_sent (mt_ws (ep_task q')) = ws_sent (mt_ws (ep_task q)) @
      map (packet E api) [conn_out c m (control sid OpenResponse)]"
    and "c_remote_recipient c = self_address (ep_t p)" and "c_id c = c_id (ep_c p)"
    and "cid_ok (c_id c)" and "sid_ok sid"
  shows "\<exists>p1. taken_in A E api order (incoming nym q q' p) = Some p1 \<and> at_rest n (m + 1) [] p1 \<and> in_use p1 \<and>
    kept p p1 \<and> ep_s p1 = ep_s p \<and> sid \<notin> pending_substreams (ep_c p1)"
proof -
  let ?sm = "control sid OpenResponse"
  let ?c1 = "(ep_c p)\<lparr>pending_substreams := pending_substreams (ep_c p) - {sid}\<rparr>"
  have handled: "(conn_handle (ep_c p) ?sm ((ep_w p)\<lparr>woken := wk\<rparr>) :: (unit, 'x error) outcome \<times> _) =
      (Ok (), ?c1, (ep_w p)\<lparr>woken := wk\<rparr>)" for wk
    by (simp add: conn_handle_def)
  have "SubstreamMessage_valid ?sm" using assms(9) by (simp add: SubstreamMessage_valid_def)
  from carried_over [OF assms(1,2,3,5-8) this handled, of A order]
  obtain t1 wk where p1: "taken_in A E api order (incoming nym q q' p) =
      Some (p\<lparr>ep_task := t1,
              ep_t := (set_queue (c_id (ep_c p)) \<lparr>next_expected_nonce = m + 1, queue = []\<rparr> (ep_t p))\<lparr>t_waker := Some 0\<rparr>,
              ep_c := ?c1\<lparr>c_waker := Some 0\<rparr>, ep_w := (ep_w p)\<lparr>woken := wk\<rparr>\<rparr>)"
      "running t1 (ep_w p)" "ws_incoming (mt_ws t1) = []"
    by blast
  then show ?thesis
    using assms(3,4) by (auto simp: at_rest_def in_use_def kept_def running_def listening_def live_def)
qed

lemma opened_sharing:
  fixes E :: "('p, 'r, 'x) codecs"
  assumes "codecs_ok E" and "nym_ok api nym" and "linked p q" and "length (fill 32) = 32"
    and "substream_inbound_txs (ep_c p) (SubstreamId_generate fill) = None"
    and "substream_inbound_txs (ep_c q) (SubstreamId_generate fill) = None"
  shows "\<exists>p2 q2. opened A E api nym order fill p q = Some (p2, q2) \<and> sharing p2 q2 \<and>
    ss_substream_id (ep_s p2) = SubstreamId_generate fill \<and>
    SubstreamId_generate fill \<notin> pending_substreams (ep_c p2)"
proof -
  let ?sid = "SubstreamId_generate fill"
  have ids: "sid_ok ?sid" "cid_ok (c_id (ep_c p))" "c_id (ep_c q) = c_id (ep_c p)"
      "c_remote_recipient (ep_c p) = self_address (ep_t q)" "c_remote_recipient (ep_c q) = self_address (ep_t p)"
    using assms(3,4) by (auto simp: linked_def sid_ok_def SubstreamId_generate_def)
  obtain n m where rest: "at_rest n m [] p" "at_rest m n [] q" using assms(3) by (auto simp: linked_def)
  obtain s c1 w1 where p0: "(conn_poll_outbound fill (ep_c p) (ep_w p) :: ('r Substream, 'x error) outcome poll \<times> _) =
        (Ready (Ok s), c1, w1)"
      "at_rest (n + 1) m [conn_out (ep_c p) n (control ?sid OpenRequest)] (p\<lparr>ep_c := c1, ep_s := s, ep_w := w1\<rparr>)"
      "in_use (p\<lparr>ep_c := c1, ep_s := s, ep_w := w1\<rparr>)" "kept p (p\<lparr>ep_c := c1, ep_s := s, ep_w := w1\<rparr>)"
      "ss_substream_id s = ?sid"
    using open_asked [OF rest(1) refl assms(5)] by blast
  obtain p1 where p1: "flushed_out E api order (p\<lparr>ep_c := c1, ep_s := s, ep_w := w1\<rparr>) = Some p1"
      "at_rest (n + 1) m [] p1" "in_use p1" "kept p p1" "ep_s p1 = s"
      "ws_sent (mt_ws (ep_task p1)) = ws_sent (mt_ws (ep_task p)) @
        map (packet E api) [conn_out (ep_c p) n (control ?sid OpenRequest)]"
    using flushed_out_at_rest [OF p0(2), of E api order] p0(3,4) by (auto simp: in_use_def kept_def live_def)
  obtain q1 s' c2 where q1: "taken_in A E api order (incoming nym p p1 q) = Some q1"
      "(conn_poll_inbound (ep_c q1) :: ('r Substream, 'x error) outcome poll \<times> _) = (Ready (Ok s'), c2)"
      "at_rest (m + 1) (n + 1) [conn_out (ep_c q) m (control ?sid OpenResponse)] (q1\<lparr>ep_c := c2, ep_s := s'\<rparr>)"
      "in_use (q1\<lparr>ep_c := c2, ep_s := s'\<rparr>)" "kept q (q1\<lparr>ep_c := c2, ep_s := s'\<rparr>)" "ss_substream_id s' = ?sid"
    using open_accepted [OF assms(1,2) rest(2) assms(6) p1(6), of A order] ids by auto
  obtain q2 where q2: "flushed_out E api order (q1\<lparr>ep_c := c2, ep_s := s'\<rparr>) = Some q2"
      "at_rest (m + 1) (n + 1) [] q2" "in_use q2" "kept q q2" "ep_s q2 = s'"
      "ws_sent (mt_ws (ep_task q2)) = ws_sent (mt_ws (ep_task q1)) @
        map (packet E api) [conn_out (ep_c q) m (control ?sid OpenResponse)]"
    using flushed_out_at_rest [OF q1(3), of E api order] q1(4,5) by (auto simp: in_use_def kept_def live_def)
  obtain p2 where p2: "taken_in A E api order (incoming nym q1 q2 p1) = Some p2" "at_rest (n + 1) (m + 1) [] p2"
      "in_use p2" "kept p1 p2" "ep_s p2 = s" "?sid \<notin> pending_substreams (ep_c p2)"
    using open_answered [OF assms(1,2) p1(2,3) q2(6), of A order] ids p1(4,5) by (auto simp: kept_def)
  have "kept p p2" using p1(4) p2(4) by (auto simp: kept_def)
  then have "sharing p2 q2"
    using linkedI [OF assms(3) p2(2) q2(2) _ q2(4)] p2(3,5) q2(3,5) p0(5) q1(6) ids(1) by (simp add: sharing_def)
  moreover have "opened A E api nym order fill p q = Some (p2, q2)"
    by (simp add: opened_def p0(1) p1(1) q1(1,2) q2(1) p2(1))
  ultimately show ?thesis using p2(5,6) p0(5) by blast
qed

text \<open>The two ends of a connection: \<open>k\<close> is the key, \<open>me\<close> and \<open>peer\<close> the two addresses.\<close>

definition demo_end :: "u8 \<Rightarrow> u8 \<Rightarrow> u8 \<Rightarrow> u64 \<Rightarrow> u64 \<Rightarrow> (u8, u8, u8, string, unit) endpoint" where
  "demo_end k me peer n m =
     \<lparr>ep_task = demo_task,
      ep_t = (n_t (demo_fresh k me))
        \<lparr>connections := [demo_cid \<mapsto> 0],
         message_queues := [demo_cid \<mapsto> \<lparr>next_expected_nonce = m, queue = []\<rparr>]\<rparr>,
      ep_c = (fst (Connection_new 5 peer demo_cid 0 (net_new :: (u8, u8) net)))\<lparr>c_message_nonce := 1\<rparr>,
      ep_s = Substream_new peer demo_cid demo_sid 0 0 0,
      ep_w = (n_w (demo_fresh k me))
        \<lparr>conn_chans := [0 \<mapsto> unbounded_channel], nonces := [1 \<mapsto> n], fresh := 2\<rparr>\<rparr>"

lemma demo_end_at_rest: "at_rest n m [] (demo_end k me peer n m)"
  by (auto simp: at_rest_def demo_end_def empty_open_def running_def steady_def listening_def
      demo_task_def demo_ws_def demo_states Connection_new_def new_nonce_def)

lemma demo_linked: "linked (demo_end 1 4 3 n m) (demo_end 2 3 4 m n)"
  unfolding linked_def
  by (intro conjI exI) (rule demo_end_at_rest, rule demo_end_at_rest,
    simp_all add: demo_end_def Connection_new_def new_nonce_def demo_states cid_ok_def demo_cid_def)

lemma demo_end_no_substream: "substream_inbound_txs (ep_c (demo_end k me peer n m)) sid = None"
  by (simp add: demo_end_def Connection_new_def new_nonce_def)

section \<open>Properties\<close>

text \<open>
  (C7) Opening a substream, from end to end: when two sides share a connection and nothing is under
  way, the opening side's \<open>poll_outbound\<close>, one poll of every part on the way there, the other side's
  \<open>poll_inbound\<close> and one poll of every part on the way back leave both sides with a live substream of
  the same identifier, over which they can talk; the opening side no longer counts it as pending.
\<close>

theorem substream_opened:
  assumes "codecs_ok E" and "nym_ok api nym" and "linked p q" and "length (fill 32) = 32"
    and "substream_inbound_txs (ep_c p) (SubstreamId_generate fill) = None"
    and "substream_inbound_txs (ep_c q) (SubstreamId_generate fill) = None"
  shows "\<exists>p2 q2. opened A E api nym order fill p q = Some (p2, q2) \<and> sharing p2 q2 \<and>
    ss_substream_id (ep_s p2) = SubstreamId_generate fill \<and>
    SubstreamId_generate fill \<notin> pending_substreams (ep_c p2)"
  using opened_sharing [OF assms] .

theorem substream_opened_witness:
  "\<exists>p2 q2. opened demo_addressing demo_codecs demo_api demo_nym (\<lambda>k. even k) (\<lambda>n. replicate n 9)
      (demo_end 1 4 3 1 1) (demo_end 2 3 4 1 1) = Some (p2, q2) \<and> sharing p2 q2 \<and>
    ss_substream_id (ep_s p2) = demo_sid"
  using substream_opened [OF demo_codecs_ok demo_nym_ok demo_linked [of 1 1], of "\<lambda>n. replicate n 9"
      demo_addressing "\<lambda>k. even k"]
  by (auto simp: demo_end_no_substream demo_ids(2))



end
