(* ===== verification/Executor.thy ===== *)
theory Executor
  imports Delivery
begin

text \<open>
  The executor's side of \<open>Transport::poll\<close>: libp2p's swarm polls the transport again after every
  event, until it is pending.  The run ends, because every event uses up an announcement or an
  inbound message, and when it ends everything that had arrived has been handled.
\<close>

section \<open>Every event uses something up\<close>

lemma initiation_poll_chan:
  "handle_message_queue_on_connection_initiation t cid w = (r, t', w') \<Longrightarrow> poll_chan t' = poll_chan t"
  by (auto simp: handle_message_queue_on_connection_initiation_def Let_def
      split: option.splits outcome.splits prod.splits)

lemma handle_inbound_poll_chan:
  assumes "handle_inbound A t m w = (r, t', w')"
  shows "poll_chan t' = poll_chan t"
proof (cases m)
  case (ConnectionRequest c)
  obtain r1 t1 w1 where h: "handle_connection_request A t c w = (r1, t1, w1)" using prod_cases3 by blast
  then have "poll_chan t1 = poll_chan t"
    by (auto simp: handle_connection_request_def Let_def
        split: option.splits outcome.splits prod.splits if_splits dest!: initiation_poll_chan)
  then show ?thesis
    using assms ConnectionRequest h
    by (auto simp: handle_inbound_def Let_def split: outcome.splits prod.splits)
next
  case (ConnectionResponse c)
  then show ?thesis
    using assms
    by (auto simp: handle_inbound_def handle_connection_response_def Let_def
        split: option.splits outcome.splits prod.splits if_splits dest!: initiation_poll_chan)
next
  case (TransportMsg c)
  then show ?thesis
    using assms
    by (auto simp: handle_inbound_def handle_transport_message_def Let_def
        split: option.splits outcome.splits prod.splits)
qed

lemma poll_loop_uses:
  "transport_poll_loop A cx t w = (r, t', w') \<Longrightarrow>
   poll_chan t' = poll_chan t \<and> length (buffer (inbound w')) \<le> length (buffer (inbound w)) \<and>
   (r \<noteq> Pending \<longrightarrow> length (buffer (inbound w')) < length (buffer (inbound w)))"
proof (induction "length (buffer (inbound w))" arbitrary: t w rule: less_induct)
  case less
  note loop = transport_poll_loop.simps [of A cx t w]
  show ?case
  proof (cases "buffer (inbound w)")
    case Nil
    then show ?thesis using less(2) loop by (auto simp: chan_poll_recv_def split: if_splits)
  next
    case (Cons i ins)
    obtain m where i: "i = InboundMessage m" by (cases i)
    let ?w = "w\<lparr>inbound := (inbound w)\<lparr>buffer := ins\<rparr>\<rparr>"
    obtain r1 t1 w1 where h: "handle_inbound A t m ?w = (r1, t1, w1)" using prod_cases3 by blast
    have one: "poll_chan t1 = poll_chan t" "buffer (inbound w1) = ins"
      using handle_inbound_poll_chan [OF h] handle_inbound_inbound [OF h] by simp_all
    have rest: "poll_chan t' = poll_chan t \<and> length (buffer (inbound w')) \<le> length ins"
      if "transport_poll_loop A cx t1 w1 = (r, t', w')"
      using less(1) [OF _ that] Cons one by auto
    show ?thesis
      using less(2) loop Cons i h one rest
      by (cases r1) (auto simp: chan_poll_recv_def split: InboundTransportEvent.splits)
  qed
qed

definition waiting :: "('k, 'r, 'm, 'x) NymTransport \<Rightarrow> ('p, 'r, 'z) node_net_scheme \<Rightarrow> nat" where
  "waiting t w = length (buffer (poll_chan t)) + length (buffer (inbound w))"

lemma transport_poll_uses:
  assumes "transport_poll A cx t w = (r, t', w')"
  shows "waiting t' w' \<le> waiting t w \<and> (r \<noteq> Pending \<longrightarrow> waiting t' w' < waiting t w)"
proof (cases "buffer (poll_chan t)")
  case Nil
  then have "transport_poll_loop A cx t w = (r, t', w')"
    using assms transport_poll_loop_chan [OF Nil] by metis
  from poll_loop_uses [OF this] show ?thesis by (auto simp: waiting_def)
next
  case (Cons ev evs)
  then show ?thesis using assms by (auto simp: transport_poll_def chan_poll_recv_def waiting_def)
qed

section \<open>The run\<close>

text \<open>Poll until pending; a panic ends the run too.\<close>

function transport_run ::
    "('k, 'p, 'r, 'm, 'x) addressing \<Rightarrow> nat \<Rightarrow> ('k, 'r, 'm, 'x) NymTransport \<Rightarrow>
     ('p, 'r, 'z) node_net_scheme \<Rightarrow>
     (('m, 'x) TransportEvent, unit) outcome list \<times> ('k, 'r, 'm, 'x) NymTransport \<times>
     ('p, 'r, 'z) node_net_scheme" where
  "transport_run A cx t w =
     (case transport_poll A cx t w of
        (Pending, t1, w1) \<Rightarrow> ([], t1, w1)
      | (Ready (Panic p), t1, w1) \<Rightarrow> ([Panic p], t1, w1)
      | (Ready ev, t1, w1) \<Rightarrow>
          (case transport_run A cx t1 w1 of (evs, t2, w2) \<Rightarrow> (ev # evs, t2, w2)))"
  by pat_completeness auto
termination
  by (relation "measure (\<lambda>(A, cx, t, w). waiting t w)") (auto dest!: transport_poll_uses [OF sym])

declare transport_run.simps [simp del]

lemma run_ends:
  fixes t :: "('k, 'r, 'm, 'x) NymTransport" and w :: "('p, 'r, 'z) node_net_scheme"
  shows "node_ok K H t w \<Longrightarrow> buffer (inbound w) = map InboundMessage ins \<Longrightarrow> in_protocol_all (H @ ins) \<Longrightarrow>
   \<exists>evs t' w'. transport_run A cx t w = (evs, t', w') \<and> \<not> list_ex panics evs \<and>
     length evs \<le> waiting t w \<and> buffer (inbound w') = [] \<and> buffer (poll_chan t') = [] \<and>
     node_ok K (H @ ins) t' w'"
proof (induction "waiting t w" arbitrary: H ins t w rule: less_induct)
  case less
  obtain r t1 w1 handled rest where p: "transport_poll A cx t w = (r, t1, w1)" "ins = handled @ rest"
      "buffer (inbound w1) = map InboundMessage rest" "node_ok K (H @ handled) t1 w1"
      "\<nexists>p. r = Ready (Panic p)" "r = Pending \<longrightarrow> rest = []"
    using transport_poll_cases [OF less(2-4), of A cx] by blast
  note run = transport_run.simps [of A cx t w]
  show ?case
  proof (cases r)
    case Pending
    have "buffer (poll_chan t) = []"
    proof (rule ccontr)
      assume "buffer (poll_chan t) \<noteq> []"
      then obtain ev evs where "buffer (poll_chan t) = ev # evs" by (cases "buffer (poll_chan t)") auto
      then show False using p(1) Pending by (simp add: transport_poll_def chan_poll_recv_def)
    qed
    moreover from this have "poll_chan t1 = poll_chan t"
      using p(1) poll_loop_uses [of A cx t w r t1 w1] by (simp add: transport_poll_loop_chan)
    ultimately show ?thesis using run p Pending by simp
  next
    case (Ready ev)
    have "waiting t1 w1 < waiting t w" using transport_poll_uses [OF p(1)] Ready by simp
    moreover from this obtain evs t2 w2 where "transport_run A cx t1 w1 = (evs, t2, w2)"
        "\<not> list_ex panics evs" "length evs \<le> waiting t1 w1" "buffer (inbound w2) = []"
        "buffer (poll_chan t2) = []" "node_ok K (H @ ins) t2 w2"
      using less(1) [OF _ p(4,3)] less(4) p(2) by auto
    ultimately show ?thesis using run p(1,5) Ready by (cases ev) auto
  qed
qed

section \<open>Properties\<close>

text \<open>
  (C13) Polling the transport until it is pending ends: after at most as many events as there are
  announcements and inbound messages waiting.  No event is a panic, and at the end no message waits and the
  delivery invariant holds for everything that had arrived.
\<close>

theorem transport_run_terminates:
  fixes t :: "('k, 'r, 'm, 'x) NymTransport" and w :: "('p, 'r, 'z) node_net_scheme"
  assumes "node_ok K H t w" and "buffer (inbound w) = map InboundMessage ins"
    and "in_protocol_all (H @ ins)"
  shows "\<exists>evs t' w'. transport_run A cx t w = (evs, t', w') \<and> \<not> list_ex panics evs \<and>
     length evs \<le> waiting t w \<and> buffer (inbound w') = [] \<and> buffer (poll_chan t') = [] \<and>
     node_ok K (H @ ins) t' w'"
  using assms by (rule run_ends)

theorem transport_run_terminates_witness:
  "\<exists>evs t' w'. transport_run demo_addressing 0 demo_transport
       (demo_node_net (ConnectionRequest demo_request # demo_arrivals)) = (evs, t', w') \<and>
     \<not> list_ex panics evs \<and> length evs \<le> 4 \<and> buffer (inbound w') = [] \<and>
     node_ok (\<lambda>_. []) (ConnectionRequest demo_request # demo_arrivals) t' w'"
proof -
  have "in_protocol_all ([] @ ConnectionRequest demo_request # demo_arrivals)"
    using demo_arrivals_in_protocol by (simp add: in_protocol_all_def)
  moreover have "waiting demo_transport (demo_node_net (ConnectionRequest demo_request # demo_arrivals)) = 4"
    by (simp add: waiting_def demo_arrivals_def)
  ultimately show ?thesis
    using transport_run_terminates [of "\<lambda>_. []" "[]" demo_transport
        "demo_node_net (ConnectionRequest demo_request # demo_arrivals)"
        "ConnectionRequest demo_request # demo_arrivals" demo_addressing 0]
    by (auto simp: node_ok_start)
qed

end
