(* ===== verification/Spec2Isabelle.thy ===== *)
theory Spec2Isabelle
  imports Dialogue Executor
begin

text \<open>
  A libp2p transport over the Nym mixnet: the crate \<open>rust-libp2p-nym\<close> (\<open>src/src/\<close>).

  \<^bold>\<open>The program.\<close>  A node talks to a Nym client over a websocket.  A task (\<open>mixnet.rs\<close>) moves messages
  between the websocket and two channels.  The transport (\<open>transport.rs\<close>) dials and accepts connections
  by a request and a response, and gives every transport message to its connection; the mixnet may
  reorder and repeat messages, so every connection has a queue (\<open>queue.rs\<close>) that restores their order
  by nonce.  A connection (\<open>connection.rs\<close>) multiplexes substreams; a substream (\<open>substream.rs\<close>) is a
  byte stream for the application.  Messages have a binary format (\<open>message.rs\<close>).

  \<^bold>\<open>The theories\<close>, in the order of their imports:
  \<^item> \<open>Prelude\<close>: results with panics, polls, slices, bytes of a \<open>u64\<close>.
  \<^item> \<open>Identifiers\<close> (\<open>message.rs\<close> 8--63), \<open>Channels\<close> (tokio's unbounded and oneshot channels; the
    locale \<open>fifo\<close>), \<open>Errors\<close> (\<open>error.rs\<close>), \<open>Ordered_Set\<close> (\<open>BTreeSet\<close>; the locale \<open>cmp_order\<close>).
  \<^item> \<open>Messages\<close> (\<open>message.rs\<close>): one encoder and decoder per message type; the locale \<open>codec\<close> and its
    interpretations; round trip, totality on untrusted bytes, injectivity.
  \<^item> \<open>Message_Queue\<close> (\<open>queue.rs\<close>): all operations on 64-bit nonces; the locale \<open>resequencer\<close> is the
    contract the transport relies on, and the queue's operations are shown to keep it; the queue hands on
    what the reference definition \<open>in_order\<close> computes from all the arrivals.
  \<^item> \<open>Network\<close>: the cells that several structs share (channels, nonce counters), by address.
  \<^item> \<open>Substreams\<close> (\<open>substream.rs\<close>), \<open>Connections\<close> (\<open>connection.rs\<close>): every operation as a function of
    the struct and the shared cells; functional behaviour of every branch, invariants, and what makes
    them panic.
  \<^item> \<open>Mixnet\<close> (\<open>mixnet.rs\<close>): a poll of each future, one round of the task's \<open>select!\<close>, its loop, and a step
    relation for the task and its environment with invariants over all interleavings; when a poll of the
    loop returns.
  \<^item> \<open>Transports\<close> (\<open>transport.rs\<close>): the transport, its handlers, the futures of \<open>dial\<close> and \<open>Upgrade\<close>, and
    \<open>poll\<close>; every handler in one equation.
  \<^item> \<open>Delivery\<close>: the invariant of the transport over everything that arrives, kept by \<open>poll\<close>.
  \<^item> \<open>Executor\<close>: polling the transport until it is pending ends and handles everything.
  \<^item> \<open>Handshake\<close>: dialling, requests, responses, timeouts and their failures, every branch.
  \<^item> \<open>Node\<close>: a whole node (the transport, the connections, substreams and futures its user holds, the
    cells) and everything that can be done to it as actions, drops included; the states it can reach; what each
    operation of a connection or substream sends, and with which nonces.
  \<^item> \<open>Node_Invariant\<close>: the invariant of a node, kept by every action: the outbound messages of every
    connection are numbered without gaps, the inbound ones satisfy the delivery invariant, and
    everything the user holds belongs to a connection of the transport.
  \<^item> \<open>Node_Types\<close>: every identifier in a node has 32 bytes, wherever it is, and every action keeps it
    so; all a node sends is read back by the parser of its peer, but for data messages without data.
  \<^item> \<open>Two_Nodes\<close>: two nodes and the mixnet between them as a step relation; it refines a
    first-in-first-out channel per connection.
  \<^item> \<open>Relay\<close>: the mixnet task joined to the node: a poll of the task is a run of the actions the node's
    model has for it, and two tasks with the Nym network between them carry a node's messages to the other.
  \<^item> \<open>Dialogue\<close>: two ends of a connection, each with its task, transport, connection and cells; opening a
    substream and exchanging data over it, through all of these and the network.
  \<^item> this theory: the handshake of two nodes.

  \<^bold>\<open>Conventions.\<close>  A struct is a record and an enumeration a datatype with the source's constructors; a
  method is a function that returns the updated struct and cells.  \<open>Err\<close> is a returned error and
  \<open>Panic\<close> a panic, with its text.  An \<open>async\<close> function is what one poll of its future does, with
  \<open>Pending\<close> when it has to wait; where it can be suspended at several points its state is a datatype
  (\<open>out_state\<close>, \<open>DialFuture\<close>).  A waker is a number, \<open>woken\<close> the log of the calls.  The timers
  of tokio are an argument (\<open>clock\<close>); durations are in nanoseconds.  Random identifiers come from a function that fills a buffer.  The
  loops of \<open>poll\<close> and of the queue are total functions: every round takes a message from a finite
  buffer; no fuel is used.  The loop of the mixnet task (\<open>mixnet_loop\<close>) may run for ever, so it is a
  partial function with the value \<open>None\<close> then; \<open>mixnet_task_spins\<close> tells when.

  \<^bold>\<open>Idealisations.\<close>  A receiver with a waiting message gives it out: the cooperative budget of tokio, for
  which \<open>poll_recv\<close> may be pending now and then although a message waits (and wakes the task at once),
  is not modelled.  So where a theorem says that a pending poll has handled everything, the program may
  need another poll for it.  Taking a nonce with \<open>fetch_add\<close> and sending the message that carries it are
  two steps of the program and one of the model, so that the outbound channel has the messages of a
  connection in the order of their nonces; two substreams that write on different threads at the same
  time can enter it in the other order, which the queue of the peer undoes.  Other calls, too, do not
  overlap: the node's actions happen one after the other, in any order.

  \<^bold>\<open>Arguments of the model\<close> (code of other crates): \<open>codecs\<close> (bytes of a recipient and of a peer
  identifier), \<open>addressing\<close> (multiaddresses, printed Nym addresses, the peer identifier of a keypair),
  \<open>nym_api\<close> (requests and responses of the Nym client), \<open>websocket\<close>, \<open>clock\<close> (timers) and the Nym network
  between two clients.  What is assumed of them is \<open>codecs_ok\<close> and \<open>addressing_ok\<close>, the round trips those
  crates document, \<open>clock_ok\<close> (a timer does not fire before its deadline) and, in \<open>Relay\<close> and \<open>Dialogue\<close>
  only, \<open>nym_ok\<close> (the recipient of a packet gets its bytes).  The executor and the swarm of
  libp2p, which call the operations, are the actions of \<open>Node\<close> and the loop of \<open>Executor\<close>: any order of
  calls, with two restrictions: nobody closes a substream that is closed already (the nonce it uses
  up would leave a gap, see \<open>poll_close_behaviour\<close>), and arriving messages do not have the nonces 0
  and \<open>2\<^sup>6\<^sup>4 - 1\<close> (see \<open>nonce_zero_crashes\<close>).  The random generator fills the whole buffer it is given.

  \<^bold>\<open>Not modelled\<close>: log output and \<open>Debug\<close>, the texts of errors, the tests of the crate (what they run
  through on one example, \<open>handshake\<close> and the theorems of \<open>Dialogue\<close> and of the components state for
  all inputs), the docker containers of \<open>test_utils.rs\<close> and the example programs \<open>ping\<close> and \<open>chat\<close>, which
  only wire the transport into a libp2p swarm.
\<close>

section \<open>The handshake of two nodes\<close>

lemma fresh_queue:
  "message_queues t cid = None \<Longrightarrow>
   set_connection_message_received (queue_for t cid) = Ok \<lparr>next_expected_nonce = 1, queue = []\<rparr>"
  by (simp add: queue_for_def set_connection_message_received_def MessageQueue_new_def)

lemma valid_connection_message:
  "cid_ok (cm_id c) \<Longrightarrow> codecs_ok E \<Longrightarrow>
   parse_message_data E (Message_to_bytes E (ConnectionRequest c)) = Ok (InboundMessage (ConnectionRequest c)) \<and>
   parse_message_data E (Message_to_bytes E (ConnectionResponse c)) = Ok (InboundMessage (ConnectionResponse c))"
  by (simp add: parse_message_data_eq Message_dec_enc ConnectionMessage_valid_def del: Message_to_bytes.simps)

text \<open>The dialling side: the dial, its first poll, the response, its second poll.\<close>

lemma dialler_side:
  fixes t :: "('k, 'r, 'm, 'x) NymTransport" and A :: "('k, 'p, 'r, 'm, 'x) addressing"
  assumes "multiaddress_to_nym_address A addr = Ok remote" and "ConnectionId_generate fill = cid"
    and "connections t cid = None" and "message_queues t cid = None" and "pending_dials t cid = None"
    and "rx_open (outbound w)" and "0 < handshake_timeout t" and "clock_ok now"
  shows "\<exists>f t1 w1 f1 w2. dial A fill t addr w = (Ok f, t1, w1) \<and>
    (dial_poll now f w1 :: ('p \<times> ('p, 'r) Connection, 'x error) outcome poll \<times> _) = (Pending, f1, w2) \<and>
    buffer (outbound w2) = buffer (outbound w) @
      [\<lparr>om_message = ConnectionRequest
         \<lparr>cm_peer_id = peer_id A t, cm_id = cid, cm_recipient = Some (self_address t)\<rparr>,
        om_recipient = remote\<rparr>] \<and>
    (\<exists>t2 w3 conn f2 w4.
      handle_inbound A t1 (ConnectionResponse \<lparr>cm_peer_id = p, cm_id = cid, cm_recipient = None\<rparr>) w2 =
        (Ok ConnectionResponseEvent, t2, w3) \<and>
      (dial_poll now' f1 w3 :: ('p \<times> ('p, 'r) Connection, 'x error) outcome poll \<times> _) =
        (Ready (Ok (p, conn)), f2, w4) \<and>
      c_id conn = cid \<and> c_remote_recipient conn = remote \<and> connections t2 cid = Some (c_inbound_rx conn))"
proof -
  let ?f = "DialStart \<lparr>cm_peer_id = peer_id A t, cm_id = cid, cm_recipient = Some (self_address t)\<rparr>
      remote (t_waker t) (handshake_timeout t) (fresh w)"
  let ?t1 = "t\<lparr>pending_dials := (pending_dials t)(cid \<mapsto> PendingConnection_new remote (fresh w))\<rparr>"
  let ?w1 = "w\<lparr>dial_shots := (dial_shots w)(fresh w \<mapsto> Waiting), fresh := Suc (fresh w)\<rparr>"
  let ?w2 = "wake_taken (t_waker t) (?w1\<lparr>outbound := (outbound w)\<lparr>buffer := buffer (outbound w) @
      [\<lparr>om_message = ConnectionRequest
         \<lparr>cm_peer_id = peer_id A t, cm_id = cid, cm_recipient = Some (self_address t)\<rparr>,
        om_recipient = remote\<rparr>]\<rparr>\<rparr>)"
  have "dial A fill t addr w = (Ok ?f, ?t1, ?w1)"
    using assms by (simp add: dial_def new_dial_shot_def drop_pending_def peer_id_def Let_def)
  moreover have "(dial_poll now ?f ?w1 :: ('p \<times> ('p, 'r) Connection, 'x error) outcome poll \<times> _) =
      (Pending, DialWaiting (time now + handshake_timeout t) (fresh w), ?w2)"
    using assms(6-8) by (simp add: dial_poll_start)
  moreover have "\<exists>t2 w3 conn f2 w4.
      handle_inbound A ?t1 (ConnectionResponse \<lparr>cm_peer_id = p, cm_id = cid, cm_recipient = None\<rparr>) ?w2 =
        (Ok ConnectionResponseEvent, t2, w3) \<and>
      (dial_poll now' (DialWaiting (time now + handshake_timeout t) (fresh w)) w3 ::
          ('p \<times> ('p, 'r) Connection, 'x error) outcome poll \<times> _) = (Ready (Ok (p, conn)), f2, w4) \<and>
      c_id conn = cid \<and> c_remote_recipient conn = remote \<and> connections t2 cid = Some (c_inbound_rx conn)"
    using assms(3,4)
    by (simp add: handle_inbound_def fresh_queue PendingConnection_new_def Let_def
        connection_response_resolved [of _ _ "\<lparr>pc_remote_recipient = remote, pc_connection_tx = fresh w\<rparr>"
          "\<lparr>next_expected_nonce = 1, queue = []\<rparr>"]
        dial_poll_def dial_wait_def)
  ultimately show ?thesis by simp
qed

text \<open>The listening side: the request, and the poll of the upgrade it produces.\<close>

lemma listener_side:
  fixes t :: "('k, 'r, 'm, 'x) NymTransport" and A :: "('k, 'p, 'r, 'm, 'x) addressing"
  assumes "connections t cid = None" and "message_queues t cid = None" and "rx_open (outbound w)"
  shows "\<exists>u t1 w1 conn w2.
    handle_inbound A t (ConnectionRequest \<lparr>cm_peer_id = p, cm_id = cid, cm_recipient = Some remote\<rparr>) w =
      (Ok (ConnectionRequestEvent u), t1, w1) \<and>
    buffer (outbound w1) = buffer (outbound w) @
      [\<lparr>om_message = ConnectionResponse \<lparr>cm_peer_id = peer_id A t, cm_id = cid, cm_recipient = None\<rparr>,
        om_recipient = remote\<rparr>] \<and>
    (Upgrade_poll u w1 :: ('p \<times> ('p, 'r) Connection, 'x error) outcome poll \<times> _) =
      (Ready (Ok (p, conn)), w2) \<and>
    c_id conn = cid \<and> c_remote_recipient conn = remote \<and> connections t1 cid = Some (c_inbound_rx conn)"
  using assms
  by (simp add: handle_inbound_def fresh_queue Let_def
      connection_request_accepted [of _ remote _ "\<lparr>next_expected_nonce = 1, queue = []\<rparr>"]
      new_upgrade_shot_def send_upgrade_def Upgrade_new_def Upgrade_poll_def)

text \<open>
  (C1) The handshake of two nodes, over the wire: node \<open>a\<close> dials the address of node \<open>b\<close> and polls the
  dial; its request, encoded, sent and decoded, is accepted by \<open>b\<close>; the response of \<open>b\<close>, sent to the
  return address in the request and decoded by \<open>a\<close>, completes the dial.  Then both sides hold a
  connection with the same identifier, each with the other's peer identifier and Nym address.
\<close>

theorem handshake:
  fixes ta tb :: "('k, 'r, 'm, 'x) NymTransport" and A :: "('k, 'p, 'r, 'm, 'x) addressing"
    and wa wb :: "('p, 'r, 'z) node_net_scheme"
  assumes "codecs_ok E" and "ConnectionId_generate fill = cid" and "cid_ok cid"
    and "multiaddress_to_nym_address A addr = Ok (self_address tb)"
    and "connections ta cid = None" and "message_queues ta cid = None" and "pending_dials ta cid = None"
    and "connections tb cid = None" and "message_queues tb cid = None"
    and "rx_open (outbound wa)" and "rx_open (outbound wb)" and "0 < handshake_timeout ta"
    and "clock_ok now"
  shows "\<exists>f ta1 wa1 f1 wa2 req req'.
      dial A fill ta addr wa = (Ok f, ta1, wa1) \<and>
      (dial_poll now f wa1 :: ('p \<times> ('p, 'r) Connection, 'x error) outcome poll \<times> _) = (Pending, f1, wa2) \<and>
      buffer (outbound wa2) = buffer (outbound wa) @ [\<lparr>om_message = req, om_recipient = self_address tb\<rparr>] \<and>
      parse_message_data E (Message_to_bytes E req) = Ok (InboundMessage req') \<and>
    (\<exists>u tb1 wb1 cb wb2 resp resp'.
      handle_inbound A tb req' wb = (Ok (ConnectionRequestEvent u), tb1, wb1) \<and>
      (Upgrade_poll u wb1 :: ('p \<times> ('p, 'r) Connection, 'x error) outcome poll \<times> _) =
        (Ready (Ok (peer_id A ta, cb)), wb2) \<and>
      buffer (outbound wb1) = buffer (outbound wb) @ [\<lparr>om_message = resp, om_recipient = self_address ta\<rparr>] \<and>
      parse_message_data E (Message_to_bytes E resp) = Ok (InboundMessage resp') \<and>
    (\<exists>ta2 wa3 ca f2 wa4.
      handle_inbound A ta1 resp' wa2 = (Ok ConnectionResponseEvent, ta2, wa3) \<and>
      (dial_poll now' f1 wa3 :: ('p \<times> ('p, 'r) Connection, 'x error) outcome poll \<times> _) =
        (Ready (Ok (peer_id A tb, ca)), f2, wa4) \<and>
      c_id ca = cid \<and> c_id cb = cid \<and>
      c_remote_recipient ca = self_address tb \<and> c_remote_recipient cb = self_address ta))"
proof -
  let ?req = "ConnectionRequest
      \<lparr>cm_peer_id = peer_id A ta, cm_id = cid, cm_recipient = Some (self_address ta)\<rparr> :: ('p, 'r) Message"
  let ?resp = "ConnectionResponse
      \<lparr>cm_peer_id = peer_id A tb, cm_id = cid, cm_recipient = None\<rparr> :: ('p, 'r) Message"
  have "parse_message_data E (Message_to_bytes E ?req) = Ok (InboundMessage ?req)"
      "parse_message_data E (Message_to_bytes E ?resp) = Ok (InboundMessage ?resp)"
    using assms(1,3) by (simp_all add: valid_connection_message del: Message_to_bytes.simps)
  moreover note dialler_side [OF assms(4,2,5-7,10,12,13), where p = "peer_id A tb" and now' = now']
  moreover note listener_side [OF assms(8,9,11), where p = "peer_id A ta" and remote = "self_address ta" and A = A]
  ultimately show ?thesis by (elim exE conjE) (intro exI conjI; assumption)
qed

definition demo_listener :: "(u8, u8, string, unit) NymTransport" where
  "demo_listener = demo_transport\<lparr>self_address := 3, keypair := 2, pending_dials := Map.empty\<rparr>"

theorem handshake_witness:
  "\<exists>f ta1 wa1 f1 wa2 req' u tb1 wb1 cb wb2 resp' ta2 wa3 ca f2 wa4.
      dial demo_addressing (\<lambda>n. replicate n 8) demo_transport ''/nym/xxx'' (demo_node_net []) =
        ((Ok f :: ((u8, u8) DialFuture, unit error) outcome), ta1, wa1) \<and>
      (dial_poll (demo_clock 0) f wa1 :: (u8 \<times> (u8, u8) Connection, unit error) outcome poll \<times> _) = (Pending, f1, wa2) \<and>
      handle_inbound demo_addressing demo_listener req' (demo_node_net []) = (Ok (ConnectionRequestEvent u), tb1, wb1) \<and>
      (Upgrade_poll u wb1 :: (u8 \<times> (u8, u8) Connection, unit error) outcome poll \<times> _) =
        (Ready (Ok (1, cb)), wb2) \<and>
      handle_inbound demo_addressing ta1 resp' wa2 = (Ok ConnectionResponseEvent, ta2, wa3) \<and>
      (dial_poll (demo_clock 1) f1 wa3 :: (u8 \<times> (u8, u8) Connection, unit error) outcome poll \<times> _) =
        (Ready (Ok (2, ca)), f2, wa4) \<and>
      c_id ca = c_id cb \<and> c_remote_recipient ca = 3 \<and> c_remote_recipient cb = 4"
proof -
  have id: "ConnectionId_generate (\<lambda>n. replicate n 8) = ConnectionId (replicate 32 8)"
    by (simp add: ConnectionId_generate_def)
  have new: "cid_ok (ConnectionId (replicate 32 8))" "pending_dials demo_transport (ConnectionId (replicate 32 8)) = None"
    by (simp_all add: cid_ok_def demo_cid_def)
  have peers: "peer_id demo_addressing demo_transport = 1" "peer_id demo_addressing demo_listener = 2"
      "self_address demo_transport = 4" "self_address demo_listener = 3"
      "0 < handshake_timeout demo_transport"
      "connections demo_listener = Map.empty" "message_queues demo_listener = Map.empty"
    by (simp_all add: peer_id_def demo_transport_def demo_listener_def demo_addressing_def from_secs_def)
  have "multiaddress_to_nym_address demo_addressing ''/nym/xxx'' = Ok (self_address demo_listener)"
    by (simp add: demo_to_nym peers)
  then obtain f ta1 wa1 f1 wa2 req' u tb1 wb1 cb wb2 resp' ta2 wa3 ca f2 wa4 where h:
      "dial demo_addressing (\<lambda>n. replicate n 8) demo_transport ''/nym/xxx'' (demo_node_net []) =
        ((Ok f :: ((u8, u8) DialFuture, unit error) outcome), ta1, wa1)"
      "(dial_poll (demo_clock 0) f wa1 :: (u8 \<times> (u8, u8) Connection, unit error) outcome poll \<times> _) = (Pending, f1, wa2)"
      "handle_inbound demo_addressing demo_listener req' (demo_node_net []) = (Ok (ConnectionRequestEvent u), tb1, wb1)"
      "(Upgrade_poll u wb1 :: (u8 \<times> (u8, u8) Connection, unit error) outcome poll \<times> _) =
        (Ready (Ok (peer_id demo_addressing demo_transport, cb)), wb2)"
      "handle_inbound demo_addressing ta1 resp' wa2 = (Ok ConnectionResponseEvent, ta2, wa3)"
      "(dial_poll (demo_clock 1) f1 wa3 :: (u8 \<times> (u8, u8) Connection, unit error) outcome poll \<times> _) =
        (Ready (Ok (peer_id demo_addressing demo_listener, ca)), f2, wa4)"
      "c_id ca = ConnectionId (replicate 32 8)" "c_id cb = ConnectionId (replicate 32 8)"
      "c_remote_recipient ca = self_address demo_listener" "c_remote_recipient cb = self_address demo_transport"
    using handshake [OF demo_codecs_ok id new(1) _ _ _ new(2), of demo_addressing "''/nym/xxx''" demo_listener
        "demo_node_net []" "demo_node_net []" "demo_clock 0" "demo_clock 1"] peers(5-7)
    by auto
  show ?thesis
    by (intro exI conjI, rule h(1), rule h(2), rule h(3), rule h(4) [unfolded peers], rule h(5),
        rule h(6) [unfolded peers]) (simp_all add: h(7-10) peers)
qed

end
